(* ===== verification/Prelude.thy ===== *)
theory Prelude
  imports Main "HOL-Library.Char_ord" "HOL-Library.List_Lexorder" "HOL-Library.Product_Lexorder"
begin

text \<open>
  Shared vocabulary of the development: the type names of the model, the two
  table primitives every SQL statement of the stores is written with (an
  \<^verbatim>\<open>UPDATE ... WHERE\<close> and its affected-row count), a locale for tables whose rows are
  identified by a key, and the locale of three-way comparison functions, which
  the version orderings of \<^verbatim>\<open>internal/pypi\<close> and \<^verbatim>\<open>internal/gomod\<close> interpret.
\<close>

section \<open>Types and simplification sets\<close>

type_synonym time = int
type_synonym id = string

named_theorems row_simps \<open>row updates of the job table, unfolded field by field\<close>
named_theorems sql_simps \<open>effects of the SQL primitives on the tables\<close>
named_theorems cmp_simps \<open>characteristic equations of the three-way comparisons\<close>

section \<open>Table primitives\<close>

text \<open>\<^verbatim>\<open>UPDATE t SET ... WHERE p\<close>: rows that satisfy \<open>p\<close> are rewritten in place.\<close>

definition upd_where :: "('r \<Rightarrow> bool) \<Rightarrow> ('r \<Rightarrow> 'r) \<Rightarrow> 'r list \<Rightarrow> 'r list" where
  "upd_where p f t = map (\<lambda>r. if p r then f r else r) t"

text \<open>\<^verbatim>\<open>RowsAffected()\<close> of that statement, and \<^verbatim>\<open>SELECT COUNT(*) ... WHERE p\<close>.\<close>

definition count_where :: "('r \<Rightarrow> bool) \<Rightarrow> 'r list \<Rightarrow> nat" where
  "count_where p t = length (filter p t)"

lemma upd_where_Nil [simp]: "upd_where p f [] = []"
  by (simp add: upd_where_def)

lemma upd_where_Cons [simp]:
  "upd_where p f (r # t) = (if p r then f r else r) # upd_where p f t"
  by (simp add: upd_where_def)

lemma upd_where_append [simp]: "upd_where p f (s @ t) = upd_where p f s @ upd_where p f t"
  by (simp add: upd_where_def)

lemma length_upd_where [simp]: "length (upd_where p f t) = length t"
  by (simp add: upd_where_def)

lemma set_upd_where: "set (upd_where p f t) = (\<lambda>r. if p r then f r else r) ` set t"
  by (simp add: upd_where_def)

lemma upd_where_cases:
  assumes "r' \<in> set (upd_where p f t)"
  obtains r where "r \<in> set t" "p r" "r' = f r" | "r' \<in> set t" "\<not> p r'"
  using assms by (auto simp: set_upd_where split: if_splits)

lemma upd_where_none: "count_where p t = 0 \<Longrightarrow> upd_where p f t = t"
  by (induction t) (auto simp: count_where_def split: if_splits)

lemma count_where_0: "count_where p t = 0 \<longleftrightarrow> (\<forall>r \<in> set t. \<not> p r)"
  by (simp add: count_where_def filter_empty_conv)

lemma map_upd_where_same [simp]:
  "(\<And>r. p r \<Longrightarrow> k (f r) = k r) \<Longrightarrow> map k (upd_where p f t) = map k t"
  by (simp add: upd_where_def)

lemma ball_upd_where:
  assumes "\<forall>r \<in> set t. ok r" "\<And>r. r \<in> set t \<Longrightarrow> ok r \<Longrightarrow> p r \<Longrightarrow> ok (f r)"
  shows "\<forall>r \<in> set (upd_where p f t). ok r"
  using assms by (auto simp: set_upd_where)

lemma count_where_distinct_key:
  assumes "distinct (map k t)" "\<And>r. p r \<Longrightarrow> k r = x"
  shows "count_where p t \<le> 1"
proof -
  have "length (filter (\<lambda>r. k r = x) t) \<le> 1"
    using assms(1) by (induction t) (auto simp: filter_empty_conv image_iff)
  moreover have "length (filter p t) \<le> length (filter (\<lambda>r. k r = x) t)"
    using assms(2) by (induction t) auto
  ultimately show ?thesis by (simp add: count_where_def)
qed

lemma find_SomeD: "find p t = Some r \<Longrightarrow> r \<in> set t \<and> p r"
  by (auto simp: find_Some_iff)

lemma find_append: "find p (s @ t) = (case find p s of None \<Rightarrow> find p t | Some x \<Rightarrow> Some x)"
  by (induction s) auto

lemma find_None_iff': "find p t = None \<longleftrightarrow> (\<forall>r \<in> set t. \<not> p r)"
  by (auto simp: find_None_iff)

section \<open>Keyed tables\<close>

text \<open>
  A table with a primary key: a row is found by its key, and an update that
  keeps the key of every row it writes keeps the table keyed.
\<close>

locale keyed_table =
  fixes key :: "'r \<Rightarrow> 'k"
begin

definition keyed :: "'r list \<Rightarrow> bool" where
  "keyed t \<longleftrightarrow> distinct (map key t)"

lemma keyed_unique: "keyed t \<Longrightarrow> r \<in> set t \<Longrightarrow> s \<in> set t \<Longrightarrow> key r = key s \<Longrightarrow> r = s"
  unfolding keyed_def by (metis distinct_map inj_on_def)

lemma keyed_find: "keyed t \<Longrightarrow> r \<in> set t \<Longrightarrow> find (\<lambda>x. key x = key r) t = Some r"
  by (metis (mono_tags, lifting) find_None_iff' find_SomeD keyed_unique option.exhaust)

lemma keyed_upd_where: "(\<And>r. p r \<Longrightarrow> key (f r) = key r) \<Longrightarrow> keyed (upd_where p f t) = keyed t"
  by (simp add: keyed_def)

lemma keyed_snoc: "keyed (t @ [r]) \<longleftrightarrow> keyed t \<and> key r \<notin> key ` set t"
  by (auto simp: keyed_def)

lemma keyed_count_key: "keyed t \<Longrightarrow> (\<And>r. p r \<Longrightarrow> key r = x) \<Longrightarrow> count_where p t \<le> 1"
  unfolding keyed_def by (rule count_where_distinct_key)

lemma keyed_count_1:
  assumes "keyed t" "\<And>r. p r \<Longrightarrow> key r = x" "r \<in> set t" "p r"
  shows "count_where p t = 1"
proof -
  have "count_where p t \<noteq> 0" using assms(3,4) by (auto simp: count_where_0)
  moreover have "count_where p t \<le> 1" using assms(1,2) by (rule keyed_count_key)
  ultimately show ?thesis by linarith
qed

end

section \<open>Three-way comparisons\<close>

text \<open>
  The sources compare versions, coordinates and edges by functions that return a
  negative, zero or positive number. The contract of such a function: it is antisymmetric in
  its two arguments (which includes \<open>cmp x x = 0\<close>) and its non-strict order is
  transitive.
\<close>

locale comparison =
  fixes cmp :: "'a \<Rightarrow> 'a \<Rightarrow> int"
  assumes cmp_flip: "cmp y x = - cmp x y"
    and cmp_trans: "cmp x y \<le> 0 \<Longrightarrow> cmp y z \<le> 0 \<Longrightarrow> cmp x z \<le> 0"
begin

lemma cmp_refl: "cmp x x = 0"
  using cmp_flip [of x x] by simp

lemma cmp_eq_sym: "cmp x y = 0 \<longleftrightarrow> cmp y x = 0"
  using cmp_flip [of x y] by auto

lemma cmp_total: "cmp x y \<le> 0 \<or> cmp y x \<le> 0"
  using cmp_flip [of x y] by linarith

lemma cmp_gt: "cmp x y > 0 \<longleftrightarrow> cmp y x < 0"
  using cmp_flip [of x y] by linarith

lemma cmp_eq_trans: "cmp x y = 0 \<Longrightarrow> cmp y z = 0 \<Longrightarrow> cmp x z = 0"
  using cmp_trans [of x y z] cmp_trans [of z y x] cmp_flip [of x y] cmp_flip [of y z]
    cmp_flip [of x z] by linarith

lemma cmp_less_trans1: "cmp x y < 0 \<Longrightarrow> cmp y z \<le> 0 \<Longrightarrow> cmp x z < 0"
  using cmp_trans [of x y z] cmp_trans [of y z x] cmp_flip [of x y] cmp_flip [of x z]
  by linarith

lemma cmp_less_trans2: "cmp x y \<le> 0 \<Longrightarrow> cmp y z < 0 \<Longrightarrow> cmp x z < 0"
  using cmp_trans [of x y z] cmp_trans [of z x y] cmp_flip [of y z] cmp_flip [of x z]
  by linarith

lemma cmp_cong_left: "cmp x y = 0 \<Longrightarrow> cmp x z \<le> 0 \<longleftrightarrow> cmp y z \<le> 0"
  using cmp_trans [of x y z] cmp_trans [of y x z] cmp_flip [of x y] by auto

text \<open>A non-empty list has an element that no element exceeds.\<close>

lemma maximal_exists: "xs \<noteq> [] \<Longrightarrow> \<exists>m \<in> set xs. \<forall>x \<in> set xs. cmp x m \<le> 0"
proof (induction xs rule: list_nonempty_induct)
  case (single x)
  then show ?case by (simp add: cmp_refl)
next
  case (cons x xs)
  then obtain m where m: "m \<in> set xs" "\<forall>y \<in> set xs. cmp y m \<le> 0" by blast
  show ?case
  proof (cases "cmp x m \<le> 0")
    case True
    with m show ?thesis by auto
  next
    case False
    then have "cmp m x \<le> 0" using cmp_total by blast
    with m have "\<forall>y \<in> set (x # xs). cmp y x \<le> 0"
      by (auto simp: cmp_refl intro: cmp_trans)
    then show ?thesis by auto
  qed
qed

text \<open>The last element of a list sorted by the comparison is maximal.\<close>

lemma last_sorted_maximal:
  assumes "sorted_wrt (\<lambda>a b. cmp a b \<le> 0) xs" "x \<in> set xs"
  shows "cmp x (last xs) \<le> 0"
  using assms
proof (induction xs)
  case Nil
  then show ?case by simp
next
  case (Cons y ys)
  show ?case
  proof (cases ys)
    case Nil
    with Cons.prems show ?thesis by (simp add: cmp_refl)
  next
    case (Cons z zs)
    with Cons.IH Cons.prems show ?thesis by (cases "x = y") auto
  qed
qed

end

text \<open>
  Comparing by a first comparison and, on a tie, by a second one is again a
  comparison: the shape of every multi-field comparison of the sources.
\<close>

definition lex_cmp :: "('a \<Rightarrow> 'a \<Rightarrow> int) \<Rightarrow> ('a \<Rightarrow> 'a \<Rightarrow> int) \<Rightarrow> 'a \<Rightarrow> 'a \<Rightarrow> int" where
  "lex_cmp c d x y = (if c x y \<noteq> 0 then c x y else d x y)"

lemma lex_cmp_comparison:
  assumes c: "comparison c" and d: "comparison d"
  shows "comparison (lex_cmp c d)"
proof
  fix x y
  show "lex_cmp c d y x = - lex_cmp c d x y"
    using comparison.cmp_flip [OF c, of x y] comparison.cmp_flip [OF d, of x y]
    by (auto simp: lex_cmp_def)
next
  fix x y z
  assume xy: "lex_cmp c d x y \<le> 0" and yz: "lex_cmp c d y z \<le> 0"
  have cxy: "c x y \<le> 0" and cyz: "c y z \<le> 0"
    using xy yz by (auto simp: lex_cmp_def split: if_splits)
  have cxz: "c x z \<le> 0" using comparison.cmp_trans [OF c cxy cyz] .
  show "lex_cmp c d x z \<le> 0"
  proof (cases "c x z = 0")
    case False
    with cxz show ?thesis by (simp add: lex_cmp_def)
  next
    case True
    have "c x y = 0" "c y z = 0"
      using True comparison.cmp_less_trans1 [OF c, of x y z]
        comparison.cmp_less_trans2 [OF c, of x y z] cxy cyz by force+
    then have "d x y \<le> 0" "d y z \<le> 0" using xy yz by (auto simp: lex_cmp_def)
    then have "d x z \<le> 0" by (rule comparison.cmp_trans [OF d])
    with True show ?thesis by (simp add: lex_cmp_def)
  qed
qed

text \<open>Comparing images under a function, as the field comparisons do.\<close>

lemma comparison_on: "comparison c \<Longrightarrow> comparison (\<lambda>x y. c (f x) (f y))"
  unfolding comparison_def by metis

text \<open>Lists compared position by position, a proper prefix first.\<close>

fun list_cmp :: "('a \<Rightarrow> 'a \<Rightarrow> int) \<Rightarrow> 'a list \<Rightarrow> 'a list \<Rightarrow> int" where
  "list_cmp c [] [] = 0"
| "list_cmp c [] (y # ys) = - 1"
| "list_cmp c (x # xs) [] = 1"
| "list_cmp c (x # xs) (y # ys) = (if c x y \<noteq> 0 then c x y else list_cmp c xs ys)"

lemma list_cmp_comparison:
  assumes c: "comparison c"
  shows "comparison (list_cmp c)"
proof
  fix xs ys
  show "list_cmp c ys xs = - list_cmp c xs ys"
  proof (induction xs arbitrary: ys)
    case Nil
    then show ?case by (cases ys) simp_all
  next
    case step: (Cons x xs)
    show ?case
    proof (cases ys)
      case Nil
      then show ?thesis by simp
    next
      case (Cons y ys')
      then show ?thesis using step [of ys'] comparison.cmp_flip [OF c, of x y] by simp
    qed
  qed
next
  fix xs ys zs
  assume "list_cmp c xs ys \<le> 0" "list_cmp c ys zs \<le> 0"
  then show "list_cmp c xs zs \<le> 0"
  proof (induction xs arbitrary: ys zs)
    case Nil
    then show ?case by (cases zs) simp_all
  next
    case (Cons x xs)
    obtain y ys' where ys: "ys = y # ys'" using Cons.prems(1) by (cases ys) auto
    obtain z zs' where zs: "zs = z # zs'" using Cons.prems(2) ys by (cases zs) auto
    have le: "c x y \<le> 0" "c y z \<le> 0" using Cons.prems ys zs by (auto split: if_splits)
    then have xz: "c x z \<le> 0" by (rule comparison.cmp_trans [OF c])
    show ?case
    proof (cases "c x z = 0")
      case True
      then have "c x y = 0" "c y z = 0"
        using comparison.cmp_less_trans1 [OF c, of x y z] comparison.cmp_less_trans2 [OF c, of x y z] le by force+
      with Cons ys zs True show ?thesis by auto
    qed (use xz zs in simp)
  qed
qed

end
