(* ===== verification/Go_Strings.thy ===== *)
theory Go_Strings
  imports Prelude
begin

text \<open>
  The part of Go's \<^verbatim>\<open>strings\<close> and \<^verbatim>\<open>strconv\<close> packages the sources use, on
  byte strings. A \<^typ>\<open>char\<close> is a byte. Case folding and white space are the ASCII ones:
  the inputs the sources apply them to (versions, package names, job types, header
  values) are ASCII.
\<close>

section \<open>Characters\<close>

definition is_space :: "char \<Rightarrow> bool" where
  "is_space c \<longleftrightarrow> c \<in> {CHR 0x09, CHR 0x0A, CHR 0x0B, CHR 0x0C, CHR 0x0D, CHR '' ''}"

definition is_digit :: "char \<Rightarrow> bool" where
  "is_digit c \<longleftrightarrow> CHR ''0'' \<le> c \<and> c \<le> CHR ''9''"

definition is_upper :: "char \<Rightarrow> bool" where
  "is_upper c \<longleftrightarrow> CHR ''A'' \<le> c \<and> c \<le> CHR ''Z''"

definition is_lower :: "char \<Rightarrow> bool" where
  "is_lower c \<longleftrightarrow> CHR ''a'' \<le> c \<and> c \<le> CHR ''z''"

definition lower :: "char \<Rightarrow> char" where
  "lower c = (if is_upper c then char_of ((of_char c :: nat) + 32) else c)"

section \<open>The strings package\<close>

definition TrimLeftSpace :: "string \<Rightarrow> string" where
  "TrimLeftSpace s = dropWhile is_space s"

definition TrimRightFunc :: "(char \<Rightarrow> bool) \<Rightarrow> string \<Rightarrow> string" where
  "TrimRightFunc p s = rev (dropWhile p (rev s))"

definition TrimSpace :: "string \<Rightarrow> string" where
  "TrimSpace s = TrimRightFunc is_space (TrimLeftSpace s)"

definition HasPrefix :: "string \<Rightarrow> string \<Rightarrow> bool" where
  "HasPrefix s p \<longleftrightarrow> take (length p) s = p"

definition HasSuffix :: "string \<Rightarrow> string \<Rightarrow> bool" where
  "HasSuffix s p \<longleftrightarrow> length p \<le> length s \<and> drop (length s - length p) s = p"

definition TrimPrefix :: "string \<Rightarrow> string \<Rightarrow> string" where
  "TrimPrefix s p = (if HasPrefix s p then drop (length p) s else s)"

definition TrimSuffix :: "string \<Rightarrow> string \<Rightarrow> string" where
  "TrimSuffix s p = (if HasSuffix s p then take (length s - length p) s else s)"

definition ToLower :: "string \<Rightarrow> string" where
  "ToLower s = map lower s"

definition EqualFold :: "string \<Rightarrow> string \<Rightarrow> bool" where
  "EqualFold s t \<longleftrightarrow> ToLower s = ToLower t"

fun Contains :: "string \<Rightarrow> string \<Rightarrow> bool" where
  "Contains [] sub = (sub = [])"
| "Contains (c # s) sub = (HasPrefix (c # s) sub \<or> Contains s sub)"

text \<open>\<^verbatim>\<open>strings.Split\<close> with a one-byte separator: always at least one part.\<close>

fun Split :: "string \<Rightarrow> char \<Rightarrow> string list" where
  "Split [] sep = [[]]"
| "Split (c # s) sep =
     (if c = sep then [] # Split s sep
      else (case Split s sep of [] \<Rightarrow> [[c]] | p # ps \<Rightarrow> (c # p) # ps))"

text \<open>\<^verbatim>\<open>strings.SplitN(s, sep, 2)\<close>.\<close>

fun SplitN2 :: "string \<Rightarrow> char \<Rightarrow> string list" where
  "SplitN2 [] sep = [[]]"
| "SplitN2 (c # s) sep =
     (if c = sep then [[], s]
      else (case SplitN2 s sep of [] \<Rightarrow> [[c]] | p # ps \<Rightarrow> (c # p) # ps))"

fun Join :: "string list \<Rightarrow> string \<Rightarrow> string" where
  "Join [] sep = []"
| "Join [p] sep = p"
| "Join (p # q # ps) sep = p @ sep @ Join (q # ps) sep"

definition compareString :: "string \<Rightarrow> string \<Rightarrow> int" where
  "compareString s t = (if s < t then - 1 else if s = t then 0 else 1)"

section \<open>The strconv package\<close>

definition max_int64 :: int where "max_int64 = 9223372036854775807"
definition min_int64 :: int where "min_int64 = - 9223372036854775808"

definition digit_val :: "char \<Rightarrow> int" where
  "digit_val c = int (of_char c) - 48"

definition digits_val :: "string \<Rightarrow> int" where
  "digits_val s = foldl (\<lambda>n c. 10 * n + digit_val c) 0 s"

text \<open>
  \<^verbatim>\<open>strconv.Atoi\<close> on a 64-bit platform: the value and whether the error is nil.
  A syntax error returns 0, a value out of range the nearest bound.
\<close>

definition Atoi :: "string \<Rightarrow> int \<times> bool" where
  "Atoi s =
     (let (neg, ds) = (case s of [] \<Rightarrow> (False, [])
                       | c # r \<Rightarrow> if c = CHR ''-'' then (True, r)
                                  else if c = CHR ''+'' then (False, r) else (False, s))
      in if ds = [] \<or> \<not> list_all is_digit ds then (0, False)
         else let n = (if neg then - digits_val ds else digits_val ds)
              in if n > max_int64 then (max_int64, False)
                 else if n < min_int64 then (min_int64, False) else (n, True))"

fun nat_text :: "nat \<Rightarrow> string" where
  "nat_text n = (if n < 10 then [char_of (48 + n)] else nat_text (n div 10) @ [char_of (48 + n mod 10)])"

declare nat_text.simps [simp del]

definition Itoa :: "int \<Rightarrow> string" where
  "Itoa n = (if n < 0 then CHR ''-'' # nat_text (nat (- n)) else nat_text (nat n))"

section \<open>Facts\<close>

lemma HasPrefix_append [simp]: "HasPrefix (p @ s) p"
  by (simp add: HasPrefix_def)

lemma HasPrefix_iff: "HasPrefix s p \<longleftrightarrow> (\<exists>t. s = p @ t)"
  unfolding HasPrefix_def by (metis append_eq_conv_conj append_take_drop_id)

lemma TrimPrefix_append [simp]: "TrimPrefix (p @ s) p = s"
  by (simp add: TrimPrefix_def)

lemma Split_not_Nil [simp]: "Split s sep \<noteq> []"
  by (induction s) (auto split: list.splits)

lemma Join_Split: "Join (Split s sep) [sep] = s"
proof (induction s)
  case Nil
  then show ?case by simp
next
  case (Cons c s)
  obtain p ps where ps: "Split s sep = p # ps" by (cases "Split s sep") auto
  with Cons show ?case by (cases ps) auto
qed

lemma Split_no_sep: "p \<in> set (Split s sep) \<Longrightarrow> sep \<notin> set p"
  by (induction s arbitrary: p) (auto split: if_splits list.splits)

lemma nat_text_digits: "list_all is_digit (nat_text n)"
proof (induction n rule: nat_text.induct)
  case (1 n)
  have *: "is_digit (char_of (48 + k))" if "k < 10" for k :: nat
    using that by (auto simp: is_digit_def less_eq_char_def)
  show ?case
    using "1" * by (subst nat_text.simps) auto
qed

lemma nat_text_not_Nil [simp]: "nat_text n \<noteq> []"
  by (subst nat_text.simps) simp

lemma digits_val_snoc: "digits_val (s @ [c]) = 10 * digits_val s + digit_val c"
  by (simp add: digits_val_def)

lemma digits_val_nat_text: "digits_val (nat_text n) = int n"
proof (induction n rule: nat_text.induct)
  case (1 n)
  show ?case
  proof (cases "n < 10")
    case True
    then show ?thesis by (subst nat_text.simps) (simp add: digits_val_def digit_val_def)
  next
    case False
    with "1" show ?thesis
      by (subst nat_text.simps) (simp add: digits_val_snoc digit_val_def, presburger)
  qed
qed

lemma nat_text_head: "nat_text n = c # s \<Longrightarrow> is_digit c"
  using nat_text_digits [of n] by simp

lemma not_digit_sign [simp]: "\<not> is_digit CHR ''-''" "\<not> is_digit CHR ''+''"
  by (simp_all add: is_digit_def less_eq_char_def)

text \<open>Printing and parsing a 64-bit integer is a round trip.\<close>

lemma Atoi_Itoa:
  assumes "min_int64 \<le> n" "n \<le> max_int64"
  shows "Atoi (Itoa n) = (n, True)"
proof (cases "n < 0")
  case True
  then show ?thesis
    using assms nat_text_digits by (simp add: Atoi_def Itoa_def digits_val_nat_text)
next
  case False
  obtain c s where cs: "nat_text (nat n) = c # s" by (cases "nat_text (nat n)") auto
  then have "is_digit c" by (rule nat_text_head)
  then have "c \<noteq> CHR ''-''" "c \<noteq> CHR ''+''" by auto
  then show ?thesis
    using False assms nat_text_digits [of "nat n"] digits_val_nat_text [of "nat n"] cs
    by (simp add: Atoi_def Itoa_def)
qed

lemma compareString_comparison: "comparison compareString"
  by unfold_locales (auto simp: compareString_def split: if_splits)

interpretation go_string: comparison compareString
  by (rule compareString_comparison)

lemma compareString_eq [cmp_simps]: "compareString s t = 0 \<longleftrightarrow> s = t"
  by (simp add: compareString_def)

section \<open>Trimming and joining\<close>

definition trimmed :: "string \<Rightarrow> bool" where
  "trimmed s \<longleftrightarrow> s = [] \<or> (\<not> is_space (hd s) \<and> \<not> is_space (last s))"

lemma TrimSpace_id: "trimmed s \<Longrightarrow> TrimSpace s = s"
proof (cases "s = []")
  case False
  assume "trimmed s"
  have keep: "dropWhile is_space t = t" if "t \<noteq> []" "\<not> is_space (hd t)" for t
    using that by (cases t) auto
  show ?thesis
    using False \<open>trimmed s\<close> keep [of s] keep [of "rev s"]
    by (simp add: trimmed_def TrimSpace_def TrimLeftSpace_def TrimRightFunc_def hd_rev)
qed (simp add: TrimSpace_def TrimLeftSpace_def TrimRightFunc_def)

lemma trimmed_TrimSpace: "trimmed (TrimSpace s)"
proof -
  let ?l = "dropWhile is_space s"
  let ?r = "dropWhile is_space (rev ?l)"
  have "\<not> is_space (hd (rev ?r))" if "?r \<noteq> []"
  proof -
    have "?l \<noteq> []" using that by (metis dropWhile.simps(1) rev.simps(1))
    then have "\<not> is_space (hd ?l)" by (rule hd_dropWhile)
    moreover have "last ?r = last (rev ?l)"
      using that by (metis dropWhile_eq_Nil_conv last_appendR takeWhile_dropWhile_id)
    ultimately show ?thesis using that \<open>?l \<noteq> []\<close> by (simp add: hd_rev last_rev)
  qed
  moreover have "\<not> is_space (hd ?r)" if "?r \<noteq> []" using that by (rule hd_dropWhile)
  ultimately show ?thesis
    by (auto simp: trimmed_def TrimSpace_def TrimLeftSpace_def TrimRightFunc_def last_rev)
qed

lemma trimmed_append:
  "s \<noteq> [] \<Longrightarrow> t \<noteq> [] \<Longrightarrow> \<not> is_space (hd s) \<Longrightarrow> trimmed t \<Longrightarrow> trimmed (s @ t)"
  by (simp add: trimmed_def)

text \<open>Splitting what was joined from parts without the separator gives the parts.\<close>

lemma Split_no_sep_single: "sep \<notin> set p \<Longrightarrow> Split p sep = [p]"
  by (induction p) auto

lemma Split_append_sep: "sep \<notin> set p \<Longrightarrow> Split (p @ sep # s) sep = p # Split s sep"
  by (induction p) auto

lemma Split_Join: "ps \<noteq> [] \<Longrightarrow> \<forall>p \<in> set ps. sep \<notin> set p \<Longrightarrow> Split (Join ps [sep]) sep = ps"
proof (induction ps "[sep]" rule: Join.induct)
  case (3 p q ps)
  then show ?case by (simp add: Split_append_sep)
qed (simp_all add: Split_no_sep_single)

lemma Join_ends:
  assumes "ps \<noteq> []" "\<forall>p \<in> set ps. p \<noteq> []"
  shows "Join ps sep \<noteq> []" "hd (Join ps sep) = hd (hd ps)" "last (Join ps sep) = last (last ps)"
  using assms by (induction ps sep rule: Join.induct) auto

lemma TrimSpace_subset: "set (TrimSpace s) \<subseteq> set s"
  unfolding TrimSpace_def TrimLeftSpace_def TrimRightFunc_def
  by (auto dest!: set_dropWhileD)

end
