(* ===== verification/Go_Json.thy ===== *)
theory Go_Json
  imports Go_Strings
begin

text \<open>
  JSON values and the decoding rules of \<^verbatim>\<open>encoding/json\<close> the sources rely on. A
  \<^verbatim>\<open>json.RawMessage\<close> is \<open>None\<close> when it is empty and otherwise the value its text
  denotes; a number keeps its literal, because decoding it into a Go \<^verbatim>\<open>int\<close> depends
  on the literal. The database's \<^verbatim>\<open>jsonb\<close> columns store values, so text and value
  are not told apart.
\<close>

datatype json =
    JNull
  | JBool bool
  | JNum string
  | JStr string
  | JArr "json list"
  | JObj "(string \<times> json) list"

type_synonym raw_message = "json option"

text \<open>
  A struct field receives a key that equals its JSON name, or else equals it up to
  case.
\<close>

definition field_for :: "string list \<Rightarrow> string \<Rightarrow> string option" where
  "field_for fields k =
     (case find (\<lambda>f. f = k) fields of Some f \<Rightarrow> Some f | None \<Rightarrow> find (\<lambda>f. EqualFold f k) fields)"

text \<open>
  \<^verbatim>\<open>json.Unmarshal\<close> into a struct whose fields all are strings, starting from
  the zero value: members are read in order, unknown keys are skipped, \<^verbatim>\<open>null\<close>
  leaves a field as it is, any other non-string is an error.
\<close>

fun unmarshal_members :: "string list \<Rightarrow> (string \<times> json) list \<Rightarrow> (string \<Rightarrow> string) \<Rightarrow> (string \<Rightarrow> string) option" where
  "unmarshal_members fields [] acc = Some acc"
| "unmarshal_members fields ((k, v) # ms) acc =
     (case field_for fields k of
        None \<Rightarrow> unmarshal_members fields ms acc
      | Some f \<Rightarrow> (case v of
            JStr s \<Rightarrow> unmarshal_members fields ms (acc(f := s))
          | JNull \<Rightarrow> unmarshal_members fields ms acc
          | _ \<Rightarrow> None))"

fun unmarshal_strings :: "string list \<Rightarrow> raw_message \<Rightarrow> (string \<Rightarrow> string) option" where
  "unmarshal_strings fields None = None"
| "unmarshal_strings fields (Some JNull) = Some (\<lambda>_. [])"
| "unmarshal_strings fields (Some (JObj ms)) = unmarshal_members fields ms (\<lambda>_. [])"
| "unmarshal_strings fields (Some v) = None"

text \<open>Decoding a number literal into a Go \<^verbatim>\<open>int\<close>: integer literals in range only.\<close>

definition unmarshal_int :: "json \<Rightarrow> int option" where
  "unmarshal_int v = (case v of JNum t \<Rightarrow> (let (n, ok) = Atoi t in if ok then Some n else None) | _ \<Rightarrow> None)"

definition json_int :: "int \<Rightarrow> json" where
  "json_int n = JNum (Itoa n)"

lemma unmarshal_json_int:
  "min_int64 \<le> n \<Longrightarrow> n \<le> max_int64 \<Longrightarrow> unmarshal_int (json_int n) = Some n"
  by (simp add: unmarshal_int_def json_int_def Atoi_Itoa)

end
