(* ===== verification/Job.thy ===== *)
theory Job
  imports Go_Json
begin

text \<open>
  The shared data model of \<^verbatim>\<open>internal/job\<close>: statuses, jobs, submissions, handler
  results and error classification. Go strings that stand for "absent" are the empty
  string, pointers that may be nil are options.
\<close>

section \<open>Statuses and errors\<close>

datatype status =
    StatusPending | StatusRunning | StatusWaiting | StatusRetryScheduled
  | StatusCompleted | StatusFailed | StatusDeadLettered | StatusCancelled

fun status_text :: "status \<Rightarrow> string" where
  "status_text StatusPending = ''pending''"
| "status_text StatusRunning = ''running''"
| "status_text StatusWaiting = ''waiting''"
| "status_text StatusRetryScheduled = ''retry_scheduled''"
| "status_text StatusCompleted = ''completed''"
| "status_text StatusFailed = ''failed''"
| "status_text StatusDeadLettered = ''dead_lettered''"
| "status_text StatusCancelled = ''cancelled''"

definition all_statuses :: "status list" where
  "all_statuses = [StatusPending, StatusRunning, StatusWaiting, StatusRetryScheduled,
     StatusCompleted, StatusFailed, StatusDeadLettered, StatusCancelled]"

datatype error_kind = ErrorTransient | ErrorPermanent | ErrorCancelled

fun kind_text :: "error_kind \<Rightarrow> string" where
  "kind_text ErrorTransient = ''transient''"
| "kind_text ErrorPermanent = ''permanent''"
| "kind_text ErrorCancelled = ''cancelled''"

text \<open>
  Errors a store operation returns: the four sentinels of the package, and the
  database errors that a statement of the store can raise by itself (a unique or foreign
  key violation, no row for a \<^verbatim>\<open>Scan\<close>), and a stored result or a cursor that does not decode.
\<close>

datatype job_error =
    ErrNotFound | ErrConflict | ErrIdempotencyConflict | ErrLeaseLost
  | ErrUniqueViolation | ErrForeignKey | ErrNoRows | ErrDecode

text \<open>
  Errors as handlers build them: a plain error, one that wraps another with
  \<^verbatim>\<open>%w\<close>, a network error, a cancelled context, an error that classifies itself as
  retryable or not, and the package's \<^verbatim>\<open>ClassifiedError\<close>.
\<close>

datatype go_error =
    PlainError string
  | WrapError string go_error
  | NetError string
  | ContextCanceled
  | RetryableError bool string
  | ClassifiedError error_kind go_error

fun error_text :: "go_error \<Rightarrow> string" where
  "error_text (PlainError m) = m"
| "error_text (WrapError m e) = m @ '': '' @ error_text e"
| "error_text (NetError m) = m"
| "error_text ContextCanceled = ''context canceled''"
| "error_text (RetryableError r m) = m"
| "error_text (ClassifiedError k e) = error_text e"

text \<open>\<^verbatim>\<open>errors.As\<close> for a \<^verbatim>\<open>*ClassifiedError\<close>: the outermost one of the chain.\<close>

fun as_classified :: "go_error \<Rightarrow> error_kind option" where
  "as_classified (ClassifiedError k e) = Some k"
| "as_classified (WrapError m e) = as_classified e"
| "as_classified _ = None"

text \<open>\<^verbatim>\<open>errors.Is(err, context.Canceled)\<close>.\<close>

fun is_canceled :: "go_error \<Rightarrow> bool" where
  "is_canceled ContextCanceled = True"
| "is_canceled (WrapError m e) = is_canceled e"
| "is_canceled (ClassifiedError k e) = is_canceled e"
| "is_canceled _ = False"

definition Failure :: "error_kind \<Rightarrow> go_error option \<Rightarrow> go_error option" where
  "Failure kind err = (case err of None \<Rightarrow> None | Some e \<Rightarrow> Some (ClassifiedError kind e))"

definition KindOf :: "go_error \<Rightarrow> error_kind" where
  "KindOf err =
     (case as_classified err of
        Some k \<Rightarrow> k
      | None \<Rightarrow> if is_canceled err then ErrorCancelled else ErrorPermanent)"

section \<open>Jobs and submissions\<close>

definition DefaultMaxAttempts :: int where "DefaultMaxAttempts = 5"

record job =
  ID :: id
  Type :: string
  Payload :: raw_message
  Status :: status
  Attempts :: int
  MaxAttempts :: int
  ScheduledAt :: time
  RootJobID :: id
  ParentJobID :: id
  Internal :: bool
  IdempotencyKey :: string
  RequestHash :: string
  LockedBy :: string
  LeaseToken :: string
  LockedUntil :: "time option"
  HeartbeatAt :: "time option"
  CancelRequestedAt :: "time option"
  LastErrorKind :: "error_kind option"
  LastError :: string
  CreatedAt :: time
  StartedAt :: "time option"
  CompletedAt :: "time option"
  RetriedFromJobID :: id
  ReplayedFromJobID :: id

text \<open>\<^verbatim>\<open>job.Job{}\<close>; the zero status, the empty string, is never read.\<close>

definition zero_job :: job where
  "zero_job = \<lparr>ID = [], Type = [], Payload = None, Status = StatusPending, Attempts = 0, MaxAttempts = 0,
     ScheduledAt = 0, RootJobID = [], ParentJobID = [], Internal = False, IdempotencyKey = [], RequestHash = [],
     LockedBy = [], LeaseToken = [], LockedUntil = None, HeartbeatAt = None, CancelRequestedAt = None,
     LastErrorKind = None, LastError = [], CreatedAt = 0, StartedAt = None, CompletedAt = None,
     RetriedFromJobID = [], ReplayedFromJobID = []\<rparr>"

record submission =
  sType :: string
  sPayload :: raw_message
  sMaxAttempts :: int
  sIdempotencyKey :: string
  sRequestHash :: string
  sRootJobID :: id
  sParentJobID :: id
  sInternal :: bool
  sRetriedFromJobID :: id
  sReplayedFromJobID :: id

record handler_result =
  Result :: raw_message
  Children :: "submission list"

text \<open>A submission with every optional field left at its zero value.\<close>

definition submission_of :: "string \<Rightarrow> raw_message \<Rightarrow> int \<Rightarrow> submission" where
  "submission_of t p n = \<lparr>sType = t, sPayload = p, sMaxAttempts = n, sIdempotencyKey = [],
     sRequestHash = [], sRootJobID = [], sParentJobID = [], sInternal = False,
     sRetriedFromJobID = [], sReplayedFromJobID = []\<rparr>"

section \<open>Facts\<close>

lemma status_text_inj: "status_text a = status_text b \<Longrightarrow> a = b"
  by (cases a; cases b) simp_all

lemma all_statuses_complete: "s \<in> set all_statuses"
  by (cases s) (simp_all add: all_statuses_def)

text \<open>Classifying an error decides its kind; an error nobody classified is permanent.\<close>

lemma KindOf_Failure: "Failure k (Some e) = Some e' \<Longrightarrow> KindOf e' = k"
  by (auto simp: Failure_def KindOf_def)

lemma KindOf_wrap: "KindOf (WrapError m e) = KindOf e"
  by (simp add: KindOf_def)

lemma KindOf_unclassified:
  "as_classified e = None \<Longrightarrow> \<not> is_canceled e \<Longrightarrow> KindOf e = ErrorPermanent"
  by (simp add: KindOf_def)

end
