(* ===== verification/Store_Db.thy ===== *)
theory Store_Db
  imports Job
begin

text \<open>
  The tables of \<^verbatim>\<open>db/migrations\<close> as the PostgreSQL store of
  \<^verbatim>\<open>internal/store/postgres\<close> reads and writes them. A table is the list of its rows in
  insertion order, a nullable column is an option, a \<^verbatim>\<open>BIGSERIAL\<close> column takes the next
  number of its sequence. \<^verbatim>\<open>NOW()\<close> is the transaction's start time and an argument
  of every operation. Text columns are ordered byte-wise (the \<^verbatim>\<open>C\<close> collation).
\<close>

section \<open>Rows\<close>

record jobs_row =
  r_id :: id
  r_type :: string
  r_payload :: raw_message
  r_status :: status
  r_attempts :: int
  r_max_attempts :: int
  r_scheduled_at :: time
  r_root_job_id :: id
  r_parent_job_id :: "id option"
  r_internal :: bool
  r_idempotency_key :: "string option"
  r_request_hash :: "string option"
  r_locked_by :: "string option"
  r_lease_token :: "string option"
  r_locked_until :: "time option"
  r_heartbeat_at :: "time option"
  r_cancel_requested_at :: "time option"
  r_last_error_kind :: "error_kind option"
  r_last_error :: "string option"
  r_created_at :: time
  r_started_at :: "time option"
  r_completed_at :: "time option"
  r_retried_from_job_id :: "id option"
  r_replayed_from_job_id :: "id option"

record attempts_row =
  a_job_id :: id
  a_attempt :: int
  a_worker_id :: string
  a_lease_token :: string
  a_status :: string
  a_started_at :: time
  a_finished_at :: "time option"
  a_error_kind :: "error_kind option"
  a_error :: "string option"

record events_row =
  e_id :: int
  e_job_id :: id
  e_event_type :: string
  e_attempt :: "int option"
  e_worker_id :: "string option"
  e_details :: json
  e_occurred_at :: time

record workers_row =
  w_id :: string
  w_started_at :: time
  w_heartbeat_at :: time

record audit_results_row =
  ar_root_job_id :: id
  ar_ecosystem :: string
  ar_package_name :: string
  ar_package_version :: string
  ar_license :: string
  ar_verdict :: string
  ar_parent_name :: "string option"
  ar_parent_version :: "string option"

record audit_relationships_row =
  rel_root_job_id :: id
  rel_ecosystem :: string
  rel_parent_name :: string
  rel_parent_version :: string
  rel_child_name :: string
  rel_child_version :: string

record dlq_row =
  d_id :: int
  d_job_id :: id
  d_job_type :: string
  d_payload :: raw_message
  d_attempts :: int
  d_error :: string
  d_dead_at :: time
  d_error_kind :: "error_kind option"
  d_root_job_id :: "id option"
  d_parent_job_id :: "id option"
  d_replayed_at :: "time option"
  d_replayed_as_job_id :: "id option"

record db =
  jobs :: "jobs_row list"
  job_attempts :: "attempts_row list"
  job_events :: "events_row list"
  job_results :: "(id \<times> json) list"
  workers :: "workers_row list"
  audit_results :: "audit_results_row list"
  audit_relationships :: "audit_relationships_row list"
  dlq :: "dlq_row list"
  event_seq :: int
  dlq_seq :: int

definition empty_db :: db where
  "empty_db = \<lparr>jobs = [], job_attempts = [], job_events = [], job_results = [], workers = [],
     audit_results = [], audit_relationships = [], dlq = [], event_seq = 1, dlq_seq = 1\<rparr>"

text \<open>
  The result of an operation that runs in a transaction: an error, after which the
  transaction is rolled back and the database is as before, or a value and the committed
  database.
\<close>

type_synonym 'a tx = "job_error + 'a \<times> db"

section \<open>SQL helpers\<close>

definition coalesce :: "string option \<Rightarrow> string" where
  "coalesce x = (case x of None \<Rightarrow> [] | Some s \<Rightarrow> s)"

definition nullif_empty :: "string \<Rightarrow> string option" where
  "nullif_empty s = (if s = [] then None else Some s)"

definition firstNonEmpty :: "string list \<Rightarrow> string" where
  "firstNonEmpty xs = (case find (\<lambda>s. s \<noteq> []) xs of None \<Rightarrow> [] | Some s \<Rightarrow> s)"

text \<open>The column list \<^verbatim>\<open>serviceJobColumns\<close> scanned into a \<^verbatim>\<open>job.Job\<close>.\<close>

definition scanServiceJob :: "jobs_row \<Rightarrow> job" where
  "scanServiceJob r =
     \<lparr>ID = r_id r, Type = r_type r, Payload = r_payload r, Status = r_status r,
      Attempts = r_attempts r, MaxAttempts = r_max_attempts r, ScheduledAt = r_scheduled_at r,
      RootJobID = r_root_job_id r, ParentJobID = coalesce (r_parent_job_id r),
      Internal = r_internal r, IdempotencyKey = coalesce (r_idempotency_key r),
      RequestHash = coalesce (r_request_hash r), LockedBy = coalesce (r_locked_by r),
      LeaseToken = coalesce (r_lease_token r), LockedUntil = r_locked_until r,
      HeartbeatAt = r_heartbeat_at r, CancelRequestedAt = r_cancel_requested_at r,
      LastErrorKind = r_last_error_kind r, LastError = coalesce (r_last_error r),
      CreatedAt = r_created_at r, StartedAt = r_started_at r, CompletedAt = r_completed_at r,
      RetriedFromJobID = coalesce (r_retried_from_job_id r),
      ReplayedFromJobID = coalesce (r_replayed_from_job_id r)\<rparr>"

definition find_job :: "id \<Rightarrow> db \<Rightarrow> jobs_row option" where
  "find_job i d = find (\<lambda>r. r_id r = i) (jobs d)"

definition job_exists :: "id \<Rightarrow> db \<Rightarrow> bool" where
  "job_exists i d \<longleftrightarrow> (\<exists>r \<in> set (jobs d). r_id r = i)"

text \<open>A row inserted with \<^verbatim>\<open>status = pending\<close>, no attempts and the column defaults.\<close>

definition new_row :: "time \<Rightarrow> id \<Rightarrow> string \<Rightarrow> raw_message \<Rightarrow> int \<Rightarrow> id \<Rightarrow> jobs_row" where
  "new_row now i t p n root =
     \<lparr>r_id = i, r_type = t, r_payload = p, r_status = StatusPending, r_attempts = 0,
      r_max_attempts = n, r_scheduled_at = now, r_root_job_id = root, r_parent_job_id = None,
      r_internal = False, r_idempotency_key = None, r_request_hash = None, r_locked_by = None,
      r_lease_token = None, r_locked_until = None, r_heartbeat_at = None,
      r_cancel_requested_at = None, r_last_error_kind = None, r_last_error = None,
      r_created_at = now, r_started_at = None, r_completed_at = None,
      r_retried_from_job_id = None, r_replayed_from_job_id = None\<rparr>"

text \<open>
  \<^verbatim>\<open>INSERT INTO jobs ... ON CONFLICT (idempotency_key) WHERE idempotency_key IS NOT
  NULL DO NOTHING\<close>: the flag is \<^verbatim>\<open>RowsAffected() == 1\<close>. A row whose key is
  NULL conflicts with nothing; an existing primary key is an error.
\<close>

definition insert_job :: "jobs_row \<Rightarrow> db \<Rightarrow> bool tx" where
  "insert_job r d =
     (if r_idempotency_key r \<noteq> None \<and> (\<exists>x \<in> set (jobs d). r_idempotency_key x = r_idempotency_key r)
      then Inr (False, d)
      else if job_exists (r_id r) d then Inl ErrUniqueViolation
      else Inr (True, d\<lparr>jobs := jobs d @ [r]\<rparr>))"

definition update_jobs :: "(jobs_row \<Rightarrow> bool) \<Rightarrow> (jobs_row \<Rightarrow> jobs_row) \<Rightarrow> db \<Rightarrow> db" where
  "update_jobs p f d = d\<lparr>jobs := upd_where p f (jobs d)\<rparr>"

definition insert_event ::
  "time \<Rightarrow> id \<Rightarrow> string \<Rightarrow> int option \<Rightarrow> string option \<Rightarrow> json \<Rightarrow> db \<Rightarrow> db" where
  "insert_event now i t att w details d =
     d\<lparr>job_events := job_events d @ [\<lparr>e_id = event_seq d, e_job_id = i, e_event_type = t,
          e_attempt = att, e_worker_id = w, e_details = details, e_occurred_at = now\<rparr>],
       event_seq := event_seq d + 1\<rparr>"

definition insert_dlq ::
  "time \<Rightarrow> id \<Rightarrow> string \<Rightarrow> raw_message \<Rightarrow> int \<Rightarrow> string \<Rightarrow> error_kind option \<Rightarrow> id option \<Rightarrow>
   id option \<Rightarrow> db \<Rightarrow> db" where
  "insert_dlq now i t p n err kind root parent d =
     d\<lparr>dlq := dlq d @ [\<lparr>d_id = dlq_seq d, d_job_id = i, d_job_type = t, d_payload = p,
          d_attempts = n, d_error = err, d_dead_at = now, d_error_kind = kind,
          d_root_job_id = root, d_parent_job_id = parent, d_replayed_at = None,
          d_replayed_as_job_id = None\<rparr>],
       dlq_seq := dlq_seq d + 1\<rparr>"

text \<open>\<^verbatim>\<open>INSERT INTO job_results ... ON CONFLICT (job_id) DO NOTHING\<close>.\<close>

definition insert_result :: "id \<Rightarrow> json \<Rightarrow> db \<Rightarrow> db" where
  "insert_result i v d =
     (if i \<in> fst ` set (job_results d) then d else d\<lparr>job_results := job_results d @ [(i, v)]\<rparr>)"

section \<open>Facts\<close>

interpretation jobs_table: keyed_table r_id .

interpretation attempts_table: keyed_table "\<lambda>a. (a_job_id a, a_attempt a)" .

interpretation dlq_table: keyed_table d_job_id .

lemma find_job_SomeD: "find_job i d = Some r \<Longrightarrow> r \<in> set (jobs d) \<and> r_id r = i"
  unfolding find_job_def by (rule find_SomeD)

lemma find_job_None: "find_job i d = None \<longleftrightarrow> \<not> job_exists i d"
  by (auto simp: find_job_def job_exists_def find_None_iff')

lemma find_job_keyed:
  "jobs_table.keyed (jobs d) \<Longrightarrow> r \<in> set (jobs d) \<Longrightarrow> find_job (r_id r) d = Some r"
  unfolding find_job_def by (rule jobs_table.keyed_find)

lemma insert_job_cases:
  assumes "insert_job r d = Inr (b, d')"
  obtains "b" "d' = d\<lparr>jobs := jobs d @ [r]\<rparr>" "\<not> job_exists (r_id r) d"
      "r_idempotency_key r = None \<or> (\<forall>x \<in> set (jobs d). r_idempotency_key x \<noteq> r_idempotency_key r)"
    | "\<not> b" "d' = d" "r_idempotency_key r \<noteq> None"
      "\<exists>x \<in> set (jobs d). r_idempotency_key x = r_idempotency_key r"
  using assms by (auto simp: insert_job_def split: if_splits)

lemma update_jobs_simps [sql_simps, simp]:
  "jobs (update_jobs p f d) = upd_where p f (jobs d)"
  "job_attempts (update_jobs p f d) = job_attempts d"
  "job_events (update_jobs p f d) = job_events d"
  "job_results (update_jobs p f d) = job_results d"
  "workers (update_jobs p f d) = workers d"
  "audit_results (update_jobs p f d) = audit_results d"
  "audit_relationships (update_jobs p f d) = audit_relationships d"
  "dlq (update_jobs p f d) = dlq d"
  "dlq_seq (update_jobs p f d) = dlq_seq d"
  by (simp_all add: update_jobs_def)

lemma insert_event_simps [sql_simps, simp]:
  "jobs (insert_event now i t att w v d) = jobs d"
  "job_attempts (insert_event now i t att w v d) = job_attempts d"
  "job_results (insert_event now i t att w v d) = job_results d"
  "workers (insert_event now i t att w v d) = workers d"
  "audit_results (insert_event now i t att w v d) = audit_results d"
  "audit_relationships (insert_event now i t att w v d) = audit_relationships d"
  "dlq (insert_event now i t att w v d) = dlq d"
  "dlq_seq (insert_event now i t att w v d) = dlq_seq d"
  by (simp_all add: insert_event_def)

lemma insert_dlq_simps [sql_simps, simp]:
  "jobs (insert_dlq now i t p n err kind root parent d) = jobs d"
  "job_attempts (insert_dlq now i t p n err kind root parent d) = job_attempts d"
  "job_events (insert_dlq now i t p n err kind root parent d) = job_events d"
  "job_results (insert_dlq now i t p n err kind root parent d) = job_results d"
  "audit_results (insert_dlq now i t p n err kind root parent d) = audit_results d"
  "audit_relationships (insert_dlq now i t p n err kind root parent d) = audit_relationships d"
  "map d_job_id (dlq (insert_dlq now i t p n err kind root parent d)) = map d_job_id (dlq d) @ [i]"
  by (simp_all add: insert_dlq_def)

lemma insert_result_simps [sql_simps, simp]:
  "jobs (insert_result i v d) = jobs d"
  "job_attempts (insert_result i v d) = job_attempts d"
  "job_events (insert_result i v d) = job_events d"
  "audit_results (insert_result i v d) = audit_results d"
  "audit_relationships (insert_result i v d) = audit_relationships d"
  "dlq (insert_result i v d) = dlq d"
  "dlq_seq (insert_result i v d) = dlq_seq d"
  by (simp_all add: insert_result_def)

lemma find_job_frame [sql_simps, simp]:
  "find_job j (insert_event now i t att w v d) = find_job j d"
  "find_job j (insert_dlq now i t p n err kind root parent d) = find_job j d"
  "find_job j (insert_result i v' d) = find_job j d"
  by (simp_all add: find_job_def)

lemma scanServiceJob_simps [simp]:
  "ID (scanServiceJob r) = r_id r" "Type (scanServiceJob r) = r_type r"
  "Payload (scanServiceJob r) = r_payload r" "Status (scanServiceJob r) = r_status r"
  "Attempts (scanServiceJob r) = r_attempts r" "MaxAttempts (scanServiceJob r) = r_max_attempts r"
  "RootJobID (scanServiceJob r) = r_root_job_id r" "Internal (scanServiceJob r) = r_internal r"
  "ParentJobID (scanServiceJob r) = coalesce (r_parent_job_id r)"
  "LockedBy (scanServiceJob r) = coalesce (r_locked_by r)"
  "LeaseToken (scanServiceJob r) = coalesce (r_lease_token r)"
  "CancelRequestedAt (scanServiceJob r) = r_cancel_requested_at r"
  "RequestHash (scanServiceJob r) = coalesce (r_request_hash r)"
  "ScheduledAt (scanServiceJob r) = r_scheduled_at r"
  by (simp_all add: scanServiceJob_def)

lemma coalesce_simps [simp]: "coalesce None = []" "coalesce (Some s) = s"
  by (simp_all add: coalesce_def)

end
