(* ===== verification/Store_Ops.thy ===== *)
theory Store_Ops
  imports Store_Db
begin

text \<open>
  The job service of \<^verbatim>\<open>internal/store/postgres/service.go\<close>, one definition per
  operation. Arguments that are not in the Go signatures: \<open>now\<close> is \<^verbatim>\<open>NOW()\<close>; the
  identifiers \<^verbatim>\<open>job.NewJobID()\<close> draws are passed in; \<open>H\<close> is the hex SHA-256 of the
  formatted type, attempt limit and payload. A transaction runs alone: the
  interleavings of the row-locking statements are those of a serial order.
\<close>

type_synonym hash = "string \<Rightarrow> int \<Rightarrow> raw_message \<Rightarrow> string"

section \<open>Submission\<close>

definition submissionHash :: "hash \<Rightarrow> submission \<Rightarrow> string" where
  "submissionHash H v =
     (if sRequestHash v \<noteq> [] then sRequestHash v else H (sType v) (sMaxAttempts v) (sPayload v))"

definition with_default_attempts :: "submission \<Rightarrow> submission" where
  "with_default_attempts v =
     (if sMaxAttempts v = 0 then v\<lparr>sMaxAttempts := DefaultMaxAttempts\<rparr> else v)"

text \<open>The row a submission inserts; a submission that names no root is its own.\<close>

definition submit_row :: "hash \<Rightarrow> time \<Rightarrow> id \<Rightarrow> submission \<Rightarrow> jobs_row" where
  "submit_row H now i input =
     (new_row now i (sType input) (sPayload input) (sMaxAttempts input)
        (if sRootJobID input = [] then i else sRootJobID input))
       \<lparr>r_parent_job_id := nullif_empty (sParentJobID input), r_internal := sInternal input,
        r_idempotency_key := nullif_empty (sIdempotencyKey input),
        r_request_hash := Some (submissionHash H input),
        r_retried_from_job_id := nullif_empty (sRetriedFromJobID input),
        r_replayed_from_job_id := nullif_empty (sReplayedFromJobID input)\<rparr>"

definition Submit :: "hash \<Rightarrow> time \<Rightarrow> id \<Rightarrow> submission \<Rightarrow> db \<Rightarrow> (job \<times> bool) tx" where
  "Submit H now i input0 d =
     (let input = with_default_attempts input0;
          requestHash = submissionHash H input
      in case insert_job (submit_row H now i input) d of
           Inl e \<Rightarrow> Inl e
         | Inr (created, d1) \<Rightarrow>
             if \<not> created then
               (case find (\<lambda>r. r_idempotency_key r = Some (sIdempotencyKey input)) (jobs d1) of
                  None \<Rightarrow> Inl ErrNoRows
                | Some existing \<Rightarrow>
                    if coalesce (r_request_hash existing) \<noteq> requestHash then Inl ErrIdempotencyConflict
                    else Inr ((scanServiceJob existing, False), d1))
             else
               (let d2 = insert_event now i ''submitted'' None None (JObj []) d1
                in case find_job i d2 of
                     None \<Rightarrow> Inl ErrNoRows
                   | Some r \<Rightarrow> Inr ((scanServiceJob r, True), d2)))"

section \<open>Reading\<close>

record update_result =
  u_job_id :: id
  u_ecosystem :: string
  u_name :: string
  u_current_version :: string
  u_latest_version :: string
  u_staleness :: string

record detail =
  det_job :: job
  det_attempts :: "attempts_row list"
  det_events :: "events_row list"
  det_result :: raw_message
  det_child_counts :: "status \<Rightarrow> nat option"
  det_audit_results :: "audit_results_row list"
  det_audit_relationships :: "audit_relationships_row list"
  det_update_results :: "update_result list"

text \<open>\<^verbatim>\<open>SELECT status, COUNT(*) ... GROUP BY status\<close>: no entry for a status without rows.\<close>

definition group_counts :: "jobs_row list \<Rightarrow> status \<Rightarrow> nat option" where
  "group_counts t s =
     (let n = count_where (\<lambda>r. r_status r = s) t in if n = 0 then None else Some n)"

definition decode_update_result :: "id \<Rightarrow> json \<Rightarrow> update_result option" where
  "decode_update_result i v =
     (case unmarshal_strings [''jobId'', ''ecosystem'', ''name'', ''currentVersion'', ''latestVersion'',
             ''staleness''] (Some v) of
        None \<Rightarrow> None
      | Some f \<Rightarrow> Some \<lparr>u_job_id = i, u_ecosystem = f ''ecosystem'', u_name = f ''name'',
          u_current_version = f ''currentVersion'', u_latest_version = f ''latestVersion'',
          u_staleness = f ''staleness''\<rparr>)"

text \<open>Stops at the first row that does not decode, as the scan loop does.\<close>

fun decode_all :: "(id \<times> json) list \<Rightarrow> update_result list option" where
  "decode_all [] = Some []"
| "decode_all ((i, v) # rest) =
     (case decode_update_result i v of
        None \<Rightarrow> None
      | Some u \<Rightarrow> (case decode_all rest of None \<Rightarrow> None | Some us \<Rightarrow> Some (u # us)))"

text \<open>The completed children of an update scan joined with their results, by id.\<close>

definition update_rows :: "id \<Rightarrow> db \<Rightarrow> (id \<times> json) list" where
  "update_rows root d =
     concat (map (\<lambda>r. map (\<lambda>(i, v). (r_id r, v)) (filter (\<lambda>(i, v). i = r_id r) (job_results d)))
       (sort_key r_id (filter (\<lambda>r. r_root_job_id r = root \<and> r_parent_job_id r = Some root
          \<and> r_type r = ''package_update_check'' \<and> r_internal r \<and> r_status r = StatusCompleted)
        (jobs d))))"

definition Get :: "id \<Rightarrow> db \<Rightarrow> job_error + detail" where
  "Get i d =
     (case find_job i d of
        None \<Rightarrow> Inl ErrNotFound
      | Some r \<Rightarrow>
          let v = scanServiceJob r;
              root = RootJobID v;
              updates = (if Type v = ''dependency_update_scan'' \<and> ID v = RootJobID v
                         then decode_all (update_rows (ID v) d) else Some [])
          in case updates of
               None \<Rightarrow> Inl ErrDecode
             | Some us \<Rightarrow> Inr
                 \<lparr>det_job = v,
                  det_attempts = sort_key a_attempt (filter (\<lambda>a. a_job_id a = i) (job_attempts d)),
                  det_events = sort_key (\<lambda>e. (e_occurred_at e, e_id e)) (filter (\<lambda>e. e_job_id e = i) (job_events d)),
                  det_result = map_of (job_results d) i,
                  det_child_counts = group_counts (filter (\<lambda>x. r_root_job_id x = root \<and> r_id x \<noteq> root) (jobs d)),
                  det_audit_results = sort_key (\<lambda>a. (ar_package_name a, ar_package_version a,
                      ar_parent_name a = None, coalesce (ar_parent_name a)))
                      (filter (\<lambda>a. ar_root_job_id a = root) (audit_results d)),
                  det_audit_relationships = sort_key (\<lambda>a. (rel_ecosystem a, rel_parent_name a, rel_child_name a))
                      (filter (\<lambda>a. rel_root_job_id a = root) (audit_relationships d)),
                  det_update_results = us\<rparr>)"

definition Counts :: "db \<Rightarrow> status \<Rightarrow> nat option" where
  "Counts d = group_counts (filter (\<lambda>r. \<not> r_internal r) (jobs d))"

section \<open>Workers\<close>

definition RegisterWorker :: "time \<Rightarrow> string \<Rightarrow> db \<Rightarrow> db" where
  "RegisterWorker now i d =
     (if \<exists>w \<in> set (workers d). w_id w = i
      then d\<lparr>workers := upd_where (\<lambda>w. w_id w = i) (\<lambda>w. w\<lparr>w_started_at := now, w_heartbeat_at := now\<rparr>) (workers d)\<rparr>
      else d\<lparr>workers := workers d @ [\<lparr>w_id = i, w_started_at = now, w_heartbeat_at = now\<rparr>]\<rparr>)"

definition WorkerHeartbeat :: "time \<Rightarrow> string \<Rightarrow> db \<Rightarrow> db" where
  "WorkerHeartbeat now i d =
     d\<lparr>workers := upd_where (\<lambda>w. w_id w = i) (\<lambda>w. w\<lparr>w_heartbeat_at := now\<rparr>) (workers d)\<rparr>"

section \<open>Claiming and leases\<close>

definition claimable :: "time \<Rightarrow> jobs_row \<Rightarrow> bool" where
  "claimable now r \<longleftrightarrow> r_status r \<in> {StatusPending, StatusRetryScheduled} \<and> r_scheduled_at r \<le> now"

text \<open>\<^verbatim>\<open>ORDER BY scheduled_at, created_at, id ... LIMIT 1\<close>.\<close>

definition claim_order :: "jobs_row \<Rightarrow> time \<times> time \<times> id" where
  "claim_order r = (r_scheduled_at r, r_created_at r, r_id r)"

definition next_claim :: "time \<Rightarrow> db \<Rightarrow> jobs_row option" where
  "next_claim now d =
     (case sort_key claim_order (filter (claimable now) (jobs d)) of [] \<Rightarrow> None | r # _ \<Rightarrow> Some r)"

definition claim_row :: "time \<Rightarrow> time \<Rightarrow> string \<Rightarrow> string \<Rightarrow> jobs_row \<Rightarrow> jobs_row" where
  "claim_row now lease worker token r =
     r\<lparr>r_status := StatusRunning, r_attempts := r_attempts r + 1,
       r_started_at := (case r_started_at r of None \<Rightarrow> Some now | Some t \<Rightarrow> Some t),
       r_locked_by := Some worker, r_lease_token := Some token,
       r_locked_until := Some (now + lease), r_heartbeat_at := Some now\<rparr>"

definition Claim :: "time \<Rightarrow> string \<Rightarrow> string \<Rightarrow> time \<Rightarrow> db \<Rightarrow> job option tx" where
  "Claim now token worker lease d =
     (case next_claim now d of
        None \<Rightarrow> Inr (None, d)
      | Some r \<Rightarrow>
          let r' = claim_row now lease worker token r;
              v = scanServiceJob r';
              d1 = update_jobs (\<lambda>x. r_id x = r_id r) (claim_row now lease worker token) d
          in if \<exists>a \<in> set (job_attempts d1). a_job_id a = ID v \<and> a_attempt a = Attempts v
             then Inl ErrUniqueViolation
             else
               let d2 = d1\<lparr>job_attempts := job_attempts d1 @
                          [\<lparr>a_job_id = ID v, a_attempt = Attempts v, a_worker_id = worker,
                            a_lease_token = token, a_status = ''running'', a_started_at = now,
                            a_finished_at = None, a_error_kind = None, a_error = None\<rparr>]\<rparr>;
                   d3 = insert_event now (ID v) ''started'' (Some (Attempts v)) (Some worker) (JObj []) d2
               in Inr (Some v, d3))"

text \<open>The fencing predicate of every write a worker makes to a job it claimed.\<close>

definition owns :: "job \<Rightarrow> jobs_row \<Rightarrow> bool" where
  "owns v r \<longleftrightarrow> r_id r = ID v \<and> r_status r = StatusRunning
     \<and> r_locked_by r = Some (LockedBy v) \<and> r_lease_token r = Some (LeaseToken v)"

definition Heartbeat :: "time \<Rightarrow> job \<Rightarrow> time \<Rightarrow> db \<Rightarrow> bool \<times> db" where
  "Heartbeat now v lease d =
     (let p = (\<lambda>r. owns v r \<and> r_cancel_requested_at r = None)
      in (count_where p (jobs d) = 1,
          update_jobs p (\<lambda>r. r\<lparr>r_locked_until := Some (now + lease), r_heartbeat_at := Some now\<rparr>) d))"

section \<open>Completion\<close>

definition release_row :: "jobs_row \<Rightarrow> jobs_row" where
  "release_row r = r\<lparr>r_locked_by := None, r_lease_token := None, r_locked_until := None,
     r_heartbeat_at := None\<rparr>"

definition complete_row :: "time \<Rightarrow> status \<Rightarrow> jobs_row \<Rightarrow> jobs_row" where
  "complete_row now st r = (release_row r)\<lparr>r_status := st,
     r_completed_at := (if st = StatusCompleted then Some now else None)\<rparr>"

text \<open>\<^verbatim>\<open>UPDATE job_attempts ... WHERE job_id AND attempt AND lease_token\<close>.\<close>

definition complete_attempt :: "time \<Rightarrow> job \<Rightarrow> db \<Rightarrow> db" where
  "complete_attempt now v d =
     d\<lparr>job_attempts := upd_where
        (\<lambda>a. a_job_id a = ID v \<and> a_attempt a = Attempts v \<and> a_lease_token a = LeaseToken v)
        (\<lambda>a. a\<lparr>a_status := ''completed'', a_finished_at := Some now\<rparr>) (job_attempts d)\<rparr>"

definition finish_attempt :: "time \<Rightarrow> job \<Rightarrow> string \<Rightarrow> error_kind option \<Rightarrow> string option \<Rightarrow> db \<Rightarrow> db" where
  "finish_attempt now v st kind msg d =
     d\<lparr>job_attempts := upd_where
        (\<lambda>a. a_job_id a = ID v \<and> a_attempt a = Attempts v \<and> a_lease_token a = LeaseToken v)
        (\<lambda>a. a\<lparr>a_status := st, a_finished_at := Some now, a_error_kind := kind, a_error := msg\<rparr>)
        (job_attempts d)\<rparr>"

definition child_row :: "hash \<Rightarrow> time \<Rightarrow> id \<Rightarrow> submission \<Rightarrow> jobs_row" where
  "child_row H now i input =
     (new_row now i (sType input) (sPayload input) (sMaxAttempts input) (sRootJobID input))
       \<lparr>r_parent_job_id := Some (sParentJobID input), r_internal := sInternal input,
        r_idempotency_key := Some (sIdempotencyKey input),
        r_request_hash := Some (submissionHash H input)\<rparr>"

definition insertSubmission :: "hash \<Rightarrow> time \<Rightarrow> id \<Rightarrow> submission \<Rightarrow> db \<Rightarrow> unit tx" where
  "insertSubmission H now i input d =
     (case insert_job (child_row H now i (with_default_attempts input)) d of
        Inl e \<Rightarrow> Inl e
      | Inr (_, d1) \<Rightarrow> Inr ((), d1))"

definition relationship_ecosystem :: "string \<Rightarrow> string" where
  "relationship_ecosystem t = TrimSuffix (TrimSuffix (TrimPrefix t ''audit_'') ''_package'') ''_module''"

definition insertAuditRelationship :: "submission \<Rightarrow> db \<Rightarrow> unit tx" where
  "insertAuditRelationship child d =
     (let ecosystem = relationship_ecosystem (sType child)
      in if ecosystem \<notin> {''npm'', ''pypi'', ''go''} then Inr ((), d)
         else case unmarshal_strings [''name'', ''version'', ''parent_name'', ''parent_version'',
                     ''parentName'', ''parentVersion''] (sPayload child) of
             None \<Rightarrow> Inr ((), d)
           | Some f \<Rightarrow>
               let parentName = firstNonEmpty [f ''parent_name'', f ''parentName''];
                   parentVersion = firstNonEmpty [f ''parent_version'', f ''parentVersion''];
                   row = \<lparr>rel_root_job_id = sRootJobID child, rel_ecosystem = ecosystem,
                          rel_parent_name = parentName, rel_parent_version = parentVersion,
                          rel_child_name = f ''name'', rel_child_version = f ''version''\<rparr>
               in if parentName = [] then Inr ((), d)
                  else if row \<in> set (audit_relationships d) then Inr ((), d)
                  else if \<not> job_exists (sRootJobID child) d then Inl ErrForeignKey
                  else Inr ((), d\<lparr>audit_relationships := audit_relationships d @ [row]\<rparr>))"

text \<open>The children of a result, each placed under the completing job and its root.\<close>

definition adopt :: "job \<Rightarrow> submission \<Rightarrow> submission" where
  "adopt v child = child\<lparr>sRootJobID := RootJobID v, sParentJobID := ID v, sInternal := True\<rparr>"

fun insert_children :: "hash \<Rightarrow> time \<Rightarrow> (nat \<Rightarrow> id) \<Rightarrow> nat \<Rightarrow> job \<Rightarrow> submission list \<Rightarrow> db \<Rightarrow> unit tx" where
  "insert_children H now newid n v [] d = Inr ((), d)"
| "insert_children H now newid n v (c # cs) d =
     (case insertAuditRelationship (adopt v c) d of
        Inl e \<Rightarrow> Inl e
      | Inr (_, d1) \<Rightarrow>
          (case insertSubmission H now (newid n) (adopt v c) d1 of
             Inl e \<Rightarrow> Inl e
           | Inr (_, d2) \<Rightarrow> insert_children H now newid (Suc n) v cs d2))"

text \<open>The key of the unique index over \<^verbatim>\<open>audit_results\<close>.\<close>

definition audit_key :: "audit_results_row \<Rightarrow> string list" where
  "audit_key a = [ar_root_job_id a, ar_ecosystem a, ar_package_name a, ar_package_version a,
     coalesce (ar_parent_name a), coalesce (ar_parent_version a)]"

definition insert_audit_result :: "job \<Rightarrow> raw_message \<Rightarrow> db \<Rightarrow> unit tx" where
  "insert_audit_result v res d =
     (if \<not> (HasPrefix (Type v) ''audit_'' \<and> res \<noteq> None) then Inr ((), d)
      else case unmarshal_strings [''Ecosystem'', ''Name'', ''Version'', ''License'', ''Verdict'',
                  ''ParentName'', ''ParentVersion''] res of
          None \<Rightarrow> Inr ((), d)
        | Some f \<Rightarrow>
            let row = \<lparr>ar_root_job_id = RootJobID v, ar_ecosystem = f ''Ecosystem'',
                       ar_package_name = f ''Name'', ar_package_version = f ''Version'',
                       ar_license = f ''License'', ar_verdict = f ''Verdict'',
                       ar_parent_name = nullif_empty (f ''ParentName''),
                       ar_parent_version = nullif_empty (f ''ParentVersion'')\<rparr>
            in if \<exists>a \<in> set (audit_results d). audit_key a = audit_key row then Inr ((), d)
               else if \<not> job_exists (RootJobID v) d then Inl ErrForeignKey
               else Inr ((), d\<lparr>audit_results := audit_results d @ [row]\<rparr>))"

section \<open>Finalizing a root\<close>

definition is_active :: "status \<Rightarrow> bool" where
  "is_active s \<longleftrightarrow> s \<in> {StatusPending, StatusRunning, StatusRetryScheduled, StatusWaiting}"

definition descendant :: "id \<Rightarrow> jobs_row \<Rightarrow> bool" where
  "descendant root r \<longleftrightarrow> r_root_job_id r = root \<and> r_id r \<noteq> root"

definition root_outcome :: "id \<Rightarrow> db \<Rightarrow> status" where
  "root_outcome root d =
     (let failed = count_where (\<lambda>r. descendant root r \<and>
            r_status r \<in> {StatusFailed, StatusDeadLettered, StatusCancelled}) (jobs d);
          dead = count_where (\<lambda>r. descendant root r \<and> r_status r = StatusDeadLettered) (jobs d)
      in if dead > 0 then StatusDeadLettered else if failed > 0 then StatusFailed else StatusCompleted)"

definition audit_summary :: "id \<Rightarrow> db \<Rightarrow> json" where
  "audit_summary root d =
     (let packages = count_where (\<lambda>a. ar_root_job_id a = root) (audit_results d);
          violations = count_where (\<lambda>a. ar_root_job_id a = root \<and> ar_verdict a = ''policy_violation'') (audit_results d);
          failed = count_where (\<lambda>r. descendant root r \<and>
            r_status r \<in> {StatusFailed, StatusDeadLettered, StatusCancelled}) (jobs d)
      in JObj [(''auditId'', JStr root), (''packages'', json_int (int packages)),
               (''violations'', json_int (int violations)), (''failedChildren'', json_int (int failed))])"

definition finalize_row :: "time \<Rightarrow> status \<Rightarrow> string \<Rightarrow> jobs_row \<Rightarrow> jobs_row" where
  "finalize_row now st msg r = r\<lparr>r_status := st, r_completed_at := Some now,
     r_last_error := (if st \<noteq> StatusCompleted then Some msg else None),
     r_last_error_kind := (if st = StatusDeadLettered then Some ErrorTransient
                           else if st = StatusFailed then Some ErrorPermanent else None)\<rparr>"

text \<open>The statements that move a waiting root \<open>r\<close>, whose outcome is \<open>st\<close>, and record it.\<close>

definition finalize_writes :: "time \<Rightarrow> jobs_row \<Rightarrow> status \<Rightarrow> db \<Rightarrow> db" where
  "finalize_writes now r st d =
     (let root = r_id r;
          update = (r_type r = ''dependency_update_scan'');
          result = audit_summary root d;
          failureMessage = (if update then ''one or more update checks failed''
                            else ''one or more audit tasks failed'');
          exhaustedMessage = (if update then ''one or more update checks exhausted retries''
                              else ''one or more audit tasks exhausted retries'');
          d1 = update_jobs (\<lambda>x. r_id x = root \<and> r_status x = StatusWaiting)
                 (finalize_row now st failureMessage) d;
          d2 = (if st = StatusCompleted \<and> \<not> update then insert_result root result d1 else d1);
          d3 = (if st = StatusDeadLettered
                then insert_dlq now (r_id r) (r_type r) (r_payload r) (r_attempts r)
                       exhaustedMessage (Some ErrorTransient) (Some (r_root_job_id r)) None d2
                else d2)
      in insert_event now root (status_text st) None None (JObj []) d3)"

definition finalizeRoot :: "time \<Rightarrow> id \<Rightarrow> db \<Rightarrow> unit tx" where
  "finalizeRoot now root d =
     (case find_job root d of
        None \<Rightarrow> Inl ErrNoRows
      | Some r \<Rightarrow>
          if count_where (\<lambda>x. descendant root x \<and> is_active (r_status x)) (jobs d) \<noteq> 0 then Inr ((), d)
          else if count_where (\<lambda>x. r_id x = root \<and> r_status x = StatusWaiting) (jobs d) = 0 then Inr ((), d)
          else Inr ((), finalize_writes now r (root_outcome root d) d))"

definition complete_status :: "job \<Rightarrow> handler_result \<Rightarrow> status" where
  "complete_status v res =
     (if Children res \<noteq> [] \<and> ID v = RootJobID v then StatusWaiting else StatusCompleted)"

definition store_result :: "job \<Rightarrow> status \<Rightarrow> raw_message \<Rightarrow> db \<Rightarrow> db" where
  "store_result v st res d =
     (case res of
        None \<Rightarrow> d
      | Some x \<Rightarrow> if x \<noteq> JNull \<and> (st = StatusCompleted \<or> Type v = ''dependency_update_scan'')
                  then insert_result (ID v) x d else d)"

definition Complete :: "hash \<Rightarrow> time \<Rightarrow> (nat \<Rightarrow> id) \<Rightarrow> job \<Rightarrow> handler_result \<Rightarrow> db \<Rightarrow> unit tx" where
  "Complete H now newid v res d =
     (let st = complete_status v res
      in if count_where (owns v) (jobs d) \<noteq> 1 then Inl ErrLeaseLost
         else
           let d1 = update_jobs (owns v) (complete_row now st) d;
               d2 = complete_attempt now v d1
           in case insert_children H now newid 0 v (Children res) d2 of
                Inl e \<Rightarrow> Inl e
              | Inr (_, d3) \<Rightarrow>
                  (case insert_audit_result v (Result res) (store_result v st (Result res) d3) of
                     Inl e \<Rightarrow> Inl e
                   | Inr (_, d4) \<Rightarrow>
                       let d5 = insert_event now (ID v) (status_text st) (Some (Attempts v))
                                  (Some (LockedBy v)) (JObj []) d4
                       in if st = StatusCompleted \<and> ID v \<noteq> RootJobID v
                          then finalizeRoot now (RootJobID v) d5 else Inr ((), d5)))"

section \<open>Failure\<close>

definition boundedError :: "string \<Rightarrow> string" where
  "boundedError msg = (if length msg > 2048 then take 2048 msg else msg)"

definition fail_status :: "job \<Rightarrow> error_kind \<Rightarrow> status" where
  "fail_status v kind =
     (case kind of
        ErrorCancelled \<Rightarrow> StatusCancelled
      | ErrorTransient \<Rightarrow> if Attempts v < MaxAttempts v then StatusRetryScheduled else StatusDeadLettered
      | ErrorPermanent \<Rightarrow> StatusFailed)"

definition fail_row :: "time \<Rightarrow> status \<Rightarrow> time \<Rightarrow> error_kind \<Rightarrow> string \<Rightarrow> jobs_row \<Rightarrow> jobs_row" where
  "fail_row now st retryAt kind msg r =
     (release_row r)\<lparr>r_status := st,
       r_scheduled_at := (if st = StatusRetryScheduled then retryAt else r_scheduled_at r),
       r_last_error_kind := Some kind, r_last_error := Some msg,
       r_completed_at := (if st \<noteq> StatusRetryScheduled then Some now else None)\<rparr>"

text \<open>The statements of a failure up to the finalization of the root.\<close>

definition fail_writes :: "time \<Rightarrow> job \<Rightarrow> error_kind \<Rightarrow> string \<Rightarrow> time \<Rightarrow> db \<Rightarrow> db" where
  "fail_writes now v kind msg retryAt d =
     (let st = fail_status v kind;
          d1 = update_jobs (owns v) (fail_row now st retryAt kind msg) d;
          d2 = finish_attempt now v (status_text st) (Some kind) (Some msg) d1;
          d3 = insert_event now (ID v) (status_text st) (Some (Attempts v)) (Some (LockedBy v))
                 (JObj [(''errorKind'', JStr (kind_text kind)), (''error'', JStr msg)]) d2
      in if st = StatusDeadLettered
         then insert_dlq now (ID v) (Type v) (Payload v) (Attempts v) msg (Some kind)
                (Some (RootJobID v)) (nullif_empty (ParentJobID v)) d3
         else d3)"

definition Fail :: "time \<Rightarrow> job \<Rightarrow> error_kind \<Rightarrow> string \<Rightarrow> time \<Rightarrow> db \<Rightarrow> unit tx" where
  "Fail now v kind message retryAt d =
     (let completed = (fail_status v kind \<noteq> StatusRetryScheduled)
      in if count_where (owns v) (jobs d) \<noteq> 1 then Inl ErrLeaseLost
         else
           let d4 = fail_writes now v kind (boundedError message) retryAt d
           in if completed \<and> ID v \<noteq> RootJobID v then finalizeRoot now (RootJobID v) d4 else Inr ((), d4))"

section \<open>Cancellation\<close>

definition cancel_row :: "time \<Rightarrow> jobs_row \<Rightarrow> jobs_row" where
  "cancel_row now r = r\<lparr>r_status := StatusCancelled, r_cancel_requested_at := Some now,
     r_completed_at := Some now\<rparr>"

definition request_cancel_row :: "time \<Rightarrow> jobs_row \<Rightarrow> jobs_row" where
  "request_cancel_row now r = r\<lparr>r_cancel_requested_at :=
     (case r_cancel_requested_at r of None \<Rightarrow> Some now | Some t \<Rightarrow> Some t)\<rparr>"

text \<open>Commits, with the event rows, and reads the job back.\<close>

definition cancel_commit :: "time \<Rightarrow> id \<Rightarrow> bool \<Rightarrow> db \<Rightarrow> job tx" where
  "cancel_commit now i cancelledNow d =
     (let d1 = insert_event now i ''cancellation_requested'' None None (JObj []) d;
          d2 = (if cancelledNow then insert_event now i ''cancelled'' None None (JObj []) d1 else d1)
      in case find_job i d2 of None \<Rightarrow> Inl ErrNoRows | Some r \<Rightarrow> Inr (scanServiceJob r, d2))"

definition Cancel :: "time \<Rightarrow> id \<Rightarrow> db \<Rightarrow> job tx" where
  "Cancel now i d =
     (case find_job i d of
        None \<Rightarrow> Inl ErrNotFound
      | Some v \<Rightarrow>
          (case r_status v of
             StatusPending \<Rightarrow> cancel_commit now i True (update_jobs (\<lambda>r. r_id r = i) (cancel_row now) d)
           | StatusRetryScheduled \<Rightarrow> cancel_commit now i True (update_jobs (\<lambda>r. r_id r = i) (cancel_row now) d)
           | StatusRunning \<Rightarrow> cancel_commit now i False (update_jobs (\<lambda>r. r_id r = i) (request_cancel_row now) d)
           | StatusWaiting \<Rightarrow>
               cancel_commit now i True
                 (update_jobs (\<lambda>r. r_root_job_id r = r_root_job_id v \<and> r_status r = StatusRunning)
                    (request_cancel_row now)
                   (update_jobs (\<lambda>r. r_root_job_id r = r_root_job_id v
                        \<and> r_status r \<in> {StatusPending, StatusRetryScheduled, StatusWaiting})
                      (cancel_row now) d))
           | StatusCancelled \<Rightarrow> Inr (scanServiceJob v, d)
           | _ \<Rightarrow> Inl ErrConflict))"

section \<open>Manual retry and replay\<close>

definition Retry :: "hash \<Rightarrow> time \<Rightarrow> id \<Rightarrow> id \<Rightarrow> int \<Rightarrow> db \<Rightarrow> job tx" where
  "Retry H now newid i maxAttempts d =
     (case Get i d of
        Inl e \<Rightarrow> Inl e
      | Inr det \<Rightarrow>
          let v = det_job det
          in if Status v \<noteq> StatusFailed \<and> Status v \<noteq> StatusDeadLettered then Inl ErrConflict
             else
               let n = (if maxAttempts = 0 then MaxAttempts v else maxAttempts)
               in case Submit H now newid
                         ((submission_of (Type v) (Payload v) n)\<lparr>sRetriedFromJobID := ID v\<rparr>) d of
                    Inl e \<Rightarrow> Inl e
                  | Inr ((w, _), d') \<Rightarrow> Inr (w, d'))"

text \<open>The entry of a public job, as the join with \<^verbatim>\<open>jobs\<close> selects it.\<close>

definition find_dlq :: "int \<Rightarrow> db \<Rightarrow> dlq_row option" where
  "find_dlq e d = find (\<lambda>x. d_id x = e \<and> (\<exists>r \<in> set (jobs d). r_id r = d_job_id x \<and> \<not> r_internal r)) (dlq d)"

definition replay_row :: "time \<Rightarrow> id \<Rightarrow> int \<Rightarrow> dlq_row \<Rightarrow> jobs_row" where
  "replay_row now newid n source =
     (new_row now newid (d_job_type source) (d_payload source) n newid)
       \<lparr>r_replayed_from_job_id := Some (d_job_id source)\<rparr>"

definition ReplayDLQ :: "time \<Rightarrow> id \<Rightarrow> int \<Rightarrow> int \<Rightarrow> db \<Rightarrow> job tx" where
  "ReplayDLQ now newid entryID maxAttempts d =
     (case find_dlq entryID d of
        None \<Rightarrow> Inl ErrNotFound
      | Some source \<Rightarrow>
          if coalesce (d_replayed_as_job_id source) \<noteq> [] then Inl ErrConflict
          else
            let n = (if maxAttempts = 0 then DefaultMaxAttempts else maxAttempts)
            in case insert_job (replay_row now newid n source) d of
                 Inl e \<Rightarrow> Inl e
               | Inr (_, d1) \<Rightarrow>
                   let d2 = d1\<lparr>dlq := upd_where (\<lambda>x. d_id x = entryID)
                               (\<lambda>x. x\<lparr>d_replayed_at := Some now, d_replayed_as_job_id := Some newid\<rparr>) (dlq d1)\<rparr>;
                       d3 = insert_event now newid ''submitted'' None None (JObj []) d2;
                       d4 = insert_event now newid ''replayed'' None None
                              (JObj [(''sourceJobId'', JStr (d_job_id source))]) d3
                   in case find_job newid d4 of
                        None \<Rightarrow> Inl ErrNoRows
                      | Some r \<Rightarrow> Inr (scanServiceJob r, d4))"

section \<open>Expired leases\<close>

definition expired :: "time \<Rightarrow> jobs_row \<Rightarrow> bool" where
  "expired now r \<longleftrightarrow> r_status r = StatusRunning
     \<and> (case r_locked_until r of None \<Rightarrow> False | Some t \<Rightarrow> t < now)"

definition reclaim_status :: "job \<Rightarrow> status" where
  "reclaim_status v =
     (let st = (if CancelRequestedAt v \<noteq> None then StatusCancelled else StatusPending)
      in if Attempts v \<ge> MaxAttempts v \<and> st \<noteq> StatusCancelled then StatusDeadLettered else st)"

definition reclaim_row :: "time \<Rightarrow> status \<Rightarrow> jobs_row \<Rightarrow> jobs_row" where
  "reclaim_row now st r = (release_row r)\<lparr>r_status := st, r_last_error_kind := Some ErrorTransient,
     r_last_error := Some ''worker lease expired'',
     r_completed_at := (if st \<in> {StatusCancelled, StatusDeadLettered} then Some now else None)\<rparr>"

definition abandon_attempt :: "time \<Rightarrow> job \<Rightarrow> db \<Rightarrow> db" where
  "abandon_attempt now v d =
     d\<lparr>job_attempts := upd_where (\<lambda>a. a_job_id a = ID v \<and> a_attempt a = Attempts v)
        (\<lambda>a. a\<lparr>a_status := ''abandoned'', a_finished_at := Some now,
               a_error_kind := Some ErrorTransient, a_error := Some ''worker lease expired''\<rparr>)
        (job_attempts d)\<rparr>"

definition reclaim_writes :: "time \<Rightarrow> job \<Rightarrow> db \<Rightarrow> db" where
  "reclaim_writes now v d =
     (let st = reclaim_status v;
          d1 = update_jobs (\<lambda>r. r_id r = ID v) (reclaim_row now st) d;
          d2 = abandon_attempt now v d1;
          d3 = insert_event now (ID v) ''lease_expired'' (Some (Attempts v)) (Some (LockedBy v)) (JObj []) d2
      in if st = StatusDeadLettered
         then insert_dlq now (ID v) (Type v) (Payload v) (Attempts v) ''worker lease expired''
                (Some ErrorTransient) (Some (RootJobID v)) (nullif_empty (ParentJobID v)) d3
         else d3)"

definition reclaim_one :: "time \<Rightarrow> job \<Rightarrow> db \<Rightarrow> unit tx" where
  "reclaim_one now v d =
     (let st = reclaim_status v;
          terminal = (st = StatusCancelled \<or> st = StatusDeadLettered);
          d4 = reclaim_writes now v d
      in if terminal \<and> ID v \<noteq> RootJobID v then finalizeRoot now (RootJobID v) d4 else Inr ((), d4))"

fun reclaim_all :: "time \<Rightarrow> job list \<Rightarrow> db \<Rightarrow> unit tx" where
  "reclaim_all now [] d = Inr ((), d)"
| "reclaim_all now (v # vs) d =
     (case reclaim_one now v d of Inl e \<Rightarrow> Inl e | Inr (_, d1) \<Rightarrow> reclaim_all now vs d1)"

definition ReclaimExpired :: "time \<Rightarrow> db \<Rightarrow> nat tx" where
  "ReclaimExpired now d =
     (let vs = map scanServiceJob (filter (expired now) (jobs d))
      in case reclaim_all now vs d of Inl e \<Rightarrow> Inl e | Inr (_, d') \<Rightarrow> Inr (length vs, d'))"

end
