(* ===== verification/Store_Steps.thy ===== *)
theory Store_Steps
  imports Store_Ops
begin

text \<open>
  The statement level of the store: which changes of a job row are legal, and that
  every operation of \<^verbatim>\<open>service.go\<close> is a sequence of legal statements. The lifecycle is
  the transition table of \<^verbatim>\<open>docs/mvp/adr/0001-job-service-contracts.md\<close>; the row
  invariant collects the transition invariants of the same document that the store
  keeps.
\<close>

section \<open>Lifecycle and row invariant\<close>

definition terminal :: "status \<Rightarrow> bool" where
  "terminal s \<longleftrightarrow> s \<in> {StatusCompleted, StatusFailed, StatusDeadLettered, StatusCancelled}"

fun lifecycle :: "status \<Rightarrow> status \<Rightarrow> bool" where
  "lifecycle StatusPending s = (s \<in> {StatusRunning, StatusCancelled})"
| "lifecycle StatusRetryScheduled s = (s \<in> {StatusRunning, StatusCancelled})"
| "lifecycle StatusRunning s = (s \<in> {StatusCompleted, StatusWaiting, StatusRetryScheduled, StatusFailed,
     StatusDeadLettered, StatusCancelled, StatusPending})"
| "lifecycle StatusWaiting s = (s \<in> {StatusCompleted, StatusFailed, StatusDeadLettered, StatusCancelled})"
| "lifecycle _ s = False"

lemma lifecycle_terminal: "terminal s \<Longrightarrow> \<not> lifecycle s s'"
  by (cases s) (simp_all add: terminal_def)

text \<open>
  Leases are held exactly while running, a job is finished exactly when its status is
  terminal, attempts stay within the limit and leave one more attempt to every job that
  waits to be claimed, and only roots wait for descendants.
\<close>

definition row_ok :: "jobs_row \<Rightarrow> bool" where
  "row_ok r \<longleftrightarrow>
     (r_locked_by r \<noteq> None \<longleftrightarrow> r_status r = StatusRunning)
   \<and> (r_lease_token r \<noteq> None \<longleftrightarrow> r_status r = StatusRunning)
   \<and> (r_locked_until r \<noteq> None \<longleftrightarrow> r_status r = StatusRunning)
   \<and> (r_heartbeat_at r \<noteq> None \<longleftrightarrow> r_status r = StatusRunning)
   \<and> (r_completed_at r \<noteq> None \<longleftrightarrow> terminal (r_status r))
   \<and> 0 \<le> r_attempts r \<and> r_attempts r \<le> r_max_attempts r \<and> 0 < r_max_attempts r
   \<and> (r_status r \<in> {StatusPending, StatusRetryScheduled} \<longrightarrow> r_attempts r < r_max_attempts r)
   \<and> (r_started_at r \<noteq> None \<longleftrightarrow> 0 < r_attempts r)
   \<and> (r_status r = StatusWaiting \<longrightarrow> r_id r = r_root_job_id r)"

section \<open>Legal row changes\<close>

text \<open>The columns no statement writes after the insert.\<close>

definition same_identity :: "jobs_row \<Rightarrow> jobs_row \<Rightarrow> bool" where
  "same_identity r r' \<longleftrightarrow> r_id r' = r_id r \<and> r_type r' = r_type r \<and> r_payload r' = r_payload r
     \<and> r_max_attempts r' = r_max_attempts r \<and> r_root_job_id r' = r_root_job_id r
     \<and> r_parent_job_id r' = r_parent_job_id r \<and> r_internal r' = r_internal r
     \<and> r_idempotency_key r' = r_idempotency_key r \<and> r_request_hash r' = r_request_hash r
     \<and> r_created_at r' = r_created_at r"

text \<open>
  A legal change keeps the identity and the row invariant, moves along the lifecycle,
  never lowers the attempt count and leaves a finished job alone.
\<close>

definition legal :: "jobs_row \<Rightarrow> jobs_row \<Rightarrow> bool" where
  "legal r r' \<longleftrightarrow> same_identity r r' \<and> (row_ok r \<longrightarrow> row_ok r')
     \<and> (r_status r' = r_status r \<or> lifecycle (r_status r) (r_status r'))
     \<and> r_attempts r \<le> r_attempts r' \<and> (terminal (r_status r) \<longrightarrow> r' = r)"

text \<open>A legal change that starts no attempt: the lease token is kept or given up.\<close>

definition keeps :: "jobs_row \<Rightarrow> jobs_row \<Rightarrow> bool" where
  "keeps r r' \<longleftrightarrow> legal r r' \<and> r_attempts r' = r_attempts r
     \<and> (r_lease_token r' = r_lease_token r \<and> r_locked_by r' = r_locked_by r \<or> r_lease_token r' = None)"

definition fresh_row :: "jobs_row \<Rightarrow> bool" where
  "fresh_row r \<longleftrightarrow> row_ok r \<and> r_status r = StatusPending \<and> r_attempts r = 0"

lemmas row_defs = row_ok_def same_identity_def legal_def keeps_def release_row_def terminal_def

lemma keeps_legal: "keeps r r' \<Longrightarrow> legal r r'"
  by (simp add: keeps_def)

lemma legal_refl [simp]: "legal r r" and keeps_refl [simp]: "keeps r r"
  by (simp_all add: legal_def keeps_def same_identity_def)

lemma legal_identity:
  assumes "legal r r'"
  shows "r_id r' = r_id r" "r_root_job_id r' = r_root_job_id r"
    "r_idempotency_key r' = r_idempotency_key r" "r_type r' = r_type r"
    "r_payload r' = r_payload r" "r_max_attempts r' = r_max_attempts r"
  using assms by (simp_all add: legal_def same_identity_def)

lemma legal_claim_row:
  "r_status r \<in> {StatusPending, StatusRetryScheduled} \<Longrightarrow> legal r (claim_row now lease w tok r)"
  by (auto simp: row_defs claim_row_def split: option.splits)

lemma keeps_heartbeat:
  "r_status r = StatusRunning \<Longrightarrow>
     keeps r (r\<lparr>r_locked_until := Some t, r_heartbeat_at := Some u\<rparr>)"
  by (simp add: row_defs)

lemma keeps_complete_row:
  assumes "r_status r = StatusRunning" "st = StatusCompleted \<or> st = StatusWaiting \<and> r_id r = r_root_job_id r"
  shows "keeps r (complete_row now st r)"
  using assms by (auto simp: row_defs complete_row_def)

lemma keeps_fail_row:
  assumes "r_status r = StatusRunning"
    "st \<in> {StatusFailed, StatusCancelled, StatusDeadLettered} \<or>
     st = StatusRetryScheduled \<and> r_attempts r < r_max_attempts r"
  shows "keeps r (fail_row now st retryAt kind msg r)"
  using assms by (auto simp: row_defs fail_row_def)

lemma keeps_reclaim_row:
  assumes "r_status r = StatusRunning"
    "st \<in> {StatusCancelled, StatusDeadLettered} \<or> st = StatusPending \<and> r_attempts r < r_max_attempts r"
  shows "keeps r (reclaim_row now st r)"
  using assms by (auto simp: row_defs reclaim_row_def)

lemma keeps_finalize_row:
  assumes "r_status r = StatusWaiting" "st \<in> {StatusCompleted, StatusFailed, StatusDeadLettered}"
  shows "keeps r (finalize_row now st msg r)"
  using assms by (auto simp: row_defs finalize_row_def)

lemma keeps_cancel_row:
  assumes "r_status r \<in> {StatusPending, StatusRetryScheduled, StatusWaiting}"
  shows "keeps r (cancel_row now r)"
  using assms by (auto simp: row_defs cancel_row_def)

lemma keeps_request_cancel_row: "r_status r = StatusRunning \<Longrightarrow> keeps r (request_cancel_row now r)"
  by (auto simp: row_defs request_cancel_row_def split: option.splits)

section \<open>Sequences of legal statements\<close>

text \<open>
  One statement that writes the job table: an update whose every written row changes
  as \<open>R\<close> allows, an insert of a fresh row under a root that exists, or a statement on
  the other tables.
\<close>

inductive stmt :: "(jobs_row \<Rightarrow> jobs_row \<Rightarrow> bool) \<Rightarrow> db \<Rightarrow> db \<Rightarrow> bool" for R where
  stmt_update: "(\<And>r. r \<in> set (jobs d) \<Longrightarrow> p r \<Longrightarrow> R r (f r)) \<Longrightarrow> stmt R d (update_jobs p f d)"
| stmt_insert: "insert_job r d = Inr (b, d') \<Longrightarrow> fresh_row r \<Longrightarrow>
     r_root_job_id r = r_id r \<or> job_exists (r_root_job_id r) d \<Longrightarrow> stmt R d d'"
| stmt_other: "jobs d' = jobs d \<Longrightarrow> stmt R d d'"

abbreviation stmts :: "(jobs_row \<Rightarrow> jobs_row \<Rightarrow> bool) \<Rightarrow> db \<Rightarrow> db \<Rightarrow> bool" where
  "stmts R \<equiv> (stmt R)\<^sup>*\<^sup>*"

inductive_cases stmtE: "stmt R d d'"

lemma stmt_mono: "stmt R d d' \<Longrightarrow> (\<And>r r'. R r r' \<Longrightarrow> S r r') \<Longrightarrow> stmt S d d'"
  by (induction rule: stmt.induct) (auto intro: stmt.intros)

lemma stmts_mono: "stmts R d d' \<Longrightarrow> (\<And>r r'. R r r' \<Longrightarrow> S r r') \<Longrightarrow> stmts S d d'"
  by (induction rule: rtranclp_induct) (auto intro: rtranclp.rtrancl_into_rtrancl stmt_mono)

lemma stmts_other: "jobs d' = jobs d \<Longrightarrow> stmts R d d'"
  by (blast intro: stmt_other)

lemma stmts_then_other: "stmts R d d' \<Longrightarrow> jobs d'' = jobs d' \<Longrightarrow> stmts R d d''"
  by (blast intro: stmt_other rtranclp.rtrancl_into_rtrancl)

lemma stmts_update:
  "(\<And>r. r \<in> set (jobs d) \<Longrightarrow> p r \<Longrightarrow> R r (f r)) \<Longrightarrow> stmts R d (update_jobs p f d)"
  by (blast intro: stmt_update)

text \<open>An update of the job table followed by statements on other tables.\<close>

lemma stmts_update_other:
  "(\<And>r. r \<in> set (jobs d) \<Longrightarrow> p r \<Longrightarrow> R r (f r)) \<Longrightarrow> jobs d' = upd_where p f (jobs d) \<Longrightarrow> stmts R d d'"
  by (rule stmts_then_other [OF stmts_update]) auto

section \<open>The table invariant\<close>

text \<open>
  Primary and idempotency keys are unique, every row satisfies the row invariant and
  every root exists.
\<close>

definition unique_keys :: "jobs_row list \<Rightarrow> bool" where
  "unique_keys t \<longleftrightarrow> distinct (filter (\<lambda>k. k \<noteq> None) (map r_idempotency_key t))"

definition jobs_inv :: "db \<Rightarrow> bool" where
  "jobs_inv d \<longleftrightarrow> jobs_table.keyed (jobs d) \<and> (\<forall>r \<in> set (jobs d). row_ok r)
     \<and> (\<forall>r \<in> set (jobs d). r_root_job_id r \<in> r_id ` set (jobs d)) \<and> unique_keys (jobs d)"

lemma job_exists_iff: "job_exists i d \<longleftrightarrow> i \<in> r_id ` set (jobs d)"
  by (auto simp: job_exists_def)

lemma jobs_invD:
  assumes "jobs_inv d"
  shows "jobs_table.keyed (jobs d)" "r \<in> set (jobs d) \<Longrightarrow> row_ok r"
    "r \<in> set (jobs d) \<Longrightarrow> job_exists (r_root_job_id r) d"
  using assms by (simp_all add: jobs_inv_def job_exists_iff)

lemma unique_keysD:
  assumes "unique_keys t" "r \<in> set t" "s \<in> set t" "r_idempotency_key r = Some k"
    "r_idempotency_key s = Some k"
  shows "r = s"
proof -
  have "inj_on r_idempotency_key (set (filter (\<lambda>r. r_idempotency_key r \<noteq> None) t))"
    using assms(1) unfolding unique_keys_def filter_map
    by (simp add: distinct_map comp_def)
  then show ?thesis using assms(2-) by (simp add: inj_on_def)
qed

lemma map_upd_where_id:
  "(\<And>r. r \<in> set t \<Longrightarrow> p r \<Longrightarrow> k (f r) = k r) \<Longrightarrow> map k (upd_where p f t) = map k t"
  by (simp add: upd_where_def)

text \<open>An update by legal changes keeps the columns of identity.\<close>

lemma update_columns:
  assumes "\<And>r. r \<in> set (jobs d) \<Longrightarrow> p r \<Longrightarrow> legal r (f r)"
  shows "map r_id (upd_where p f (jobs d)) = map r_id (jobs d)"
    "map r_root_job_id (upd_where p f (jobs d)) = map r_root_job_id (jobs d)"
    "map r_idempotency_key (upd_where p f (jobs d)) = map r_idempotency_key (jobs d)"
  using legal_identity(1-3) [OF assms] by (simp_all add: map_upd_where_id)

lemma jobs_inv_update:
  assumes inv: "jobs_inv d" and L: "\<And>r. r \<in> set (jobs d) \<Longrightarrow> p r \<Longrightarrow> legal r (f r)"
  shows "jobs_inv (update_jobs p f d)"
proof -
  note cols = update_columns [of d p f, OF L]
  have "set (map r_root_job_id (jobs d)) \<subseteq> set (map r_id (jobs d))"
    using inv by (auto simp: jobs_inv_def)
  then have "set (map r_root_job_id (upd_where p f (jobs d))) \<subseteq> set (map r_id (upd_where p f (jobs d)))"
    using cols by simp
  then have roots: "\<forall>r \<in> set (upd_where p f (jobs d)). r_root_job_id r \<in> r_id ` set (upd_where p f (jobs d))"
    by auto
  have "\<forall>r \<in> set (upd_where p f (jobs d)). row_ok r"
    using inv L by (intro ball_upd_where) (auto simp: jobs_inv_def legal_def)
  with roots cols inv show ?thesis
    by (simp add: jobs_inv_def jobs_table.keyed_def unique_keys_def)
qed

lemma jobs_inv_insert:
  assumes inv: "jobs_inv d" and ins: "insert_job r d = Inr (b, d')" and fresh: "fresh_row r"
    and root: "r_root_job_id r = r_id r \<or> job_exists (r_root_job_id r) d"
  shows "jobs_inv d'"
  using ins
proof (cases rule: insert_job_cases)
  case 1
  then have "unique_keys (jobs d')" using inv by (auto simp: jobs_inv_def unique_keys_def)
  with 1 show ?thesis
    using inv fresh root
    by (auto simp: jobs_inv_def jobs_table.keyed_snoc fresh_row_def job_exists_iff)
next
  case 2
  then show ?thesis using inv by simp
qed

lemma stmt_jobs_inv: "stmt legal d d' \<Longrightarrow> jobs_inv d \<Longrightarrow> jobs_inv d'"
proof (induction rule: stmt.induct)
  case (stmt_update d p f)
  then show ?case by (blast intro: jobs_inv_update)
next
  case (stmt_insert r d b d')
  then show ?case by (blast intro: jobs_inv_insert)
next
  case (stmt_other d' d)
  then show ?case by (simp add: jobs_inv_def)
qed

lemma stmts_jobs_inv: "stmts legal d d' \<Longrightarrow> jobs_inv d \<Longrightarrow> jobs_inv d'"
  by (induction rule: rtranclp_induct) (auto intro: stmt_jobs_inv)

text \<open>Rows are never removed, and a row's later version is a legal successor.\<close>

lemma stmt_rows:
  assumes "stmt R d d'" "\<And>r r'. R r r' \<Longrightarrow> r_id r' = r_id r" "r \<in> set (jobs d)"
  shows "\<exists>r' \<in> set (jobs d'). r' = r \<or> R r r'"
  using assms
proof (induction rule: stmt.induct)
  case (stmt_update d p f)
  then show ?case by (cases "p r") (auto simp: set_upd_where)
next
  case (stmt_insert r' d b d')
  then show ?case by (auto elim!: insert_job_cases)
qed auto

lemma stmt_job_exists:
  assumes "stmt legal d d'" "job_exists i d"
  shows "job_exists i d'"
proof -
  obtain r where r: "r \<in> set (jobs d)" "r_id r = i" using assms(2) by (auto simp: job_exists_def)
  then obtain r' where "r' \<in> set (jobs d')" "r' = r \<or> legal r r'"
    using stmt_rows [OF assms(1) _ r(1)] legal_identity(1) by blast
  with r(2) show ?thesis by (auto simp: job_exists_def dest: legal_identity(1))
qed

lemma stmts_job_exists: "stmts legal d d' \<Longrightarrow> job_exists i d \<Longrightarrow> job_exists i d'"
  by (induction rule: rtranclp_induct) (auto intro: stmt_job_exists)

end
