(* ===== verification/Store_Invariant.thy ===== *)
theory Store_Invariant
  imports Store_Steps
begin

text \<open>
  Every operation of the job service is a sequence of legal statements. All of them
  but \<^verbatim>\<open>Claim\<close> keep the attempt counters and hand out no lease; the operations that a
  worker calls with a claimed job value are legal when the value agrees with the row it
  owns, which the lease protocol guarantees.
\<close>

section \<open>Inserting rows\<close>

definition valid_limit :: "submission \<Rightarrow> bool" where
  "valid_limit v \<longleftrightarrow> 0 \<le> sMaxAttempts v"

lemma default_attempts_pos: "valid_limit v \<Longrightarrow> 0 < sMaxAttempts (with_default_attempts v)"
  by (simp add: valid_limit_def with_default_attempts_def DefaultMaxAttempts_def)

lemma default_attempts_simps [simp]:
  "sRootJobID (with_default_attempts v) = sRootJobID v"
  "sParentJobID (with_default_attempts v) = sParentJobID v"
  "sIdempotencyKey (with_default_attempts v) = sIdempotencyKey v"
  by (simp_all add: with_default_attempts_def)

lemma fresh_rows:
  "0 < sMaxAttempts v \<Longrightarrow> fresh_row (submit_row H now i v)"
  "0 < sMaxAttempts v \<Longrightarrow> fresh_row (child_row H now i v)"
  "0 < n \<Longrightarrow> fresh_row (replay_row now i n source)"
  by (simp_all add: fresh_row_def row_ok_def new_row_def terminal_def submit_row_def child_row_def
      replay_row_def)

lemma inserted_row_simps [simp]:
  "r_id (submit_row H now i v) = i" "r_id (child_row H now i v) = i" "r_id (replay_row now i n x) = i"
  "r_root_job_id (submit_row H now i v) = (if sRootJobID v = [] then i else sRootJobID v)"
  "r_root_job_id (child_row H now i v) = sRootJobID v" "r_root_job_id (replay_row now i n x) = i"
  "r_idempotency_key (submit_row H now i v) = nullif_empty (sIdempotencyKey v)"
  "r_idempotency_key (child_row H now i v) = Some (sIdempotencyKey v)"
  "r_idempotency_key (replay_row now i n x) = None"
  "r_request_hash (submit_row H now i v) = Some (submissionHash H v)"
  "r_status (submit_row H now i v) = StatusPending" "r_status (child_row H now i v) = StatusPending"
  "r_status (replay_row now i n x) = StatusPending"
  by (simp_all add: new_row_def submit_row_def child_row_def replay_row_def)

lemma stmts_insert:
  assumes "insert_job r d = Inr (b, d')" "fresh_row r"
    "r_root_job_id r = r_id r \<or> job_exists (r_root_job_id r) d" "jobs d'' = jobs d'"
  shows "stmts R d d''"
  using stmt_insert [OF assms(1-3), of R] stmt_other [OF assms(4), of R] by (meson r_into_rtranclp rtranclp.rtrancl_into_rtrancl)

lemma Submit_keeps:
  assumes S: "Submit H now i input d = Inr (res, d')" and lim: "valid_limit input"
    and root: "sRootJobID input = [] \<or> job_exists (sRootJobID input) d"
  shows "stmts keeps d d'"
proof -
  from S obtain b d1 where ins: "insert_job (submit_row H now i (with_default_attempts input)) d = Inr (b, d1)"
    and jobs: "jobs d' = jobs d1"
    by (auto simp: Submit_def Let_def split: sum.splits prod.splits if_splits option.splits)
  show ?thesis
    using stmts_insert [OF ins fresh_rows(1) _ jobs] default_attempts_pos [OF lim] root by auto
qed

lemma insertSubmission_keeps:
  assumes "insertSubmission H now i c d = Inr (u, d')" "valid_limit c" "job_exists (sRootJobID c) d"
  shows "stmts keeps d d'"
proof -
  from assms(1) obtain b where ins: "insert_job (child_row H now i (with_default_attempts c)) d = Inr (b, d')"
    by (auto simp: insertSubmission_def split: sum.splits prod.splits)
  show ?thesis
    using stmts_insert [OF ins fresh_rows(2) _ refl] default_attempts_pos [OF assms(2)] assms(3) by auto
qed

lemma insertAuditRelationship_jobs:
  "insertAuditRelationship c d = Inr (u, d') \<Longrightarrow> jobs d' = jobs d"
  by (auto simp: insertAuditRelationship_def Let_def split: option.splits if_splits)

lemma insert_audit_result_jobs: "insert_audit_result v res d = Inr (u, d') \<Longrightarrow> jobs d' = jobs d"
  by (auto simp: insert_audit_result_def Let_def split: option.splits if_splits)

lemma store_result_jobs [simp]: "jobs (store_result v st res d) = jobs d"
  by (simp add: store_result_def split: option.splits)

lemma valid_limit_adopt [simp]: "valid_limit (adopt v c) = valid_limit c"
  by (simp add: valid_limit_def adopt_def)

lemma insert_children_keeps:
  assumes "insert_children H now newid n v cs d = Inr (u, d')" "\<forall>c \<in> set cs. valid_limit c"
    "job_exists (RootJobID v) d"
  shows "stmts keeps d d'"
  using assms
proof (induction H now newid n v cs d rule: insert_children.induct)
  case (1 H now newid n v d)
  then show ?case by simp
next
  case (2 H now newid n v c cs d)
  from "2.prems"(1) obtain d1 d2 where rel: "insertAuditRelationship (adopt v c) d = Inr ((), d1)"
    and sub: "insertSubmission H now (newid n) (adopt v c) d1 = Inr ((), d2)"
    and rest: "insert_children H now newid (Suc n) v cs d2 = Inr (u, d')"
    by (auto split: sum.splits)
  have j: "jobs d1 = jobs d" using rel by (rule insertAuditRelationship_jobs)
  then have ex: "job_exists (sRootJobID (adopt v c)) d1"
    using "2.prems"(3) by (simp add: job_exists_def adopt_def)
  have s1: "stmts keeps d1 d2"
    using insertSubmission_keeps [OF sub _ ex] "2.prems"(2) by simp
  moreover have "stmts keeps d d1" using j by (rule stmts_other)
  moreover have "stmts keeps d2 d'"
  proof -
    have "job_exists (RootJobID v) d2"
      using stmts_job_exists [OF stmts_mono [OF s1 keeps_legal]] ex by (simp add: adopt_def)
    with "2.IH" [OF rel _ sub _ rest] "2.prems"(2) show ?thesis by simp
  qed
  ultimately show ?case by (meson rtranclp_trans)
qed

section \<open>Finalizing, completing and failing\<close>

lemma root_outcome_cases: "root_outcome root d \<in> {StatusCompleted, StatusFailed, StatusDeadLettered}"
  by (simp add: root_outcome_def Let_def)

definition failure_message :: "jobs_row \<Rightarrow> string" where
  "failure_message r = (if r_type r = ''dependency_update_scan'' then ''one or more update checks failed''
     else ''one or more audit tasks failed'')"

lemma finalize_writes_jobs [simp, sql_simps]:
  "jobs (finalize_writes now r st d) = upd_where (\<lambda>x. r_id x = r_id r \<and> r_status x = StatusWaiting)
     (finalize_row now st (failure_message r)) (jobs d)"
  by (simp add: finalize_writes_def Let_def failure_message_def)

lemma finalizeRoot_cases:
  assumes "finalizeRoot now root d = Inr (u, d')"
  obtains "d' = d"
  | r x where "find_job root d = Some r" "r_id r = root" "x \<in> set (jobs d)" "r_id x = root"
      "r_status x = StatusWaiting" "\<forall>x \<in> set (jobs d). descendant root x \<longrightarrow> \<not> is_active (r_status x)"
      "d' = finalize_writes now r (root_outcome root d) d"
proof -
  from assms obtain r where r: "find_job root d = Some r" by (auto simp: finalizeRoot_def split: option.splits)
  consider "d' = d" | "d' \<noteq> d" by blast
  then show ?thesis
  proof cases
    case 2
    then have n: "count_where (\<lambda>x. descendant root x \<and> is_active (r_status x)) (jobs d) = 0"
      "count_where (\<lambda>x. r_id x = root \<and> r_status x = StatusWaiting) (jobs d) \<noteq> 0"
      "d' = finalize_writes now r (root_outcome root d) d"
      using assms r by (simp_all add: finalizeRoot_def split: if_splits)
    from n(2) obtain x where "x \<in> set (jobs d)" "r_id x = root" "r_status x = StatusWaiting"
      by (auto simp: count_where_0)
    then show ?thesis using that(2) r find_job_SomeD [OF r] n(1,3) by (auto simp: count_where_0)
  qed (rule that(1))
qed

lemma finalizeRoot_jobs:
  assumes "finalizeRoot now root d = Inr (u, d')"
  obtains "d' = d"
  | msg where "jobs d' = upd_where (\<lambda>x. r_id x = root \<and> r_status x = StatusWaiting)
        (finalize_row now (root_outcome root d) msg) (jobs d)"
  using assms
proof (cases rule: finalizeRoot_cases)
  case (2 r x)
  have "jobs d' = upd_where (\<lambda>x. r_id x = root \<and> r_status x = StatusWaiting)
        (finalize_row now (root_outcome root d) (failure_message r)) (jobs d)"
    by (simp add: 2(7,2))
  then show ?thesis by (rule that(2))
qed (rule that(1))

lemma finalizeRoot_keeps:
  assumes "finalizeRoot now root d = Inr (u, d')"
  shows "stmts keeps d d'"
  using assms
proof (cases rule: finalizeRoot_jobs)
  case (2 msg)
  show ?thesis
    using keeps_finalize_row root_outcome_cases by (intro stmts_update_other [OF _ 2(1)]) simp
qed simp

text \<open>The value a worker holds describes the row it owns.\<close>

definition agrees :: "job \<Rightarrow> jobs_row \<Rightarrow> bool" where
  "agrees v r \<longleftrightarrow> r_id r = ID v \<and> r_attempts r = Attempts v \<and> r_max_attempts r = MaxAttempts v
     \<and> r_root_job_id r = RootJobID v \<and> r_type r = Type v \<and> r_payload r = Payload v"

definition value_ok :: "job \<Rightarrow> db \<Rightarrow> bool" where
  "value_ok v d \<longleftrightarrow> (\<forall>r \<in> set (jobs d). owns v r \<longrightarrow> agrees v r)"

lemma count_ownsE:
  assumes "count_where (owns v) (jobs d) = 1" "value_ok v d"
  obtains r where "r \<in> set (jobs d)" "owns v r" "agrees v r"
proof -
  have "count_where (owns v) (jobs d) \<noteq> 0" using assms(1) by simp
  then obtain r where "r \<in> set (jobs d)" "owns v r" by (auto simp: count_where_0)
  then show ?thesis using that assms(2) by (simp add: value_ok_def)
qed

lemma agrees_scan [simp]: "agrees (scanServiceJob r) r"
  by (simp add: agrees_def)

lemma complete_update:
  assumes "value_ok v d" "r \<in> set (jobs d)" "owns v r"
  shows "keeps r (complete_row now (complete_status v res) r)"
  using assms by (intro keeps_complete_row) (auto simp: value_ok_def owns_def agrees_def complete_status_def)

lemma attempt_simps [simp, sql_simps]:
  "jobs (complete_attempt now v d) = jobs d" "jobs (finish_attempt now v t k m d) = jobs d"
  "jobs (abandon_attempt now v d) = jobs d"
  "dlq (complete_attempt now v d) = dlq d" "dlq (finish_attempt now v t k m d) = dlq d"
  "dlq (abandon_attempt now v d) = dlq d"
  by (simp_all add: complete_attempt_def finish_attempt_def abandon_attempt_def)

lemma Complete_cases:
  assumes "Complete H now newid v res d = Inr (u, d')"
  obtains d3 d4 where "count_where (owns v) (jobs d) = 1"
    "insert_children H now newid 0 v (Children res)
       (complete_attempt now v (update_jobs (owns v) (complete_row now (complete_status v res)) d)) = Inr ((), d3)"
    "insert_audit_result v (Result res) (store_result v (complete_status v res) (Result res) d3) = Inr ((), d4)"
    "let d5 = insert_event now (ID v) (status_text (complete_status v res)) (Some (Attempts v))
                (Some (LockedBy v)) (JObj []) d4
     in if complete_status v res = StatusCompleted \<and> ID v \<noteq> RootJobID v
        then finalizeRoot now (RootJobID v) d5 = Inr (u, d') else d' = d5"
  using assms unfolding Complete_def Let_def
  by (auto split: sum.splits if_splits)

lemma Complete_keeps:
  assumes C: "Complete H now newid v res d = Inr (u, d')" and inv: "jobs_inv d" and v: "value_ok v d"
    and lim: "\<forall>c \<in> set (Children res). valid_limit c"
  shows "stmts keeps d d'"
proof -
  let ?st = "complete_status v res"
  let ?d2 = "complete_attempt now v (update_jobs (owns v) (complete_row now ?st) d)"
  from C obtain d3 d4 d5 where own: "count_where (owns v) (jobs d) = 1"
    and ch: "insert_children H now newid 0 v (Children res) ?d2 = Inr ((), d3)"
    and ar: "insert_audit_result v (Result res) (store_result v ?st (Result res) d3) = Inr ((), d4)"
    and j5: "jobs d5 = jobs d4" and fin: "d' = d5 \<or> finalizeRoot now (RootJobID v) d5 = Inr (u, d')"
    by (rule Complete_cases) (metis insert_event_simps(1))
  have s2: "stmts keeps d ?d2" by (rule stmts_update_other) (auto intro: complete_update [OF v])
  obtain r where "r \<in> set (jobs d)" "agrees v r" using count_ownsE [OF own v] by blast
  then have "job_exists (RootJobID v) d" using jobs_invD(3) [OF inv, of r] by (simp add: agrees_def)
  then have "job_exists (RootJobID v) ?d2"
    using stmts_job_exists [OF stmts_mono [OF s2 keeps_legal]] by blast
  then have s3: "stmts keeps ?d2 d3" using insert_children_keeps [OF ch lim] by blast
  have "jobs d5 = jobs d3" using j5 insert_audit_result_jobs [OF ar] by simp
  then have "stmts keeps d3 d5" by (rule stmts_other)
  moreover have "stmts keeps d5 d'" using fin finalizeRoot_keeps by blast
  ultimately show ?thesis using s2 s3 by (meson rtranclp_trans)
qed

lemma fail_update:
  assumes "value_ok v d" "r \<in> set (jobs d)" "owns v r"
  shows "keeps r (fail_row now (fail_status v kind) retryAt kind' msg r)"
  using assms
  by (intro keeps_fail_row) (auto simp: value_ok_def owns_def agrees_def fail_status_def split: error_kind.splits)

lemma fail_writes_simps [simp, sql_simps]:
  "jobs (fail_writes now v kind msg retryAt d) =
     upd_where (owns v) (fail_row now (fail_status v kind) retryAt kind msg) (jobs d)"
  "map d_job_id (dlq (fail_writes now v kind msg retryAt d)) = map d_job_id (dlq d) @
     (if fail_status v kind = StatusDeadLettered then [ID v] else [])"
  by (simp_all add: fail_writes_def Let_def)

lemma fail_writes_keeps: "value_ok v d \<Longrightarrow> stmts keeps d (fail_writes now v kind msg retryAt d)"
  by (rule stmts_update_other) (auto intro: fail_update)

lemma Fail_cases:
  assumes "Fail now v kind message retryAt d = Inr (u, d')"
  obtains "count_where (owns v) (jobs d) = 1"
    "finalizeRoot now (RootJobID v) (fail_writes now v kind (boundedError message) retryAt d) = Inr (u, d')"
    "fail_status v kind \<noteq> StatusRetryScheduled" "ID v \<noteq> RootJobID v"
  | "count_where (owns v) (jobs d) = 1" "d' = fail_writes now v kind (boundedError message) retryAt d"
proof -
  from assms have own: "count_where (owns v) (jobs d) = 1"
    by (simp add: Fail_def Let_def split: if_splits)
  show ?thesis
  proof (cases "fail_status v kind \<noteq> StatusRetryScheduled \<and> ID v \<noteq> RootJobID v")
    case True
    with assms own show ?thesis by (intro that(1)) (simp_all add: Fail_def)
  next
    case False
    with assms own have "d' = fail_writes now v kind (boundedError message) retryAt d"
      by (auto simp: Fail_def Let_def)
    with own show ?thesis by (rule that(2))
  qed
qed

lemma Fail_keeps:
  assumes "Fail now v kind message retryAt d = Inr (u, d')" "value_ok v d"
  shows "stmts keeps d d'"
  using assms(1)
proof (cases rule: Fail_cases)
  case 1
  show ?thesis by (rule rtranclp_trans [OF fail_writes_keeps [OF assms(2)] finalizeRoot_keeps [OF 1(2)]])
qed (simp add: fail_writes_keeps assms(2))

lemma Heartbeat_keeps: "Heartbeat now v lease d = (b, d') \<Longrightarrow> stmts keeps d d'"
  by (auto simp: Heartbeat_def Let_def owns_def intro!: stmts_update keeps_heartbeat)

section \<open>Cancelling, retrying, replaying\<close>

lemma cancel_commit_jobs: "cancel_commit now i b d = Inr (w, d') \<Longrightarrow> jobs d' = jobs d"
  by (auto simp: cancel_commit_def Let_def split: option.splits if_splits)

lemma Cancel_cases [consumes 2, case_names one req tree none]:
  assumes C: "Cancel now i d = Inr (w, d')" and inv: "jobs_inv d"
  obtains v where "v \<in> set (jobs d)" "r_id v = i" "\<And>r. r \<in> set (jobs d) \<Longrightarrow> r_id r = i \<Longrightarrow> r = v"
      "r_status v \<in> {StatusPending, StatusRetryScheduled}"
      "jobs d' = upd_where (\<lambda>r. r_id r = i) (cancel_row now) (jobs d)"
    | v where "v \<in> set (jobs d)" "r_id v = i" "\<And>r. r \<in> set (jobs d) \<Longrightarrow> r_id r = i \<Longrightarrow> r = v"
      "r_status v = StatusRunning" "jobs d' = upd_where (\<lambda>r. r_id r = i) (request_cancel_row now) (jobs d)"
    | v where "v \<in> set (jobs d)" "r_id v = i" "r_status v = StatusWaiting"
      "jobs d' = upd_where (\<lambda>r. r_root_job_id r = r_root_job_id v \<and> r_status r = StatusRunning)
         (request_cancel_row now) (upd_where (\<lambda>r. r_root_job_id r = r_root_job_id v
            \<and> r_status r \<in> {StatusPending, StatusRetryScheduled, StatusWaiting}) (cancel_row now) (jobs d))"
    | "d' = d"
proof -
  from C obtain v where v: "find_job i d = Some v" by (auto simp: Cancel_def split: option.splits)
  note f = find_job_SomeD [OF v]
  have same: "r = v" if "r \<in> set (jobs d)" "r_id r = i" for r
    using find_job_keyed [OF jobs_invD(1) [OF inv] that(1)] v that(2) by simp
  show ?thesis
  proof (cases "r_status v")
    case StatusPending
    then show ?thesis using C v f same by (intro that(1) [of v]) (auto simp: Cancel_def dest!: cancel_commit_jobs)
  next
    case StatusRetryScheduled
    then show ?thesis using C v f same by (intro that(1) [of v]) (auto simp: Cancel_def dest!: cancel_commit_jobs)
  next
    case StatusRunning
    then show ?thesis using C v f same by (intro that(2) [of v]) (auto simp: Cancel_def dest!: cancel_commit_jobs)
  next
    case StatusWaiting
    then show ?thesis using C v f by (intro that(3) [of v]) (auto simp: Cancel_def dest!: cancel_commit_jobs)
  next
    case StatusCancelled
    then show ?thesis using C v by (intro that(4)) (simp add: Cancel_def)
  qed (use C v in \<open>simp_all add: Cancel_def\<close>)
qed

lemma Cancel_keeps:
  assumes C: "Cancel now i d = Inr (w, d')" and inv: "jobs_inv d"
  shows "stmts keeps d d'"
  using C inv
proof (cases rule: Cancel_cases)
  case (one v)
  show ?thesis
  proof (rule stmts_update_other [OF _ one(5)])
    show "keeps r (cancel_row now r)" if "r \<in> set (jobs d)" "r_id r = i" for r
      using one(4) one(3) [OF that] by (auto intro: keeps_cancel_row)
  qed
next
  case (req v)
  show ?thesis
  proof (rule stmts_update_other [OF _ req(5)])
    show "keeps r (request_cancel_row now r)" if "r \<in> set (jobs d)" "r_id r = i" for r
      using req(4) req(3) [OF that] by (auto intro: keeps_request_cancel_row)
  qed
next
  case (tree v)
  let ?d1 = "update_jobs (\<lambda>r. r_root_job_id r = r_root_job_id v
          \<and> r_status r \<in> {StatusPending, StatusRetryScheduled, StatusWaiting}) (cancel_row now) d"
  have "stmts keeps d ?d1" by (rule stmts_update) (auto intro: keeps_cancel_row)
  moreover have "stmts keeps ?d1 d'"
    by (rule stmts_update_other) (auto simp: tree(4) intro: keeps_request_cancel_row)
  ultimately show ?thesis by (rule rtranclp_trans)
qed simp

lemma Retry_cases:
  assumes "Retry H now newid i n d = Inr (w, d')"
  obtains r m b where "find_job i d = Some r" "r_status r \<in> {StatusFailed, StatusDeadLettered}"
    "m = (if n = 0 then r_max_attempts r else n)"
    "Submit H now newid ((submission_of (r_type r) (r_payload r) m)\<lparr>sRetriedFromJobID := r_id r\<rparr>) d
       = Inr ((w, b), d')"
proof -
  from assms obtain r where r: "find_job i d = Some r"
    by (auto simp: Retry_def Get_def split: option.splits)
  let ?m = "if n = 0 then r_max_attempts r else n"
  from assms r have "r_status r \<in> {StatusFailed, StatusDeadLettered} \<and>
    (\<exists>b. Submit H now newid ((submission_of (r_type r) (r_payload r) ?m)\<lparr>sRetriedFromJobID := r_id r\<rparr>) d
       = Inr ((w, b), d'))"
    by (auto simp: Retry_def Get_def Let_def split: option.splits sum.splits if_splits)
  then show ?thesis using that r by blast
qed

lemma Retry_keeps:
  assumes "Retry H now newid i n d = Inr (w, d')" "jobs_inv d" "0 \<le> n"
  shows "stmts keeps d d'"
  using assms(1)
proof (cases rule: Retry_cases)
  case (1 r m b)
  then have "row_ok r" using find_job_SomeD [OF 1(1)] jobs_invD(2) [OF assms(2)] by blast
  then have "0 \<le> m" using 1(3) assms(3) by (auto simp: row_ok_def)
  then show ?thesis using Submit_keeps [OF 1(4)] by (simp add: valid_limit_def submission_of_def)
qed

lemma find_job_snoc:
  "jobs d' = jobs d @ [r] \<Longrightarrow> \<not> job_exists (r_id r) d \<Longrightarrow> find_job (r_id r) d' = Some r"
  using find_job_None [of "r_id r" d] by (simp add: find_job_def find_append)

lemma ReplayDLQ_cases:
  assumes "ReplayDLQ now newid e n d = Inr (w, d')"
  obtains source row where "find_dlq e d = Some source" "coalesce (d_replayed_as_job_id source) = []"
    "row = replay_row now newid (if n = 0 then DefaultMaxAttempts else n) source"
    "insert_job row d = Inr (True, d\<lparr>jobs := jobs d @ [row]\<rparr>)"
    "jobs d' = jobs d @ [row]" "job_attempts d' = job_attempts d" "\<not> job_exists newid d"
    "dlq d' = upd_where (\<lambda>x. d_id x = e)
       (\<lambda>x. x\<lparr>d_replayed_at := Some now, d_replayed_as_job_id := Some newid\<rparr>) (dlq d)"
    "w = scanServiceJob row"
proof -
  from assms obtain source where src: "find_dlq e d = Some source"
    "coalesce (d_replayed_as_job_id source) = []"
    by (auto simp: ReplayDLQ_def split: option.splits if_splits)
  let ?row = "replay_row now newid (if n = 0 then DefaultMaxAttempts else n) source"
  have ex: "\<not> job_exists newid d"
    using assms src by (auto simp: ReplayDLQ_def insert_job_def Let_def split: if_splits)
  then have ins: "insert_job ?row d = Inr (True, d\<lparr>jobs := jobs d @ [?row]\<rparr>)"
    by (simp add: insert_job_def)
  have "find_job newid (d\<lparr>jobs := jobs d @ [?row], dlq := x\<rparr>) = Some ?row" for x
    using find_job_snoc [of "d\<lparr>jobs := jobs d @ [?row], dlq := x\<rparr>" d ?row] ex by simp
  then show ?thesis
    using assms src ins by (intro that [OF src refl ins _ _ ex]) (auto simp: ReplayDLQ_def Let_def)
qed

lemma ReplayDLQ_keeps:
  assumes "ReplayDLQ now newid e n d = Inr (w, d')" "0 \<le> n"
  shows "stmts keeps d d'"
  using assms(1)
proof (cases rule: ReplayDLQ_cases)
  case (1 source row)
  have "fresh_row row"
    using assms(2) by (simp add: 1(3) fresh_rows(3) DefaultMaxAttempts_def)
  then show ?thesis using 1(3,5) by (intro stmts_insert [OF 1(4)]) auto
qed

section \<open>Expired leases\<close>

text \<open>What \<^verbatim>\<open>ReclaimExpired\<close> knows of a job it still has to process.\<close>

definition reclaimable :: "db \<Rightarrow> job \<Rightarrow> bool" where
  "reclaimable d v \<longleftrightarrow> job_exists (ID v) d \<and> (\<forall>r \<in> set (jobs d). r_id r = ID v \<longrightarrow> r_status r = StatusRunning \<and> agrees v r)"

lemma reclaim_writes_simps [simp, sql_simps]:
  "jobs (reclaim_writes now v d) = upd_where (\<lambda>r. r_id r = ID v) (reclaim_row now (reclaim_status v)) (jobs d)"
  "map d_job_id (dlq (reclaim_writes now v d)) = map d_job_id (dlq d) @
     (if reclaim_status v = StatusDeadLettered then [ID v] else [])"
  by (simp_all add: reclaim_writes_def Let_def)

lemma reclaim_writes_keeps:
  assumes "reclaimable d v"
  shows "stmts keeps d (reclaim_writes now v d)"
proof (rule stmts_update_other [OF _ reclaim_writes_simps(1)])
  show "keeps r (reclaim_row now (reclaim_status v) r)" if "r \<in> set (jobs d)" "r_id r = ID v" for r
    using assms that
    by (intro keeps_reclaim_row) (auto simp: reclaimable_def agrees_def reclaim_status_def Let_def)
qed

lemma reclaim_one_cases:
  assumes "reclaim_one now v d = Inr (u, d')"
  obtains "finalizeRoot now (RootJobID v) (reclaim_writes now v d) = Inr (u, d')"
    | "d' = reclaim_writes now v d"
proof (cases "(reclaim_status v = StatusCancelled \<or> reclaim_status v = StatusDeadLettered) \<and> ID v \<noteq> RootJobID v")
  case True
  with assms show ?thesis by (intro that(1)) (auto simp: reclaim_one_def Let_def)
next
  case False
  with assms have "d' = reclaim_writes now v d" by (auto simp: reclaim_one_def Let_def)
  then show ?thesis by (rule that(2))
qed

lemma reclaim_one_keeps:
  assumes "reclaim_one now v d = Inr (u, d')" "reclaimable d v"
  shows "stmts keeps d d'"
  using assms(1)
proof (cases rule: reclaim_one_cases)
  case 1
  show ?thesis by (rule rtranclp_trans [OF reclaim_writes_keeps [OF assms(2)] finalizeRoot_keeps [OF 1]])
qed (simp add: reclaim_writes_keeps assms(2))

text \<open>Processing one expired lease leaves the rows of the others as they were read.\<close>

lemma finalizeRoot_reclaimable:
  assumes "finalizeRoot now root d = Inr (u, d')" "reclaimable d w"
  shows "reclaimable d' w"
  using assms(1)
proof (cases rule: finalizeRoot_jobs)
  case (2 msg)
  have "job_exists (ID w) d'"
    using assms(2) by (auto simp: reclaimable_def intro: stmts_job_exists
        [OF stmts_mono [OF finalizeRoot_keeps [OF assms(1)] keeps_legal]])
  then show ?thesis
    using assms(2) unfolding reclaimable_def 2(1)
    by (auto simp: finalize_row_def elim!: upd_where_cases)
qed (simp add: assms(2))

lemma reclaim_one_others:
  assumes "reclaim_one now v d = Inr (u, d')" "reclaimable d w" "ID w \<noteq> ID v"
  shows "reclaimable d' w"
proof -
  have "job_exists (ID w) (reclaim_writes now v d)"
  proof -
    have "map r_id (jobs (reclaim_writes now v d)) = map r_id (jobs d)"
      by (simp add: reclaim_row_def release_row_def)
    then have "r_id ` set (jobs (reclaim_writes now v d)) = r_id ` set (jobs d)" by (metis list.set_map)
    with assms(2) show ?thesis by (simp only: reclaimable_def job_exists_iff)
  qed
  then have "reclaimable (reclaim_writes now v d) w"
    using assms(2,3) unfolding reclaimable_def
    by (auto simp: reclaim_row_def release_row_def elim!: upd_where_cases)
  with assms(1) show ?thesis
    by (cases rule: reclaim_one_cases) (auto intro: finalizeRoot_reclaimable)
qed

lemma reclaim_all_keeps:
  assumes "reclaim_all now vs d = Inr (u, d')" "distinct (map ID vs)" "\<forall>v \<in> set vs. reclaimable d v"
  shows "stmts keeps d d'"
  using assms
proof (induction now vs d rule: reclaim_all.induct)
  case (1 now d)
  then show ?case by simp
next
  case (2 now v vs d)
  from "2.prems"(1) obtain d1 where one: "reclaim_one now v d = Inr ((), d1)"
    and rest: "reclaim_all now vs d1 = Inr (u, d')" by (auto split: sum.splits)
  have "\<forall>w \<in> set vs. reclaimable d1 w"
    using "2.prems"(2,3) reclaim_one_others [OF one] by (metis distinct.simps(2) image_eqI list.set_intros(2) list.set_map list.simps(9))
  then have "stmts keeps d1 d'" using "2.IH" [OF one _ rest] "2.prems"(2) by simp
  moreover have "stmts keeps d d1" using reclaim_one_keeps [OF one] "2.prems"(3) by simp
  ultimately show ?case by (meson rtranclp_trans)
qed

text \<open>The jobs the scan finds are reclaimable at the start.\<close>

lemma expired_reclaimable:
  assumes "jobs_table.keyed (jobs d)" "r \<in> set (jobs d)" "expired now r"
  shows "reclaimable d (scanServiceJob r)"
  unfolding reclaimable_def
proof (intro conjI ballI impI)
  show "job_exists (ID (scanServiceJob r)) d" using assms(2) by (auto simp: job_exists_def)
next
  fix x assume "x \<in> set (jobs d)" "r_id x = ID (scanServiceJob r)"
  then have "x = r" using jobs_table.keyed_unique [OF assms(1)] assms(2) by simp
  with assms(3) show "r_status x = StatusRunning" "agrees (scanServiceJob r) x" by (simp_all add: expired_def)
qed

lemma expired_distinct:
  assumes "jobs_table.keyed (jobs d)"
  shows "distinct (map ID (map scanServiceJob (filter (expired now) (jobs d))))"
  using assms by (simp add: jobs_table.keyed_def comp_def distinct_map_filter)

lemma ReclaimExpired_keeps:
  assumes "ReclaimExpired now d = Inr (n, d')" "jobs_inv d"
  shows "stmts keeps d d'"
proof -
  let ?vs = "map scanServiceJob (filter (expired now) (jobs d))"
  have "reclaim_all now ?vs d = Inr ((), d')"
    using assms(1) by (auto simp: ReclaimExpired_def Let_def split: sum.splits)
  then show ?thesis
  proof (rule reclaim_all_keeps)
    show "distinct (map ID ?vs)" by (rule expired_distinct [OF jobs_invD(1) [OF assms(2)]])
    show "\<forall>v \<in> set ?vs. reclaimable d v"
      using expired_reclaimable [OF jobs_invD(1) [OF assms(2)]] by auto
  qed
qed

end
