(* ===== verification/Store_System.thy ===== *)
theory Store_System
  imports Store_Invariant
begin

text \<open>
  The job service under arbitrary sequences of operations: clients submit, cancel, retry
  and replay, workers claim and report with any job value a claim ever returned,
  however old, and the maintenance loop reclaims expired leases. The state pairs the
  database with the values handed out so far. Lease tokens are fresh random
  identifiers, attempt limits are not negative, and a submission that names a root
  names an existing job.
\<close>

section \<open>Claiming\<close>

lemma next_claim_SomeD:
  assumes "next_claim now d = Some r"
  shows "r \<in> set (jobs d)" "claimable now r"
    "\<And>x. x \<in> set (jobs d) \<Longrightarrow> claimable now x \<Longrightarrow> claim_order r \<le> claim_order x"
proof -
  let ?l = "sort_key claim_order (filter (claimable now) (jobs d))"
  obtain rest where l: "?l = r # rest" using assms by (auto simp: next_claim_def split: list.splits)
  have m: "set ?l = {x \<in> set (jobs d). claimable now x}" by simp
  then show "r \<in> set (jobs d)" "claimable now r" using l by auto
  have "sorted (map claim_order (r # rest))" by (metis l sorted_sort_key)
  then show "claim_order r \<le> claim_order x" if "x \<in> set (jobs d)" "claimable now x" for x
    using that m l by auto
qed

lemma next_claim_None: "next_claim now d = None \<longleftrightarrow> (\<forall>r \<in> set (jobs d). \<not> claimable now r)"
proof -
  have "next_claim now d = None \<longleftrightarrow> sort_key claim_order (filter (claimable now) (jobs d)) = []"
    by (auto simp: next_claim_def split: list.splits)
  also have "\<dots> \<longleftrightarrow> filter (claimable now) (jobs d) = []"
    by (metis length_0_conv length_sort)
  finally show ?thesis by (simp add: filter_empty_conv)
qed

definition attempt_keys :: "db \<Rightarrow> (id \<times> int) list" where
  "attempt_keys d = map (\<lambda>a. (a_job_id a, a_attempt a)) (job_attempts d)"

lemma Claim_cases:
  assumes "Claim now token worker lease d = Inr (Some v, d')"
  obtains r where "next_claim now d = Some r" "v = scanServiceJob (claim_row now lease worker token r)"
    "jobs d' = upd_where (\<lambda>x. r_id x = r_id r) (claim_row now lease worker token) (jobs d)"
    "attempt_keys d' = attempt_keys d @ [(r_id r, r_attempts r + 1)]" "dlq d' = dlq d"
    "(r_id r, r_attempts r + 1) \<notin> set (attempt_keys d)"
  using assms
  by (auto simp: Claim_def Let_def attempt_keys_def claim_row_def image_iff split: option.splits if_splits;
      metis)

lemma Claim_legal:
  assumes C: "Claim now token worker lease d = Inr (Some v, d')" and inv: "jobs_inv d"
  shows "stmts legal d d'"
  using C
proof (cases rule: Claim_cases)
  case (1 r)
  note r = next_claim_SomeD [OF 1(1)]
  show ?thesis
  proof (rule stmts_update_other [OF _ 1(3)])
    fix x assume "x \<in> set (jobs d)" "r_id x = r_id r"
    then have "x = r" using jobs_table.keyed_unique [OF jobs_invD(1) [OF inv]] r(1) by blast
    then show "legal x (claim_row now lease worker token x)"
      using r(2) by (auto simp: claimable_def intro: legal_claim_row)
  qed
qed

section \<open>Steps of the service\<close>

record sys =
  sdb :: db
  issued :: "job list"

definition init_sys :: sys where
  "init_sys = \<lparr>sdb = empty_db, issued = []\<rparr>"

inductive store_step :: "hash \<Rightarrow> sys \<Rightarrow> sys \<Rightarrow> bool" for H where
  step_submit: "Submit H now i input (sdb s) = Inr (res, d') \<Longrightarrow> valid_limit input \<Longrightarrow>
     sRootJobID input = [] \<or> job_exists (sRootJobID input) (sdb s) \<Longrightarrow> store_step H s (s\<lparr>sdb := d'\<rparr>)"
| step_claim: "Claim now token worker lease (sdb s) = Inr (Some v, d') \<Longrightarrow>
     token \<notin> LeaseToken ` set (issued s) \<Longrightarrow> store_step H s (s\<lparr>sdb := d', issued := issued s @ [v]\<rparr>)"
| step_heartbeat: "Heartbeat now v lease (sdb s) = (b, d') \<Longrightarrow> v \<in> set (issued s) \<Longrightarrow>
     store_step H s (s\<lparr>sdb := d'\<rparr>)"
| step_complete: "Complete H now newid v res (sdb s) = Inr (u, d') \<Longrightarrow> v \<in> set (issued s) \<Longrightarrow>
     \<forall>c \<in> set (Children res). valid_limit c \<Longrightarrow> store_step H s (s\<lparr>sdb := d'\<rparr>)"
| step_fail: "Fail now v kind message retryAt (sdb s) = Inr (u, d') \<Longrightarrow> v \<in> set (issued s) \<Longrightarrow>
     store_step H s (s\<lparr>sdb := d'\<rparr>)"
| step_cancel: "Cancel now i (sdb s) = Inr (w, d') \<Longrightarrow> store_step H s (s\<lparr>sdb := d'\<rparr>)"
| step_retry: "Retry H now newid i n (sdb s) = Inr (w, d') \<Longrightarrow> 0 \<le> n \<Longrightarrow> store_step H s (s\<lparr>sdb := d'\<rparr>)"
| step_replay: "ReplayDLQ now newid' e n (sdb s) = Inr (w, d') \<Longrightarrow> 0 \<le> n \<Longrightarrow> store_step H s (s\<lparr>sdb := d'\<rparr>)"
| step_reclaim: "ReclaimExpired now (sdb s) = Inr (m, d') \<Longrightarrow> store_step H s (s\<lparr>sdb := d'\<rparr>)"
| step_register: "store_step H s (s\<lparr>sdb := RegisterWorker now worker (sdb s)\<rparr>)"
| step_worker_heartbeat: "store_step H s (s\<lparr>sdb := WorkerHeartbeat now worker (sdb s)\<rparr>)"

inductive reachable :: "hash \<Rightarrow> sys \<Rightarrow> bool" for H where
  reach_init: "reachable H init_sys"
| reach_step: "reachable H s \<Longrightarrow> store_step H s s' \<Longrightarrow> reachable H s'"

inductive_cases store_stepE: "store_step H s s'"

section \<open>The lease discipline\<close>

text \<open>
  A row that carries the token of a value is the job the value was read from, with the
  same attempt; every running job was claimed; values are never ahead of their rows.
\<close>

definition leases_ok :: "db \<Rightarrow> job list \<Rightarrow> bool" where
  "leases_ok d vs \<longleftrightarrow> distinct (map LeaseToken vs)
   \<and> (\<forall>v \<in> set vs. \<forall>r \<in> set (jobs d). r_lease_token r = Some (LeaseToken v)
        \<longrightarrow> agrees v r \<and> r_locked_by r = Some (LockedBy v))
   \<and> (\<forall>r \<in> set (jobs d). r_status r = StatusRunning
        \<longrightarrow> (\<exists>v \<in> set vs. r_lease_token r = Some (LeaseToken v)))
   \<and> (\<forall>v \<in> set vs. \<exists>r \<in> set (jobs d). r_id r = ID v \<and> Attempts v \<le> r_attempts r)"

text \<open>The attempt rows of a job are exactly its attempts, one each.\<close>

definition attempt_pairs :: "db \<Rightarrow> (id \<times> int) set" where
  "attempt_pairs d = {(i, k). \<exists>r \<in> set (jobs d). r_id r = i \<and> 1 \<le> k \<and> k \<le> r_attempts r}"

definition attempts_ok :: "db \<Rightarrow> bool" where
  "attempts_ok d \<longleftrightarrow> distinct (attempt_keys d) \<and> set (attempt_keys d) = attempt_pairs d"

definition sys_inv :: "sys \<Rightarrow> bool" where
  "sys_inv s \<longleftrightarrow> jobs_inv (sdb s) \<and> leases_ok (sdb s) (issued s) \<and> attempts_ok (sdb s)"

lemma leases_value_ok: "leases_ok d vs \<Longrightarrow> v \<in> set vs \<Longrightarrow> value_ok v d"
  by (auto simp: leases_ok_def value_ok_def owns_def)

text \<open>A statement that keeps attempts and hands out no lease keeps the discipline.\<close>

lemma stmt_keeps_tokens:
  assumes "stmt keeps d d'" "r' \<in> set (jobs d')" "r_lease_token r' = Some t"
  obtains r where "r \<in> set (jobs d)" "r_lease_token r = Some t" "r_locked_by r' = r_locked_by r"
    "same_identity r r'" "r_attempts r' = r_attempts r"
  using assms(1)
proof (cases rule: stmt.cases)
  case (stmt_update p f)
  then have "r' \<in> set (upd_where p f (jobs d))" using assms(2) by simp
  then show ?thesis
  proof (cases rule: upd_where_cases)
    case (1 r)
    have "keeps r (f r)" using stmt_update(2) 1 by blast
    then show ?thesis using 1 assms(3) by (intro that [of r]) (auto simp: keeps_def legal_def)
  next
    case 2
    then show ?thesis using assms(3) by (intro that [of r']) (auto simp: same_identity_def)
  qed
next
  case (stmt_insert r b)
  have "r_lease_token r = None" using stmt_insert(2) by (auto simp: fresh_row_def row_ok_def)
  then have "r' \<in> set (jobs d)" using stmt_insert(1) assms(2,3) by (auto elim!: insert_job_cases)
  then show ?thesis using assms(3) by (intro that [of r']) (auto simp: same_identity_def)
next
  case stmt_other
  then show ?thesis using assms(2,3) by (intro that [of r']) (auto simp: same_identity_def)
qed

text \<open>Rows after a statement that keeps attempts: their pairs of id and attempt count persist.\<close>

lemma stmt_keeps_forward:
  assumes "stmt keeps d d'" "r \<in> set (jobs d)"
  shows "\<exists>r' \<in> set (jobs d'). r_id r' = r_id r \<and> r_attempts r' = r_attempts r"
proof -
  have "r_id r' = r_id r" if "keeps r r'" for r r' using that by (simp add: keeps_def legal_identity)
  from stmt_rows [OF assms(1) this assms(2)] show ?thesis
    by (auto simp: keeps_def dest: legal_identity(1))
qed

lemma stmt_keeps_backward:
  assumes "stmt keeps d d'" "r' \<in> set (jobs d')"
  shows "r_attempts r' = 0 \<or> (\<exists>r \<in> set (jobs d). r_id r' = r_id r \<and> r_attempts r' = r_attempts r)"
  using assms(1)
proof (cases rule: stmt.cases)
  case (stmt_update p f)
  then show ?thesis using assms(2) by (auto simp: keeps_def dest: legal_identity(1) elim!: upd_where_cases)
next
  case (stmt_insert r b)
  then show ?thesis using assms(2) by (auto simp: fresh_row_def elim!: insert_job_cases)
next
  case stmt_other
  then show ?thesis using assms(2) by auto
qed

lemma stmt_keeps_running:
  assumes "stmt keeps d d'" "jobs_inv d" "r' \<in> set (jobs d')" "r_status r' = StatusRunning"
  shows "\<exists>t. r_lease_token r' = Some t"
proof -
  have "jobs_inv d'" using assms(1,2) by (blast intro: stmt_jobs_inv stmt_mono keeps_legal)
  then have "row_ok r'" using assms(3) by (rule jobs_invD(2))
  with assms(4) show ?thesis by (auto simp: row_ok_def)
qed

lemma same_identity_agrees:
  "same_identity r r' \<Longrightarrow> r_attempts r' = r_attempts r \<Longrightarrow> agrees v r \<Longrightarrow> agrees v r'"
  by (simp add: same_identity_def agrees_def)

text \<open>A row that carries a token was running, so the token was issued.\<close>

lemma token_issued:
  assumes "leases_ok d vs" "jobs_inv d" "r \<in> set (jobs d)" "r_lease_token r = Some t"
  shows "\<exists>v \<in> set vs. LeaseToken v = t"
proof -
  have "r_status r = StatusRunning" using jobs_invD(2) [OF assms(2,3)] assms(4) by (auto simp: row_ok_def)
  then obtain v where "v \<in> set vs" "r_lease_token r = Some (LeaseToken v)"
    using assms(1,3) by (auto simp: leases_ok_def)
  with assms(4) show ?thesis by auto
qed

lemma stmt_leases:
  assumes st: "stmt keeps d d'" and inv: "jobs_inv d" and ok: "leases_ok d vs"
  shows "leases_ok d' vs"
  unfolding leases_ok_def
proof (intro conjI ballI impI)
  show "distinct (map LeaseToken vs)" using ok by (simp add: leases_ok_def)
next
  fix v r' assume v: "v \<in> set vs" and r': "r' \<in> set (jobs d')"
    and t: "r_lease_token r' = Some (LeaseToken v)"
  obtain r where r: "r \<in> set (jobs d)" "r_lease_token r = Some (LeaseToken v)"
    "r_locked_by r' = r_locked_by r" "same_identity r r'" "r_attempts r' = r_attempts r"
    using stmt_keeps_tokens [OF st r' t] .
  have "agrees v r" "r_locked_by r = Some (LockedBy v)" using ok v r(1,2) by (auto simp: leases_ok_def)
  then show "agrees v r'" "r_locked_by r' = Some (LockedBy v)"
    using r(3) same_identity_agrees [OF r(4,5)] by auto
next
  fix r' assume r': "r' \<in> set (jobs d')" "r_status r' = StatusRunning"
  obtain t where t: "r_lease_token r' = Some t" using stmt_keeps_running [OF st inv r'] by blast
  obtain r where "r \<in> set (jobs d)" "r_lease_token r = Some t"
    using stmt_keeps_tokens [OF st r'(1) t] by blast
  from token_issued [OF ok inv this] t show "\<exists>v \<in> set vs. r_lease_token r' = Some (LeaseToken v)"
    by auto
next
  fix v assume "v \<in> set vs"
  then obtain r where "r \<in> set (jobs d)" "r_id r = ID v" "Attempts v \<le> r_attempts r"
    using ok by (auto simp: leases_ok_def)
  with stmt_keeps_forward [OF st this(1)]
  show "\<exists>r \<in> set (jobs d'). r_id r = ID v \<and> Attempts v \<le> r_attempts r" by auto
qed

lemma stmts_leases:
  assumes "stmts keeps d d'" "jobs_inv d" "leases_ok d vs"
  shows "leases_ok d' vs"
  using assms
proof (induction rule: rtranclp_induct)
  case (step d1 d2)
  have "jobs_inv d1" using stmts_mono [OF step(1) keeps_legal] step(4) by (rule stmts_jobs_inv)
  then show ?case using stmt_leases [OF step(2)] step by simp
qed

lemma stmt_attempt_pairs: "stmt keeps d d' \<Longrightarrow> attempt_pairs d' = attempt_pairs d"
  using stmt_keeps_forward [of d d'] stmt_keeps_backward [of d d']
  unfolding attempt_pairs_def by fastforce

lemma stmts_attempt_pairs: "stmts keeps d d' \<Longrightarrow> attempt_pairs d' = attempt_pairs d"
  by (induction rule: rtranclp_induct) (auto dest: stmt_attempt_pairs)

section \<open>Claims and leases\<close>

lemma claim_row_simps [simp]:
  "r_id (claim_row now lease w t r) = r_id r" "r_status (claim_row now lease w t r) = StatusRunning"
  "r_attempts (claim_row now lease w t r) = r_attempts r + 1"
  "r_lease_token (claim_row now lease w t r) = Some t" "r_locked_by (claim_row now lease w t r) = Some w"
  by (simp_all add: claim_row_def)

lemma Claim_rows:
  assumes C: "Claim now token worker lease d = Inr (Some v, d')" and inv: "jobs_inv d"
  obtains r where "r \<in> set (jobs d)" "claimable now r"
    "v = scanServiceJob (claim_row now lease worker token r)"
    "set (jobs d') = insert (claim_row now lease worker token r) (set (jobs d) - {r})"
    "attempt_keys d' = attempt_keys d @ [(r_id r, r_attempts r + 1)]"
    "\<And>x. x \<in> set (jobs d) \<Longrightarrow> r_id x = r_id r \<Longrightarrow> x = r"
  using C
proof (cases rule: Claim_cases)
  case (1 r)
  note r = next_claim_SomeD [OF 1(1)]
  have uniq: "x = r" if "x \<in> set (jobs d)" "r_id x = r_id r" for x
    using jobs_table.keyed_unique [OF jobs_invD(1) [OF inv] that(1) r(1) that(2)] .
  have "set (jobs d') = insert (claim_row now lease worker token r) (set (jobs d) - {r})"
  proof -
    have "(\<lambda>x. if r_id x = r_id r then claim_row now lease worker token x else x) ` set (jobs d)
      = (\<lambda>x. if x = r then claim_row now lease worker token r else x) ` set (jobs d)"
      using uniq by (intro image_cong) auto
    also have "\<dots> = insert (claim_row now lease worker token r) (set (jobs d) - {r})"
      using r(1) by auto
    finally show ?thesis by (simp add: 1(3) set_upd_where)
  qed
  then show ?thesis using that [OF r(1,2) 1(2) _ 1(4) uniq] by blast
qed

lemma Claim_leases:
  assumes C: "Claim now token worker lease d = Inr (Some v, d')" and inv: "jobs_inv d"
    and ok: "leases_ok d vs" and fresh: "token \<notin> LeaseToken ` set vs"
  shows "leases_ok d' (vs @ [v])"
  using C inv
proof (cases rule: Claim_rows)
  case (1 r)
  let ?r' = "claim_row now lease worker token r"
  have tokv: "LeaseToken v = token" "LockedBy v = worker" "agrees v ?r'" "ID v = r_id r" "Attempts v = r_attempts r + 1"
    using 1(3) by simp_all
  have notok: "r_lease_token x \<noteq> Some token" if "x \<in> set (jobs d)" for x
    using token_issued [OF ok inv that] fresh by auto
  have old: "w \<in> set vs \<Longrightarrow> LeaseToken w \<noteq> token" for w using fresh by auto
  show ?thesis
    unfolding leases_ok_def
  proof (intro conjI ballI impI)
    show "distinct (map LeaseToken (vs @ [v]))" using ok fresh tokv(1) by (auto simp: leases_ok_def)
  next
    fix w x assume "w \<in> set (vs @ [v])" "x \<in> set (jobs d')" "r_lease_token x = Some (LeaseToken w)"
    moreover from this have "w = v \<longleftrightarrow> x = ?r'" using 1(4) old notok tokv(1) by fastforce
    ultimately have "w = v \<and> x = ?r' \<or> w \<in> set vs \<and> x \<in> set (jobs d)"
      using 1(4) by auto
    then show "agrees w x" "r_locked_by x = Some (LockedBy w)"
      using ok \<open>r_lease_token x = Some (LeaseToken w)\<close> tokv(2,3) by (auto simp: leases_ok_def)
  next
    fix x assume "x \<in> set (jobs d')" "r_status x = StatusRunning"
    then show "\<exists>w \<in> set (vs @ [v]). r_lease_token x = Some (LeaseToken w)"
      using 1(4) ok tokv(1) by (auto simp: leases_ok_def)
  next
    fix w assume w: "w \<in> set (vs @ [v])"
    show "\<exists>x \<in> set (jobs d'). r_id x = ID w \<and> Attempts w \<le> r_attempts x"
    proof (cases "w \<in> set vs")
      case True
      then obtain x where x: "x \<in> set (jobs d)" "r_id x = ID w" "Attempts w \<le> r_attempts x"
        using ok by (auto simp: leases_ok_def)
      then show ?thesis using 1(4) by (cases "x = r") auto
    qed (use w tokv 1(4) in auto)
  qed
qed

lemma Claim_attempts:
  assumes C: "Claim now token worker lease d = Inr (Some v, d')" and inv: "jobs_inv d"
    and ok: "attempts_ok d"
  shows "attempts_ok d'"
  using C inv
proof (cases rule: Claim_rows)
  case (1 r)
  have nonneg: "0 \<le> r_attempts r" using jobs_invD(2) [OF inv 1(1)] by (simp add: row_ok_def)
  have "attempt_pairs d' = insert (r_id r, r_attempts r + 1) (attempt_pairs d)"
    using nonneg 1(1) unfolding attempt_pairs_def 1(4) by (force dest: 1(6))
  moreover have "(r_id r, r_attempts r + 1) \<notin> attempt_pairs d"
    using 1(6) by (fastforce simp: attempt_pairs_def)
  ultimately show ?thesis using ok 1(5) by (auto simp: attempts_ok_def)
qed

text \<open>In a state that keeps the attempt history, a claim never collides with it.\<close>

lemma Claim_total:
  assumes inv: "jobs_inv d" and ok: "attempts_ok d"
  shows "\<exists>v d'. Claim now token worker lease d = Inr (v, d')"
proof (cases "next_claim now d")
  case None
  then show ?thesis by (simp add: Claim_def)
next
  case (Some r)
  note r = next_claim_SomeD [OF Some]
  have "(r_id r, r_attempts r + 1) \<notin> attempt_pairs d"
    using jobs_table.keyed_unique [OF jobs_invD(1) [OF inv] _ r(1)] by (fastforce simp: attempt_pairs_def)
  then have "(r_id r, r_attempts r + 1) \<notin> set (attempt_keys d)" using ok by (simp add: attempts_ok_def)
  then show ?thesis using Some by (auto simp: Claim_def Let_def attempt_keys_def image_iff)
qed

section \<open>Every step keeps the invariant\<close>

text \<open>Only a claim adds attempt rows.\<close>

lemma attempt_keys_frame [simp]:
  "attempt_keys (complete_attempt now v d) = attempt_keys d"
  "attempt_keys (finish_attempt now v t k m d) = attempt_keys d"
  "attempt_keys (abandon_attempt now v d) = attempt_keys d"
  "attempt_keys (update_jobs p f d) = attempt_keys d"
  "attempt_keys (insert_event now i t' a w x d) = attempt_keys d"
  "attempt_keys (insert_dlq now i ty pl n e ki ro pa d) = attempt_keys d"
  "attempt_keys (insert_result i x d) = attempt_keys d"
  by (simp_all add: attempt_keys_def complete_attempt_def finish_attempt_def abandon_attempt_def)

lemma attempt_keys_insert: "insert_job r d = Inr (b, d') \<Longrightarrow> attempt_keys d' = attempt_keys d"
  by (auto simp: attempt_keys_def elim!: insert_job_cases)

lemma attempt_keys_Submit: "Submit H now i input d = Inr (res, d') \<Longrightarrow> attempt_keys d' = attempt_keys d"
  by (auto simp: Submit_def Let_def dest!: attempt_keys_insert
      split: sum.splits prod.splits if_splits option.splits)

lemma attempt_keys_finalizeRoot: "finalizeRoot now root d = Inr (u, d') \<Longrightarrow> attempt_keys d' = attempt_keys d"
  by (auto simp: finalizeRoot_def finalize_writes_def Let_def split: option.splits if_splits)

lemma attempt_keys_children:
  "insert_children H now newid n v cs d = Inr (u, d') \<Longrightarrow> attempt_keys d' = attempt_keys d"
proof (induction H now newid n v cs d rule: insert_children.induct)
  case (2 H now newid n v c cs d)
  from "2.prems" obtain d1 d2 where rel: "insertAuditRelationship (adopt v c) d = Inr ((), d1)"
    and sub: "insertSubmission H now (newid n) (adopt v c) d1 = Inr ((), d2)"
    and rest: "insert_children H now newid (Suc n) v cs d2 = Inr (u, d')"
    by (auto split: sum.splits)
  have "attempt_keys d1 = attempt_keys d"
    using rel by (auto simp: insertAuditRelationship_def Let_def attempt_keys_def split: option.splits if_splits)
  moreover have "attempt_keys d2 = attempt_keys d1"
    using sub by (auto simp: insertSubmission_def dest!: attempt_keys_insert split: sum.splits)
  ultimately show ?case using "2.IH" [OF rel _ sub _ rest] by simp
qed simp

lemma attempt_keys_Complete:
  "Complete H now newid v res d = Inr (u, d') \<Longrightarrow> attempt_keys d' = attempt_keys d"
proof (erule Complete_cases)
  fix d3 d4
  assume ch: "insert_children H now newid 0 v (Children res)
       (complete_attempt now v (update_jobs (owns v) (complete_row now (complete_status v res)) d)) = Inr ((), d3)"
    and ar: "insert_audit_result v (Result res) (store_result v (complete_status v res) (Result res) d3) = Inr ((), d4)"
    and fin: "let d5 = insert_event now (ID v) (status_text (complete_status v res)) (Some (Attempts v))
                (Some (LockedBy v)) (JObj []) d4
     in if complete_status v res = StatusCompleted \<and> ID v \<noteq> RootJobID v
        then finalizeRoot now (RootJobID v) d5 = Inr (u, d') else d' = d5"
  have "attempt_keys (store_result v (complete_status v res) (Result res) d3) = attempt_keys d3"
    by (simp add: store_result_def split: option.splits)
  moreover have "attempt_keys d4 = attempt_keys (store_result v (complete_status v res) (Result res) d3)"
    using ar by (auto simp: insert_audit_result_def Let_def attempt_keys_def split: option.splits if_splits)
  ultimately show "attempt_keys d' = attempt_keys d"
    using attempt_keys_children [OF ch] fin by (auto simp: Let_def dest!: attempt_keys_finalizeRoot split: if_splits)
qed

lemma attempt_keys_Fail: "Fail now v kind m t d = Inr (u, d') \<Longrightarrow> attempt_keys d' = attempt_keys d"
  by (erule Fail_cases) (auto simp: fail_writes_def Let_def dest!: attempt_keys_finalizeRoot)

lemma attempt_keys_Cancel: "Cancel now i d = Inr (w, d') \<Longrightarrow> attempt_keys d' = attempt_keys d"
  by (auto simp: Cancel_def cancel_commit_def Let_def split: option.splits status.splits)

lemma attempt_keys_reclaim_all: "reclaim_all now vs d = Inr (u, d') \<Longrightarrow> attempt_keys d' = attempt_keys d"
proof (induction now vs d rule: reclaim_all.induct)
  case (2 now v vs d)
  from "2.prems" obtain d1 where one: "reclaim_one now v d = Inr ((), d1)"
    and rest: "reclaim_all now vs d1 = Inr (u, d')" by (auto split: sum.splits)
  have "attempt_keys d1 = attempt_keys d"
    using one by (cases rule: reclaim_one_cases)
      (auto simp: reclaim_writes_def Let_def dest!: attempt_keys_finalizeRoot)
  with "2.IH" [OF one _ rest] show ?case by simp
qed simp

lemma attempt_keys_ReclaimExpired: "ReclaimExpired now d = Inr (m, d') \<Longrightarrow> attempt_keys d' = attempt_keys d"
  by (auto simp: ReclaimExpired_def Let_def dest: attempt_keys_reclaim_all split: sum.splits)

text \<open>Each step is a claim or a sequence of statements that start no attempt.\<close>

lemma store_step_cases:
  assumes st: "store_step H s s'" and inv: "sys_inv s"
  obtains now token worker lease v where
      "Claim now token worker lease (sdb s) = Inr (Some v, sdb s')" "issued s' = issued s @ [v]"
      "token \<notin> LeaseToken ` set (issued s)"
    | "stmts keeps (sdb s) (sdb s')" "issued s' = issued s" "attempt_keys (sdb s') = attempt_keys (sdb s)"
proof -
  have j: "jobs_inv (sdb s)" and val: "v \<in> set (issued s) \<Longrightarrow> value_ok v (sdb s)" for v
    using inv leases_value_ok by (auto simp: sys_inv_def)
  from st show ?thesis
  proof (cases rule: store_step.cases)
    case (step_claim now token worker lease v d')
    then show ?thesis by (intro that(1)) auto
  next
    case (step_submit now i input res d')
    then show ?thesis by (intro that(2)) (auto intro: Submit_keeps attempt_keys_Submit)
  next
    case (step_heartbeat now v lease b d')
    then show ?thesis by (intro that(2)) (auto intro: Heartbeat_keeps simp: Heartbeat_def Let_def)
  next
    case (step_complete now newid v res u d')
    then show ?thesis by (intro that(2)) (auto intro: Complete_keeps [OF _ j val] attempt_keys_Complete)
  next
    case (step_fail now v kind message retryAt u d')
    then show ?thesis by (intro that(2)) (auto intro: Fail_keeps [OF _ val] attempt_keys_Fail)
  next
    case (step_cancel now i w d')
    then show ?thesis by (intro that(2)) (auto intro: Cancel_keeps [OF _ j] attempt_keys_Cancel)
  next
    case (step_retry now newid i n w d')
    then show ?thesis
      by (intro that(2)) (auto intro: Retry_keeps [OF _ j] attempt_keys_Submit elim: Retry_cases)
  next
    case (step_replay now newid' e n w d')
    then show ?thesis
      by (intro that(2)) (auto intro: ReplayDLQ_keeps simp: attempt_keys_def elim: ReplayDLQ_cases)
  next
    case (step_reclaim now m d')
    then show ?thesis
      by (intro that(2)) (auto intro: ReclaimExpired_keeps [OF _ j] attempt_keys_ReclaimExpired)
  next
    case (step_register now worker)
    then show ?thesis by (intro that(2)) (auto intro: stmts_other simp: RegisterWorker_def attempt_keys_def)
  next
    case (step_worker_heartbeat now worker)
    then show ?thesis by (intro that(2)) (auto intro: stmts_other simp: WorkerHeartbeat_def attempt_keys_def)
  qed
qed

lemma store_step_legal:
  assumes "store_step H s s'" "sys_inv s"
  shows "stmts legal (sdb s) (sdb s')"
  using assms
proof (cases rule: store_step_cases)
  case 1
  then show ?thesis using Claim_legal assms(2) by (auto simp: sys_inv_def)
next
  case 2
  then show ?thesis by (blast intro: stmts_mono keeps_legal)
qed

lemma store_step_inv:
  assumes "store_step H s s'" "sys_inv s"
  shows "sys_inv s'"
proof -
  have j: "jobs_inv (sdb s)" "leases_ok (sdb s) (issued s)" "attempts_ok (sdb s)"
    using assms(2) by (auto simp: sys_inv_def)
  have "jobs_inv (sdb s')" using stmts_jobs_inv [OF store_step_legal [OF assms] j(1)] .
  moreover have "leases_ok (sdb s') (issued s') \<and> attempts_ok (sdb s')"
    using assms
  proof (cases rule: store_step_cases)
    case 1
    then show ?thesis using Claim_leases [OF 1(1) j(1,2) 1(3)] Claim_attempts [OF 1(1) j(1,3)] by simp
  next
    case 2
    then show ?thesis
      using stmts_leases [OF 2(1) j(1,2)] j(3) stmts_attempt_pairs [OF 2(1)] by (simp add: attempts_ok_def)
  qed
  ultimately show ?thesis by (simp add: sys_inv_def)
qed

lemma init_inv: "sys_inv init_sys"
  by (simp add: sys_inv_def init_sys_def empty_db_def jobs_inv_def leases_ok_def attempts_ok_def
      attempt_keys_def attempt_pairs_def jobs_table.keyed_def unique_keys_def)

lemma reachable_sys_inv: "reachable H s \<Longrightarrow> sys_inv s"
  by (induction rule: reachable.induct) (auto intro: init_inv store_step_inv)

end
