(* ===== verification/Store_Dlq.thy ===== *)
theory Store_Dlq
  imports Store_System
begin

text \<open>
  The dead-letter queue of \<^verbatim>\<open>service.go\<close>: entries are appended exactly when a job
  becomes dead-lettered, and a replay only marks its entry.
\<close>

section \<open>Growth of the queue\<close>

definition dead_ids :: "db \<Rightarrow> id set" where
  "dead_ids d = {r_id r |r. r \<in> set (jobs d) \<and> r_status r = StatusDeadLettered}"

text \<open>One new entry per newly dead-lettered job, numbered by the sequence.\<close>

definition dlq_grow :: "db \<Rightarrow> db \<Rightarrow> bool" where
  "dlq_grow d d' \<longleftrightarrow> (\<exists>new. dlq d' = dlq d @ new \<and> distinct (map d_job_id new)
     \<and> d_job_id ` set new = dead_ids d' - dead_ids d \<and> dead_ids d \<subseteq> dead_ids d'
     \<and> map d_id new = [dlq_seq d..dlq_seq d' - 1] \<and> dlq_seq d \<le> dlq_seq d')"

lemma dlq_grow_same:
  "dlq d' = dlq d \<Longrightarrow> dlq_seq d' = dlq_seq d \<Longrightarrow> dead_ids d' = dead_ids d \<Longrightarrow> dlq_grow d d'"
  by (simp add: dlq_grow_def)

lemma dlq_grow_trans:
  assumes "dlq_grow d d1" "dlq_grow d1 d2"
  shows "dlq_grow d d2"
proof -
  obtain m n where m: "dlq d1 = dlq d @ m" "distinct (map d_job_id m)"
      "d_job_id ` set m = dead_ids d1 - dead_ids d" "dead_ids d \<subseteq> dead_ids d1"
      "map d_id m = [dlq_seq d..dlq_seq d1 - 1]" "dlq_seq d \<le> dlq_seq d1"
    and n: "dlq d2 = dlq d1 @ n" "distinct (map d_job_id n)"
      "d_job_id ` set n = dead_ids d2 - dead_ids d1" "dead_ids d1 \<subseteq> dead_ids d2"
      "map d_id n = [dlq_seq d1..dlq_seq d2 - 1]" "dlq_seq d1 \<le> dlq_seq d2"
    using assms unfolding dlq_grow_def by blast
  have "[dlq_seq d..dlq_seq d2 - 1] = [dlq_seq d..dlq_seq d1 - 1] @ [dlq_seq d1..dlq_seq d2 - 1]"
    using upto_split2 [of "dlq_seq d" "dlq_seq d1 - 1" "dlq_seq d2 - 1"] m(6) n(6)
    by (cases "dlq_seq d = dlq_seq d1") simp_all
  then show ?thesis
    unfolding dlq_grow_def using m n by (intro exI [of _ "m @ n"]) (auto simp: image_Un)
qed

lemma dead_ids_frame: "jobs d' = jobs d \<Longrightarrow> dead_ids d' = dead_ids d"
  by (simp add: dead_ids_def)

lemma dead_ids_update:
  assumes "jobs d' = upd_where p f (jobs d)"
    "\<And>r. r \<in> set (jobs d) \<Longrightarrow> p r \<Longrightarrow> r_id (f r) = r_id r \<and> r_status (f r) \<noteq> StatusDeadLettered
       \<and> r_status r \<noteq> StatusDeadLettered"
  shows "dead_ids d' = dead_ids d"
  unfolding dead_ids_def assms(1) set_upd_where using assms(2) by force

lemma dead_ids_insert: "insert_job r d = Inr (b, d') \<Longrightarrow> r_status r = StatusPending \<Longrightarrow> dead_ids d' = dead_ids d"
  by (auto simp: dead_ids_def elim!: insert_job_cases)

text \<open>A job that leaves an active status for the dead-letter status, with its entry.\<close>

lemma dlq_grow_dead:
  assumes upd: "jobs d' = upd_where p f (jobs d)" and dlq: "dlq d' = dlq d @ [e]" "d_job_id e = i"
    "d_id e = dlq_seq d" "dlq_seq d' = dlq_seq d + 1"
    and r: "r \<in> set (jobs d)" "p r" and key: "jobs_table.keyed (jobs d)"
    and p: "\<And>r. p r \<Longrightarrow> r_id r = i \<and> r_status r \<noteq> StatusDeadLettered"
    and f: "\<And>r. r_id (f r) = r_id r \<and> r_status (f r) = StatusDeadLettered"
  shows "dlq_grow d d'"
proof -
  have uniq: "x = r" if "x \<in> set (jobs d)" "r_id x = i" for x
    using jobs_table.keyed_unique [OF key that(1) r(1)] that(2) p [OF r(2)] by simp
  have notin: "i \<notin> dead_ids d" using uniq p [OF r(2)] by (auto simp: dead_ids_def)
  have "dead_ids d' = insert i (dead_ids d)"
  proof (intro set_eqI iffI)
    fix x assume "x \<in> dead_ids d'"
    then obtain y where y: "y \<in> set (upd_where p f (jobs d))" "r_id y = x" "r_status y = StatusDeadLettered"
      by (auto simp: dead_ids_def upd)
    from y(1) show "x \<in> insert i (dead_ids d)"
      by (cases rule: upd_where_cases) (use y(2,3) p f in \<open>auto simp: dead_ids_def\<close>)
  next
    fix x assume "x \<in> insert i (dead_ids d)"
    then consider "x = i" | y where "y \<in> set (jobs d)" "r_id y = x" "r_status y = StatusDeadLettered"
      by (auto simp: dead_ids_def)
    then show "x \<in> dead_ids d'"
    proof cases
      case 1
      have "f r \<in> set (jobs d')" using r by (auto simp: upd set_upd_where)
      then show ?thesis using f [of r] p [OF r(2)] 1 unfolding dead_ids_def by (intro CollectI exI [of _ "f r"]) simp
    next
      case (2 y)
      then have "y \<in> set (jobs d')" using p [of y] by (force simp: upd set_upd_where)
      with 2 show ?thesis by (auto simp: dead_ids_def)
    qed
  qed
  then show ?thesis using dlq notin by (auto simp: dlq_grow_def)
qed

section \<open>Growth by operation\<close>

lemma finalize_row_simps [simp]:
  "r_id (finalize_row now st m r) = r_id r" "r_status (finalize_row now st m r) = st"
  by (simp_all add: finalize_row_def)

lemma finalize_writes_dlq:
  "if st = StatusDeadLettered
   then \<exists>e. dlq (finalize_writes now r st d) = dlq d @ [e] \<and> d_job_id e = r_id r \<and> d_id e = dlq_seq d
          \<and> dlq_seq (finalize_writes now r st d) = dlq_seq d + 1
   else dlq (finalize_writes now r st d) = dlq d \<and> dlq_seq (finalize_writes now r st d) = dlq_seq d"
  by (simp add: finalize_writes_def Let_def insert_dlq_def)

lemma finalizeRoot_grow:
  assumes F: "finalizeRoot now root d = Inr (u, d')" and key: "jobs_table.keyed (jobs d)"
  shows "dlq_grow d d'"
  using F
proof (cases rule: finalizeRoot_cases)
  case 1
  then show ?thesis by (simp add: dlq_grow_same)
next
  case (2 r x)
  let ?d = "finalize_writes now r (root_outcome root d) d"
  have "dlq_grow d ?d"
  proof (cases "root_outcome root d = StatusDeadLettered")
    case True
    then obtain e where e: "dlq ?d = dlq d @ [e]" "d_job_id e = r_id r" "d_id e = dlq_seq d"
      "dlq_seq ?d = dlq_seq d + 1"
      using finalize_writes_dlq [of "root_outcome root d" now r d] by auto
    show ?thesis
      by (rule dlq_grow_dead [OF finalize_writes_jobs e 2(3) _ key]) (use 2(2,4,5) True in auto)
  next
    case False
    then show ?thesis
      using finalize_writes_dlq [of "root_outcome root d" now r d]
      by (intro dlq_grow_same dead_ids_update [OF finalize_writes_jobs]) auto
  qed
  then show ?thesis using 2(7) by simp
qed

lemma finalizeRoot_keyed:
  "finalizeRoot now root d = Inr (u, d') \<Longrightarrow> jobs_table.keyed (jobs d') = jobs_table.keyed (jobs d)"
  by (erule finalizeRoot_cases) (simp_all add: jobs_table.keyed_upd_where)

lemma insert_job_grow:
  assumes "insert_job r d = Inr (b, d')" "r_status r = StatusPending"
  shows "dlq_grow d d'"
proof (rule dlq_grow_same)
  show "dlq d' = dlq d" "dlq_seq d' = dlq_seq d" using assms(1) by (auto elim!: insert_job_cases)
  show "dead_ids d' = dead_ids d" using assms by (rule dead_ids_insert)
qed

lemma grow_then_finalize:
  assumes "dlq_grow d d1" "finalizeRoot now root d1 = Inr (u, d')" "jobs_inv d" "stmts keeps d d1"
  shows "dlq_grow d d'"
proof -
  have "jobs_inv d1" using stmts_jobs_inv [OF stmts_mono [OF assms(4) keeps_legal] assms(3)] .
  then show ?thesis using dlq_grow_trans [OF assms(1) finalizeRoot_grow [OF assms(2) jobs_invD(1)]] by blast
qed

lemma Submit_grow: "Submit H now i input d = Inr (res, d') \<Longrightarrow> dlq_grow d d'"
proof (rule dlq_grow_same)
  assume S: "Submit H now i input d = Inr (res, d')"
  then obtain b d1 where ins: "insert_job (submit_row H now i (with_default_attempts input)) d = Inr (b, d1)"
    and d': "jobs d' = jobs d1" "dlq d' = dlq d1" "dlq_seq d' = dlq_seq d1"
    by (auto simp: Submit_def Let_def split: sum.splits prod.splits if_splits option.splits)
  have "dead_ids d1 = dead_ids d"
    using ins by (rule dead_ids_insert) (simp add: submit_row_def new_row_def)
  with d' show "dead_ids d' = dead_ids d" using dead_ids_frame by metis
  show "dlq d' = dlq d" "dlq_seq d' = dlq_seq d" using ins d' by (auto elim!: insert_job_cases)
qed

lemma insert_children_grow:
  "insert_children H now newid n v cs d = Inr (u, d') \<Longrightarrow> dlq_grow d d'"
proof (induction H now newid n v cs d rule: insert_children.induct)
  case (1 H now newid n v d)
  then show ?case by (simp add: dlq_grow_same)
next
  case (2 H now newid n v c cs d)
  from "2.prems" obtain d1 d2 where rel: "insertAuditRelationship (adopt v c) d = Inr ((), d1)"
    and sub: "insertSubmission H now (newid n) (adopt v c) d1 = Inr ((), d2)"
    and rest: "insert_children H now newid (Suc n) v cs d2 = Inr (u, d')"
    by (auto split: sum.splits)
  have g1: "dlq_grow d d1"
    using rel by (intro dlq_grow_same)
      (auto simp: insertAuditRelationship_def Let_def dead_ids_def split: option.splits if_splits)
  from sub obtain b where
    ins: "insert_job (child_row H now (newid n) (with_default_attempts (adopt v c))) d1 = Inr (b, d2)"
    by (auto simp: insertSubmission_def split: sum.splits prod.splits)
  have "dlq_grow d1 d2" by (rule insert_job_grow [OF ins]) (simp add: child_row_def new_row_def)
  moreover have "dlq_grow d2 d'" using "2.IH" [OF rel _ sub _ rest] by simp
  ultimately show ?case using g1 by (meson dlq_grow_trans)
qed

lemma Complete_grow:
  assumes C: "Complete H now newid v res d = Inr (u, d')" and inv: "jobs_inv d" and v: "value_ok v d"
    and lim: "\<forall>c \<in> set (Children res). valid_limit c"
  shows "dlq_grow d d'"
  using C
proof (cases rule: Complete_cases)
  case (1 d3 d4)
  let ?d2 = "complete_attempt now v (update_jobs (owns v) (complete_row now (complete_status v res)) d)"
  let ?d5 = "insert_event now (ID v) (status_text (complete_status v res)) (Some (Attempts v))
                (Some (LockedBy v)) (JObj []) d4"
  have "dead_ids ?d2 = dead_ids d"
    by (rule dead_ids_update [where p = "owns v" and f = "complete_row now (complete_status v res)"])
      (auto simp: complete_row_def release_row_def owns_def complete_status_def)
  then have "dlq_grow d ?d2"
    by (intro dlq_grow_same) (simp_all add: complete_attempt_def)
  then have g3: "dlq_grow d d3" by (rule dlq_grow_trans [OF _ insert_children_grow [OF 1(2)]])
  have s: "dlq (store_result v st x d3) = dlq d3" "dlq_seq (store_result v st x d3) = dlq_seq d3" for st x
    by (simp_all add: store_result_def split: option.splits)
  have "dlq d4 = dlq d3 \<and> dlq_seq d4 = dlq_seq d3"
    using 1(3) s by (auto simp: insert_audit_result_def Let_def split: option.splits if_splits)
  moreover have "jobs ?d5 = jobs d3" using insert_audit_result_jobs [OF 1(3)] by simp
  ultimately have "dlq_grow d3 ?d5" by (intro dlq_grow_same dead_ids_frame) simp_all
  then have g5: "dlq_grow d ?d5" by (rule dlq_grow_trans [OF g3])
  show ?thesis
  proof (cases "complete_status v res = StatusCompleted \<and> ID v \<noteq> RootJobID v")
    case True
    then have fin: "finalizeRoot now (RootJobID v) ?d5 = Inr (u, d')" using 1(4) by (simp add: Let_def)
    have "jobs_inv d'"
      using stmts_jobs_inv [OF stmts_mono [OF Complete_keeps [OF C inv v lim] keeps_legal] inv] .
    then have "jobs_table.keyed (jobs ?d5)" using finalizeRoot_keyed [OF fin] jobs_invD(1) by blast
    with g5 show ?thesis using finalizeRoot_grow [OF fin] dlq_grow_trans by blast
  next
    case False
    then show ?thesis using 1(4) g5 by (auto simp: Let_def)
  qed
qed

lemma fail_row_simps [simp]:
  "r_id (fail_row now st t k m r) = r_id r" "r_status (fail_row now st t k m r) = st"
  by (simp_all add: fail_row_def release_row_def)

lemma reclaim_row_simps [simp]:
  "r_id (reclaim_row now st r) = r_id r" "r_status (reclaim_row now st r) = st"
  by (simp_all add: reclaim_row_def release_row_def)

lemma Fail_grow:
  assumes F: "Fail now v kind m t d = Inr (u, d')" and inv: "jobs_inv d" and v: "value_ok v d"
  shows "dlq_grow d d'"
proof -
  let ?d = "fail_writes now v kind (boundedError m) t d"
  have own: "count_where (owns v) (jobs d) = 1" using F by (rule Fail_cases)
  obtain r where r: "r \<in> set (jobs d)" "owns v r" by (rule count_ownsE [OF own v])
  have grow: "dlq_grow d ?d"
  proof (cases "fail_status v kind = StatusDeadLettered")
    case True
    have "\<exists>e. dlq ?d = dlq d @ [e] \<and> d_job_id e = ID v \<and> d_id e = dlq_seq d \<and> dlq_seq ?d = dlq_seq d + 1"
      using True by (simp add: fail_writes_def Let_def insert_dlq_def finish_attempt_def)
    then show ?thesis
      using r True by (elim exE conjE, intro dlq_grow_dead [OF fail_writes_simps(1) _ _ _ _ r jobs_invD(1) [OF inv]])
        (auto simp: owns_def)
  next
    case False
    then show ?thesis
      by (intro dlq_grow_same dead_ids_update [OF fail_writes_simps(1)])
        (auto simp: fail_writes_def Let_def owns_def finish_attempt_def)
  qed
  from F show ?thesis
    by (cases rule: Fail_cases) (auto intro: grow_then_finalize [OF grow _ inv fail_writes_keeps [OF v]] grow)
qed

lemma Cancel_dlq: "Cancel now i d = Inr (w, d') \<Longrightarrow> dlq d' = dlq d \<and> dlq_seq d' = dlq_seq d"
  by (auto simp: Cancel_def cancel_commit_def Let_def split: option.splits status.splits)

lemma Cancel_dead:
  assumes C: "Cancel now i d = Inr (w, d')" and inv: "jobs_inv d"
  shows "dead_ids d' = dead_ids d"
  using C inv
proof (cases rule: Cancel_cases)
  case (one v)
  show ?thesis
    by (rule dead_ids_update [OF one(5)]) (use one(3,4) in \<open>force simp: cancel_row_def\<close>)
next
  case (req v)
  show ?thesis
    by (rule dead_ids_update [OF req(5)]) (use req(3,4) in \<open>force simp: request_cancel_row_def\<close>)
next
  case (tree v)
  let ?p = "\<lambda>r. r_root_job_id r = r_root_job_id v
          \<and> r_status r \<in> {StatusPending, StatusRetryScheduled, StatusWaiting}"
  have "dead_ids d' = dead_ids (update_jobs ?p (cancel_row now) d)"
    by (rule dead_ids_update [where p = "\<lambda>r. r_root_job_id r = r_root_job_id v \<and> r_status r = StatusRunning"
          and f = "request_cancel_row now"]) (auto simp: tree(4) request_cancel_row_def)
  also have "\<dots> = dead_ids d"
    by (rule dead_ids_update [where p = ?p and f = "cancel_row now"]) (auto simp: cancel_row_def)
  finally show ?thesis .
qed simp

lemma reclaim_one_grow:
  assumes R: "reclaim_one now v d = Inr (u, d')" and inv: "jobs_inv d" and v: "reclaimable d v"
  shows "dlq_grow d d'"
proof -
  let ?d = "reclaim_writes now v d"
  from v obtain r where r: "r \<in> set (jobs d)" "r_id r = ID v" "r_status r = StatusRunning"
    by (auto simp: reclaimable_def job_exists_def)
  have run: "r_status x = StatusRunning" if "x \<in> set (jobs d)" "r_id x = ID v" for x
    using v that by (simp add: reclaimable_def)
  have upd: "jobs ?d = upd_where (\<lambda>x. r_id x = ID v \<and> r_status x = StatusRunning)
      (reclaim_row now (reclaim_status v)) (jobs d)"
    using run by (simp add: upd_where_def)
  have grow: "dlq_grow d ?d"
  proof (cases "reclaim_status v = StatusDeadLettered")
    case True
    have "\<exists>e. dlq ?d = dlq d @ [e] \<and> d_job_id e = ID v \<and> d_id e = dlq_seq d \<and> dlq_seq ?d = dlq_seq d + 1"
      using True by (simp add: reclaim_writes_def Let_def insert_dlq_def abandon_attempt_def)
    then obtain e where e: "dlq ?d = dlq d @ [e]" "d_job_id e = ID v" "d_id e = dlq_seq d"
      "dlq_seq ?d = dlq_seq d + 1" by blast
    show ?thesis
      by (rule dlq_grow_dead [OF upd e r(1) _ jobs_invD(1) [OF inv]]) (use r True in auto)
  next
    case False
    then show ?thesis
      by (intro dlq_grow_same dead_ids_update [OF upd])
        (auto simp: reclaim_writes_def Let_def abandon_attempt_def)
  qed
  from R show ?thesis
    by (cases rule: reclaim_one_cases)
      (auto intro: grow_then_finalize [OF grow _ inv reclaim_writes_keeps [OF v]] grow)
qed

lemma reclaim_all_grow:
  assumes "reclaim_all now vs d = Inr (u, d')" "distinct (map ID vs)" "\<forall>v \<in> set vs. reclaimable d v"
    "jobs_inv d"
  shows "dlq_grow d d'"
  using assms
proof (induction now vs d rule: reclaim_all.induct)
  case (1 now d)
  then show ?case by (simp add: dlq_grow_same)
next
  case (2 now v vs d)
  from "2.prems"(1) obtain d1 where one: "reclaim_one now v d = Inr ((), d1)"
    and rest: "reclaim_all now vs d1 = Inr (u, d')" by (auto split: sum.splits)
  have v: "reclaimable d v" using "2.prems"(3) by simp
  have "\<forall>w \<in> set vs. reclaimable d1 w"
    using "2.prems"(2,3) reclaim_one_others [OF one] by (metis distinct.simps(2) image_eqI list.set_intros(2) list.set_map list.simps(9))
  moreover have "jobs_inv d1"
    using stmts_jobs_inv [OF stmts_mono [OF reclaim_one_keeps [OF one v] keeps_legal] "2.prems"(4)] .
  ultimately have "dlq_grow d1 d'" using "2.IH" [OF one _ rest] "2.prems"(2) by simp
  then show ?case using reclaim_one_grow [OF one "2.prems"(4) v] dlq_grow_trans by blast
qed

lemma ReclaimExpired_grow:
  assumes "ReclaimExpired now d = Inr (n, d')" "jobs_inv d"
  shows "dlq_grow d d'"
proof -
  let ?vs = "map scanServiceJob (filter (expired now) (jobs d))"
  have key: "jobs_table.keyed (jobs d)" by (rule jobs_invD(1) [OF assms(2)])
  have "reclaim_all now ?vs d = Inr ((), d')"
    using assms(1) by (auto simp: ReclaimExpired_def Let_def split: sum.splits)
  then show ?thesis
    by (rule reclaim_all_grow [OF _ expired_distinct [OF key] _ assms(2)])
      (use expired_reclaimable [OF key] in auto)
qed

section \<open>The queue holds exactly the dead-lettered jobs\<close>

definition dlq_ok :: "db \<Rightarrow> bool" where
  "dlq_ok d \<longleftrightarrow> distinct (map d_job_id (dlq d)) \<and> d_job_id ` set (dlq d) = dead_ids d
     \<and> distinct (map d_id (dlq d)) \<and> (\<forall>x \<in> set (dlq d). d_id x < dlq_seq d)"

lemma dlq_grow_ok:
  assumes "dlq_grow d d'" "dlq_ok d"
  shows "dlq_ok d'"
proof -
  obtain new where n: "dlq d' = dlq d @ new" "distinct (map d_job_id new)"
      "d_job_id ` set new = dead_ids d' - dead_ids d" "dead_ids d \<subseteq> dead_ids d'"
      "map d_id new = [dlq_seq d..dlq_seq d' - 1]" "dlq_seq d \<le> dlq_seq d'"
    using assms(1) unfolding dlq_grow_def by blast
  have ids: "d_id ` set new = {dlq_seq d..dlq_seq d' - 1}" using n(5) by (metis list.set_map set_upto)
  then have "\<forall>x \<in> set new. dlq_seq d \<le> d_id x \<and> d_id x < dlq_seq d'" by force
  moreover have "distinct (map d_id new)" using n(5) by simp
  moreover have "\<forall>x \<in> set (dlq d). d_id x < dlq_seq d" "distinct (map d_id (dlq d))"
    using assms(2) by (auto simp: dlq_ok_def)
  ultimately have "distinct (map d_id (dlq d @ new))" "\<forall>x \<in> set (dlq d @ new). d_id x < dlq_seq d'"
    using n(6) by fastforce+
  moreover have "distinct (map d_job_id (dlq d @ new))" "d_job_id ` set (dlq d @ new) = dead_ids d'"
    using n(2,3,4) assms(2) by (auto simp: dlq_ok_def image_Un)
  ultimately show ?thesis unfolding dlq_ok_def n(1) by blast
qed

text \<open>A replay writes the marks of one entry and leaves the rest of the queue alone.\<close>

definition dlq_mark :: "time \<Rightarrow> int \<Rightarrow> id \<Rightarrow> db \<Rightarrow> db \<Rightarrow> bool" where
  "dlq_mark now e newid d d' \<longleftrightarrow>
     (\<exists>x \<in> set (dlq d). d_id x = e \<and> coalesce (d_replayed_as_job_id x) = [])
     \<and> dlq d' = upd_where (\<lambda>x. d_id x = e)
         (\<lambda>x. x\<lparr>d_replayed_at := Some now, d_replayed_as_job_id := Some newid\<rparr>) (dlq d)
     \<and> dlq_seq d' = dlq_seq d \<and> dead_ids d' = dead_ids d"

lemma ReplayDLQ_seq: "ReplayDLQ now newid e n d = Inr (w, d') \<Longrightarrow> dlq_seq d' = dlq_seq d"
  by (auto simp: ReplayDLQ_def Let_def elim!: insert_job_cases split: option.splits sum.splits if_splits)

lemma ReplayDLQ_mark:
  assumes "ReplayDLQ now newid e n d = Inr (w, d')"
  shows "dlq_mark now e newid d d'"
  using assms
proof (cases rule: ReplayDLQ_cases)
  case (1 source row)
  have "dead_ids d' = dead_ids (d\<lparr>jobs := jobs d @ [row]\<rparr>)" by (rule dead_ids_frame) (simp add: 1(5))
  also have "\<dots> = dead_ids d"
    by (rule dead_ids_insert [OF 1(4)]) (simp add: 1(3) replay_row_def new_row_def)
  finally show ?thesis
    using 1(1,2,8) ReplayDLQ_seq [OF assms] by (auto simp: dlq_mark_def find_dlq_def dest: find_SomeD)
qed

lemma dlq_mark_ok: "dlq_mark now e newid d d' \<Longrightarrow> dlq_ok d \<Longrightarrow> dlq_ok d'"
proof -
  assume m: "dlq_mark now e newid d d'" and ok: "dlq_ok d"
  have "map d_job_id (dlq d') = map d_job_id (dlq d)" "map d_id (dlq d') = map d_id (dlq d)"
    using m by (simp_all add: dlq_mark_def)
  moreover from this have "d_job_id ` set (dlq d') = d_job_id ` set (dlq d)"
      "d_id ` set (dlq d') = d_id ` set (dlq d)" by (metis list.set_map)+
  moreover have "dlq_seq d' = dlq_seq d" "dead_ids d' = dead_ids d" using m by (auto simp: dlq_mark_def)
  moreover have "\<forall>k \<in> d_id ` set (dlq d). k < dlq_seq d" using ok by (simp add: dlq_ok_def)
  ultimately show "dlq_ok d'" using ok unfolding dlq_ok_def by (metis image_eqI)
qed

lemma store_step_dlq:
  assumes st: "store_step H s s'" and inv: "sys_inv s"
  shows "dlq_grow (sdb s) (sdb s') \<or> (\<exists>now e newid. dlq_mark now e newid (sdb s) (sdb s'))"
proof -
  have j: "jobs_inv (sdb s)" and val: "v \<in> set (issued s) \<Longrightarrow> value_ok v (sdb s)" for v
    using inv leases_value_ok by (auto simp: sys_inv_def)
  from st show ?thesis
  proof (cases rule: store_step.cases)
    case (step_claim now token worker lease v d')
    from step_claim(2) show ?thesis
    proof (cases rule: Claim_cases)
      case (1 r)
      note r = next_claim_SomeD [OF 1(1)]
      have "dead_ids d' = dead_ids (sdb s)"
      proof (rule dead_ids_update [OF 1(3)])
        fix x assume "x \<in> set (jobs (sdb s))" "r_id x = r_id r"
        then have "x = r" using jobs_table.keyed_unique [OF jobs_invD(1) [OF j]] r(1) by blast
        then show "r_id (claim_row now lease worker token x) = r_id x
            \<and> r_status (claim_row now lease worker token x) \<noteq> StatusDeadLettered \<and> r_status x \<noteq> StatusDeadLettered"
          using r(2) by (auto simp: claimable_def)
      qed
      moreover have "dlq_seq d' = dlq_seq (sdb s)"
        using step_claim(2) by (auto simp: Claim_def Let_def split: option.splits if_splits)
      ultimately show ?thesis using step_claim(1) 1(5) by (auto intro: dlq_grow_same)
    qed
  next
    case (step_submit now i input res d')
    then show ?thesis by (auto intro: Submit_grow)
  next
    case (step_heartbeat now v lease b d')
    then have "dead_ids d' = dead_ids (sdb s)"
      by (intro dead_ids_update [of _ "\<lambda>r. owns v r \<and> r_cancel_requested_at r = None"
            "\<lambda>r. r\<lparr>r_locked_until := Some (now + lease), r_heartbeat_at := Some now\<rparr>"])
        (auto simp: Heartbeat_def Let_def owns_def)
    with step_heartbeat show ?thesis by (auto intro!: dlq_grow_same simp: Heartbeat_def Let_def)
  next
    case (step_complete now newid v res u d')
    then show ?thesis by (auto intro: Complete_grow [OF _ j val])
  next
    case (step_fail now v kind message retryAt u d')
    then show ?thesis by (auto intro: Fail_grow [OF _ j val])
  next
    case (step_cancel now i w d')
    then show ?thesis using Cancel_dlq Cancel_dead [OF _ j] by (auto intro!: dlq_grow_same)
  next
    case (step_retry now newid i n w d')
    from step_retry(2) have "dlq_grow (sdb s) d'" by (rule Retry_cases) (rule Submit_grow)
    with step_retry show ?thesis by simp
  next
    case (step_replay now newid' e n w d')
    then show ?thesis using ReplayDLQ_mark by fastforce
  next
    case (step_reclaim now m d')
    then show ?thesis by (auto intro: ReclaimExpired_grow [OF _ j])
  next
    case (step_register now worker)
    then show ?thesis by (auto intro!: dlq_grow_same dead_ids_frame simp: RegisterWorker_def)
  next
    case (step_worker_heartbeat now worker)
    then show ?thesis by (auto intro!: dlq_grow_same dead_ids_frame simp: WorkerHeartbeat_def)
  qed
qed

lemma reachable_dlq_ok: "reachable H s \<Longrightarrow> dlq_ok (sdb s)"
proof (induction rule: reachable.induct)
  case reach_init
  show ?case by (simp add: dlq_ok_def init_sys_def empty_db_def dead_ids_def)
next
  case (reach_step s s')
  from store_step_dlq [OF reach_step(2) reachable_sys_inv [OF reach_step(1)]] reach_step(3)
  show ?case by (auto intro: dlq_grow_ok dlq_mark_ok)
qed

end
