(* ===== verification/Store_Demo.thy ===== *)
theory Store_Demo
  imports Store_Dlq
begin

text \<open>
  One concrete history of the service, evaluated step by step: a job is submitted,
  claimed, loses its lease, is claimed again, fails for the last time, is dead-lettered and
  replayed. The states of this run show that the hypotheses of the general theorems can
  hold.
\<close>

definition demo_hash :: hash where
  "demo_hash t n p = t"

definition demo_input :: submission where
  "demo_input = (submission_of ''demo'' (Some (JStr ''x'')) 2)\<lparr>sIdempotencyKey := ''k''\<rparr>"

definition committed :: "'a tx \<Rightarrow> db" where
  "committed x = snd (projr x)"

lemma committed_eq: "\<not> isl x \<Longrightarrow> x = Inr (fst (projr x), committed x)"
  by (cases x) (simp_all add: committed_def)

definition demo_claim :: "time \<Rightarrow> string \<Rightarrow> db \<Rightarrow> job option tx" where
  "demo_claim now token d = Claim now token ''w'' 10 d"

definition demo_d1 :: db where "demo_d1 = committed (Submit demo_hash 0 ''r'' demo_input empty_db)"
definition demo_d2 :: db where "demo_d2 = committed (demo_claim 1 ''t1'' demo_d1)"
definition demo_v1 :: job where "demo_v1 = the (fst (projr (demo_claim 1 ''t1'' demo_d1)))"
definition demo_d3 :: db where "demo_d3 = committed (ReclaimExpired 20 demo_d2)"
definition demo_d4 :: db where "demo_d4 = committed (demo_claim 21 ''t2'' demo_d3)"
definition demo_v2 :: job where "demo_v2 = the (fst (projr (demo_claim 21 ''t2'' demo_d3)))"
definition demo_d5 :: db where "demo_d5 = committed (Fail 22 demo_v2 ErrorTransient ''boom'' 30 demo_d4)"
definition demo_d6 :: db where "demo_d6 = committed (ReplayDLQ 40 ''r2'' 1 0 demo_d5)"

definition demo_s1 :: sys where "demo_s1 = \<lparr>sdb = demo_d1, issued = []\<rparr>"
definition demo_s2 :: sys where "demo_s2 = \<lparr>sdb = demo_d2, issued = [demo_v1]\<rparr>"
definition demo_s3 :: sys where "demo_s3 = \<lparr>sdb = demo_d3, issued = [demo_v1]\<rparr>"
definition demo_s4 :: sys where "demo_s4 = \<lparr>sdb = demo_d4, issued = [demo_v1, demo_v2]\<rparr>"
definition demo_s5 :: sys where "demo_s5 = \<lparr>sdb = demo_d5, issued = [demo_v1, demo_v2]\<rparr>"
definition demo_s6 :: sys where "demo_s6 = \<lparr>sdb = demo_d6, issued = [demo_v1, demo_v2]\<rparr>"

lemma demo_commits:
  "\<not> isl (Submit demo_hash 0 ''r'' demo_input empty_db)"
  "\<not> isl (demo_claim 1 ''t1'' demo_d1)" "fst (projr (demo_claim 1 ''t1'' demo_d1)) \<noteq> None"
  "\<not> isl (ReclaimExpired 20 demo_d2)"
  "\<not> isl (demo_claim 21 ''t2'' demo_d3)" "fst (projr (demo_claim 21 ''t2'' demo_d3)) \<noteq> None"
  "\<not> isl (Fail 22 demo_v2 ErrorTransient ''boom'' 30 demo_d4)"
  "\<not> isl (ReplayDLQ 40 ''r2'' 1 0 demo_d5)"
  by code_simp+

lemma demo_tokens: "LeaseToken demo_v1 = ''t1''" "LeaseToken demo_v2 = ''t2''"
  by code_simp+

lemma demo_claims:
  "Claim 1 ''t1'' ''w'' 10 demo_d1 = Inr (Some demo_v1, demo_d2)"
  "Claim 21 ''t2'' ''w'' 10 demo_d3 = Inr (Some demo_v2, demo_d4)"
  using committed_eq [OF demo_commits(2)] demo_commits(3) committed_eq [OF demo_commits(5)] demo_commits(6)
  by (auto simp: demo_claim_def demo_v1_def demo_v2_def demo_d2_def demo_d4_def)

lemma demo_submit: "Submit demo_hash 0 ''r'' demo_input empty_db
    = Inr (fst (projr (Submit demo_hash 0 ''r'' demo_input empty_db)), demo_d1)"
  unfolding demo_d1_def by (rule committed_eq [OF demo_commits(1)])

lemma demo_reclaim: "ReclaimExpired 20 demo_d2 = Inr (fst (projr (ReclaimExpired 20 demo_d2)), demo_d3)"
  unfolding demo_d3_def by (rule committed_eq [OF demo_commits(4)])

lemma demo_fail: "Fail 22 demo_v2 ErrorTransient ''boom'' 30 demo_d4 = Inr ((), demo_d5)"
  using committed_eq [OF demo_commits(7)] by (simp add: demo_d5_def)

lemma demo_replay: "ReplayDLQ 40 ''r2'' 1 0 demo_d5 = Inr (fst (projr (ReplayDLQ 40 ''r2'' 1 0 demo_d5)), demo_d6)"
  unfolding demo_d6_def by (rule committed_eq [OF demo_commits(8)])

lemma demo_step1: "store_step demo_hash init_sys demo_s1"
  using step_submit [of demo_hash 0 "''r''" demo_input init_sys _ demo_d1, simplified init_sys_def sys.simps,
      OF demo_submit]
  by (simp add: init_sys_def demo_s1_def valid_limit_def demo_input_def submission_of_def)

lemma demo_step2: "store_step demo_hash demo_s1 demo_s2"
  using step_claim [of 1 "''t1''" "''w''" 10 demo_s1 demo_v1 demo_d2 demo_hash]
  by (simp add: demo_claims demo_s1_def demo_s2_def)

lemma demo_step3: "store_step demo_hash demo_s2 demo_s3"
  using step_reclaim [of 20 demo_s2 _ demo_d3 demo_hash, simplified demo_s2_def sys.simps, OF demo_reclaim]
  by (simp add: demo_s2_def demo_s3_def)

lemma demo_step4: "store_step demo_hash demo_s3 demo_s4"
  using step_claim [of 21 "''t2''" "''w''" 10 demo_s3 demo_v2 demo_d4 demo_hash]
  by (simp add: demo_claims demo_tokens demo_s3_def demo_s4_def)

lemma demo_step5: "store_step demo_hash demo_s4 demo_s5"
  using step_fail [of 22 demo_v2 ErrorTransient "''boom''" 30 demo_s4 "()" demo_d5 demo_hash]
  by (simp add: demo_fail demo_s4_def demo_s5_def)

lemma demo_step6: "store_step demo_hash demo_s5 demo_s6"
  using step_replay [of 40 "''r2''" 1 0 demo_s5 _ demo_d6 demo_hash, simplified demo_s5_def sys.simps, OF demo_replay]
  by (simp add: demo_s5_def demo_s6_def)

lemma demo_reachable:
  "reachable demo_hash demo_s1" "reachable demo_hash demo_s2" "reachable demo_hash demo_s3"
  "reachable demo_hash demo_s4" "reachable demo_hash demo_s5" "reachable demo_hash demo_s6"
proof -
  show 1: "reachable demo_hash demo_s1" by (rule reach_step [OF reach_init demo_step1])
  show 2: "reachable demo_hash demo_s2" by (rule reach_step [OF 1 demo_step2])
  show 3: "reachable demo_hash demo_s3" by (rule reach_step [OF 2 demo_step3])
  show 4: "reachable demo_hash demo_s4" by (rule reach_step [OF 3 demo_step4])
  show 5: "reachable demo_hash demo_s5" by (rule reach_step [OF 4 demo_step5])
  show "reachable demo_hash demo_s6" by (rule reach_step [OF 5 demo_step6])
qed

end
