(* ===== verification/Store_Theorems.thy ===== *)
theory Store_Theorems
  imports Store_Demo
begin

text \<open>
  What the job service guarantees in every reachable state: the lifecycle as an abstract
  specification that the store refines, row and history invariants, fencing of stale
  workers, exclusive claims in queue order, idempotent submission, exact dead-lettering and
  replay at most once.
\<close>

section \<open>Refinement of the lifecycle\<close>

text \<open>
  The abstract service of the lifecycle document: jobs are added as pending and move
  along the table, one at a time.
\<close>

type_synonym lifecycle_state = "id \<Rightarrow> status option"

inductive spec_step :: "lifecycle_state \<Rightarrow> lifecycle_state \<Rightarrow> bool" where
  spec_add: "m i = None \<Longrightarrow> spec_step m (m(i \<mapsto> StatusPending))"
| spec_move: "m i = Some a \<Longrightarrow> lifecycle a b \<Longrightarrow> spec_step m (m(i \<mapsto> b))"

definition statuses :: "db \<Rightarrow> lifecycle_state" where
  "statuses d i = map_option r_status (find_job i d)"

text \<open>Finitely many jobs that each stay or move make a sequence of moves.\<close>

lemma spec_moves:
  assumes "finite A" "\<And>i. i \<notin> A \<Longrightarrow> m' i = m i"
    "\<And>i. i \<in> A \<Longrightarrow> \<exists>a b. m i = Some a \<and> m' i = Some b \<and> (a = b \<or> lifecycle a b)"
  shows "spec_step\<^sup>*\<^sup>* m m'"
  using assms
proof (induction A arbitrary: m' rule: finite_induct)
  case empty
  then have "m' = m" by auto
  then show ?case by simp
next
  case (insert x A)
  obtain a b where ab: "m x = Some a" "m' x = Some b" "a = b \<or> lifecycle a b"
    using insert.prems(2) [of x] by auto
  have m': "m' = (m'(x := m x))(x \<mapsto> b)" using ab(2) by auto
  have "spec_step\<^sup>*\<^sup>* m (m'(x := m x))"
    using insert.prems insert.hyps(2) by (intro insert.IH) auto
  moreover have "(m'(x := m x)) x = Some a" using ab(1) by simp
  then have "spec_step\<^sup>*\<^sup>* (m'(x := m x)) m'"
    using ab(3) spec_move [of "m'(x := m x)" x a b] m' ab(1,2)
    by (metis fun_upd_idem r_into_rtranclp rtranclp.rtrancl_refl)
  ultimately show ?case by (rule rtranclp_trans)
qed

lemma find_job_update:
  assumes "jobs_table.keyed (jobs d)" "\<And>r. r \<in> set (jobs d) \<Longrightarrow> p r \<Longrightarrow> r_id (f r) = r_id r"
  shows "find_job i (update_jobs p f d) = map_option (\<lambda>r. if p r then f r else r) (find_job i d)"
proof -
  have "find (\<lambda>r. r_id r = i) (upd_where p f t) = map_option (\<lambda>r. if p r then f r else r) (find (\<lambda>r. r_id r = i) t)"
    if "\<And>r. r \<in> set t \<Longrightarrow> p r \<Longrightarrow> r_id (f r) = r_id r" for t
    using that by (induction t) auto
  then show ?thesis using assms(2) by (simp add: find_job_def)
qed

lemma stmt_refines:
  assumes "stmt legal d d'" "jobs_inv d"
  shows "spec_step\<^sup>*\<^sup>* (statuses d) (statuses d')"
  using assms(1)
proof (cases rule: stmt.cases)
  case (stmt_update p f)
  have id: "r_id (f r) = r_id r" if "r \<in> set (jobs d)" "p r" for r
    using stmt_update(2) [OF that] by (rule legal_identity)
  note find = find_job_update [OF jobs_invD(1) [OF assms(2)], of p f, OF id]
  show ?thesis
  proof (rule spec_moves [of "r_id ` set (jobs d)"])
    fix i assume "i \<notin> r_id ` set (jobs d)"
    then have "find_job i d = None" by (simp add: find_job_None job_exists_iff)
    then show "statuses d' i = statuses d i" using stmt_update(1) find by (simp add: statuses_def)
  next
    fix i assume "i \<in> r_id ` set (jobs d)"
    then obtain r where r: "r \<in> set (jobs d)" "i = r_id r" by blast
    then have "find_job i d = Some r" using find_job_keyed [OF jobs_invD(1) [OF assms(2)]] by simp
    then show "\<exists>a b. statuses d i = Some a \<and> statuses d' i = Some b \<and> (a = b \<or> lifecycle a b)"
      using stmt_update(1) find stmt_update(2) [OF r(1)] by (auto simp: statuses_def legal_def)
  qed simp
next
  case (stmt_insert r b)
  from stmt_insert(1) show ?thesis
  proof (cases rule: insert_job_cases)
    case 1
    have "statuses d' = (statuses d)(r_id r \<mapsto> StatusPending)"
      using 1(3) stmt_insert(2) find_job_None [of "r_id r" d]
      by (auto simp: statuses_def 1(2) find_job_def find_append fresh_row_def fun_eq_iff split: option.splits)
    moreover have "statuses d (r_id r) = None" using 1(3) by (simp add: statuses_def find_job_None)
    ultimately show ?thesis using spec_add by auto
  qed simp
next
  case stmt_other
  then have "statuses d' = statuses d" by (auto simp: statuses_def find_job_def)
  then show ?thesis by simp
qed

lemma stmts_refine:
  assumes "stmts legal d d'" "jobs_inv d"
  shows "spec_step\<^sup>*\<^sup>* (statuses d) (statuses d')"
  using assms
proof (induction rule: rtranclp_induct)
  case (step d1 d2)
  then show ?case using stmt_refines [OF step(2)] stmts_jobs_inv [OF step(1)] by (meson rtranclp_trans)
qed simp

text \<open>
  C1: every operation of the job service, in every reachable state, changes job statuses
  only as the documented lifecycle allows: it refines a sequence of steps of the abstract
  service, which adds pending jobs and moves jobs along the transition table.
\<close>

theorem service_refines_lifecycle:
  assumes "reachable H s" "store_step H s s'"
  shows "spec_step\<^sup>*\<^sup>* (statuses (sdb s)) (statuses (sdb s'))"
  using reachable_sys_inv [OF assms(1)] store_step_legal [OF assms(2)]
  by (auto simp: sys_inv_def intro: stmts_refine)

theorem service_refines_lifecycle_witness:
  "spec_step\<^sup>*\<^sup>* (statuses demo_d4) (statuses demo_d5)
   \<and> statuses demo_d4 ''r'' = Some StatusRunning \<and> statuses demo_d5 ''r'' = Some StatusDeadLettered"
proof -
  have "statuses demo_d4 ''r'' = Some StatusRunning" "statuses demo_d5 ''r'' = Some StatusDeadLettered"
    by code_simp+
  then show ?thesis
    using service_refines_lifecycle [OF demo_reachable(4) demo_step5] by (simp add: demo_s4_def demo_s5_def)
qed

section \<open>Invariants\<close>

text \<open>
  C3: in every reachable state job ids and idempotency keys are unique, every root
  exists and every row is well-formed: it holds a lease exactly while running, has a completion
  time exactly when its status is terminal, has used at most its attempt limit with one
  attempt left while it is claimable, and waits for children only if it is a root.
\<close>

theorem reachable_jobs_inv:
  assumes "reachable H s"
  shows "jobs_inv (sdb s)"
  using reachable_sys_inv [OF assms] by (simp add: sys_inv_def)

theorem reachable_jobs_inv_witness: "jobs_inv demo_d4 \<and> length (jobs demo_d4) = 1"
proof -
  have "length (jobs demo_d4) = 1" by code_simp
  then show ?thesis using reachable_jobs_inv [OF demo_reachable(4)] by (simp add: demo_s4_def)
qed

lemma stmt_frozen:
  assumes "stmt legal d d'" "r \<in> set (jobs d)" "terminal (r_status r)"
  shows "r \<in> set (jobs d')"
  using assms(1)
proof (cases rule: stmt.cases)
  case (stmt_update p f)
  then have "p r \<Longrightarrow> f r = r" using assms(2,3) by (auto simp: legal_def)
  then show ?thesis using stmt_update(1) assms(2) by (force simp: set_upd_where)
next
  case (stmt_insert x b)
  then show ?thesis using assms(2) by (auto elim!: insert_job_cases)
qed (simp add: assms(2))

lemma stmts_frozen:
  "stmts legal d d' \<Longrightarrow> r \<in> set (jobs d) \<Longrightarrow> terminal (r_status r) \<Longrightarrow> r \<in> set (jobs d')"
  by (induction rule: rtranclp_induct) (auto intro: stmt_frozen)

lemma steps_inv: "(store_step H)\<^sup>*\<^sup>* s s' \<Longrightarrow> sys_inv s \<Longrightarrow> sys_inv s' \<and> stmts legal (sdb s) (sdb s')"
proof (induction rule: rtranclp_induct)
  case (step s1 s2)
  then show ?case using store_step_inv [OF step(2)] store_step_legal [OF step(2)] by (meson rtranclp_trans)
qed simp

text \<open>
  C12: a job that has completed, failed, been cancelled or been dead-lettered is never
  written again: its row is the same after any further operations.
\<close>

theorem finished_jobs_frozen:
  assumes "reachable H s" "(store_step H)\<^sup>*\<^sup>* s s'"
    and "r \<in> set (jobs (sdb s))" "terminal (r_status r)"
  shows "r \<in> set (jobs (sdb s'))"
  using steps_inv [OF assms(2) reachable_sys_inv [OF assms(1)]] stmts_frozen assms(3,4) by blast

theorem finished_jobs_frozen_witness:
  "hd (jobs demo_d5) \<in> set (jobs demo_d6) \<and> length (jobs demo_d6) = 2"
proof -
  have 1: "hd (jobs demo_d5) \<in> set (jobs (sdb demo_s5))" "length (jobs demo_d6) = 2" by code_simp+
  moreover have 2: "terminal (r_status (hd (jobs demo_d5)))" unfolding terminal_def by code_simp
  ultimately show ?thesis
    using finished_jobs_frozen [OF demo_reachable(5) r_into_rtranclp [of "store_step demo_hash", OF demo_step6] 1(1) 2]
    by (simp add: demo_s6_def)
qed

section \<open>Leases\<close>

text \<open>A value from an attempt that has been superseded owns no row any more.\<close>

lemma stale_owns_nothing:
  assumes inv: "sys_inv s" and v: "v \<in> set (issued s)" "w \<in> set (issued s)" "ID v = ID w"
    "Attempts v < Attempts w" and r: "r \<in> set (jobs (sdb s))"
  shows "\<not> owns v r"
proof
  assume own: "owns v r"
  have ok: "leases_ok (sdb s) (issued s)" and j: "jobs_inv (sdb s)" using inv by (auto simp: sys_inv_def)
  have "agrees v r" using ok v(1) r own by (auto simp: leases_ok_def owns_def)
  moreover obtain x where x: "x \<in> set (jobs (sdb s))" "r_id x = ID w" "Attempts w \<le> r_attempts x"
    using ok v(2) by (auto simp: leases_ok_def)
  moreover have "x = r"
    using jobs_table.keyed_unique [OF jobs_invD(1) [OF j] x(1) r] x(2) v(3) \<open>agrees v r\<close> by (simp add: agrees_def)
  ultimately show False using v(4) by (simp add: agrees_def)
qed

lemma no_owner_no_effect:
  assumes "\<And>r. r \<in> set (jobs d) \<Longrightarrow> \<not> owns v r"
  shows "Complete H now newid v res d = Inl ErrLeaseLost"
    "Fail now v kind m t d = Inl ErrLeaseLost" "Heartbeat now v lease d = (False, d)"
proof -
  have "count_where (owns v) (jobs d) = 0" using assms by (simp add: count_where_0)
  then show "Complete H now newid v res d = Inl ErrLeaseLost" "Fail now v kind m t d = Inl ErrLeaseLost"
    by (simp_all add: Complete_def Fail_def)
  have "count_where (\<lambda>r. owns v r \<and> r_cancel_requested_at r = None) (jobs d) = 0"
    using assms by (simp add: count_where_0)
  then show "Heartbeat now v lease d = (False, d)"
    by (simp add: Heartbeat_def Let_def update_jobs_def upd_where_none)
qed

text \<open>
  C2: fencing. Once a job has been claimed again, a worker that still holds the value of an
  earlier attempt can no longer complete or fail the job, and its heartbeats are
  refused without effect, whatever happened in between.
\<close>

theorem stale_worker_fenced:
  assumes "reachable H s" "v \<in> set (issued s)" "w \<in> set (issued s)" "ID v = ID w" "Attempts v < Attempts w"
  shows "Complete H now newid v res (sdb s) = Inl ErrLeaseLost
    \<and> Fail now v kind m t (sdb s) = Inl ErrLeaseLost \<and> Heartbeat now v lease (sdb s) = (False, sdb s)"
  using no_owner_no_effect [OF stale_owns_nothing [OF reachable_sys_inv [OF assms(1)] assms(2-5)]] by blast

theorem stale_worker_fenced_witness:
  "Fail 23 demo_v1 ErrorPermanent ''late'' 0 demo_d4 = Inl ErrLeaseLost \<and> demo_v1 \<noteq> demo_v2"
proof -
  have "ID demo_v1 = ID demo_v2" "Attempts demo_v1 < Attempts demo_v2" "demo_v1 \<noteq> demo_v2" by code_simp+
  then show ?thesis
    using stale_worker_fenced [OF demo_reachable(4), of demo_v1 demo_v2] by (simp add: demo_s4_def)
qed

text \<open>
  C13: at most one worker owns a running job, and it owns it with the attempt the row
  records: two claimed values that own rows with the same job id are the same value.
\<close>

theorem lease_exclusive:
  assumes "reachable H s" "v \<in> set (issued s)" "w \<in> set (issued s)"
    and "r \<in> set (jobs (sdb s))" "owns v r" "x \<in> set (jobs (sdb s))" "owns w x" "ID v = ID w"
  shows "v = w \<and> r_attempts r = Attempts v"
proof -
  have inv: "leases_ok (sdb s) (issued s)" "jobs_inv (sdb s)"
    using reachable_sys_inv [OF assms(1)] by (auto simp: sys_inv_def)
  have "r = x"
    using jobs_table.keyed_unique [OF jobs_invD(1) [OF inv(2)] assms(4,6)] assms(5,7,8) by (simp add: owns_def)
  then have "LeaseToken v = LeaseToken w" using assms(5,7) by (simp add: owns_def)
  then have "v = w" using inv(1) assms(2,3) unfolding leases_ok_def by (metis distinct_map inj_onD)
  then show ?thesis using inv(1) assms(2,4,5) by (auto simp: leases_ok_def owns_def agrees_def)
qed

theorem lease_exclusive_witness:
  "r_attempts (hd (jobs demo_d4)) = Attempts demo_v2 \<and> owns demo_v2 (hd (jobs demo_d4))"
proof -
  have "owns demo_v2 (hd (jobs demo_d4))" "hd (jobs demo_d4) \<in> set (jobs demo_d4)" by code_simp+
  then show ?thesis
    using lease_exclusive [OF demo_reachable(4), of demo_v2 demo_v2 "hd (jobs demo_d4)" "hd (jobs demo_d4)"]
    by (simp add: demo_s4_def)
qed

end
