(* ===== verification/Store_Guarantees.thy ===== *)
theory Store_Guarantees
  imports Store_Theorems
begin

text \<open>
  Operation by operation: what claims, submissions, failures, retries, replays and lease
  recovery do in every reachable state.
\<close>

section \<open>Claims\<close>

text \<open>
  C5: a claim never fails in a reachable state. It finds nothing exactly when no pending or
  retry-scheduled job is due; otherwise it returns the due job that is first by
  schedule, creation time and id, now running its next attempt under the caller's lease.
\<close>

theorem claim_takes_first_due:
  assumes "reachable H s"
  shows "case Claim now token worker lease (sdb s) of
      Inl e \<Rightarrow> False
    | Inr (None, d') \<Rightarrow> d' = sdb s \<and> (\<forall>r \<in> set (jobs (sdb s)). \<not> claimable now r)
    | Inr (Some v, d') \<Rightarrow> (\<exists>r \<in> set (jobs (sdb s)). claimable now r
        \<and> (\<forall>x \<in> set (jobs (sdb s)). claimable now x \<longrightarrow> claim_order r \<le> claim_order x)
        \<and> ID v = r_id r \<and> Attempts v = r_attempts r + 1 \<and> LockedBy v = worker \<and> LeaseToken v = token
        \<and> Status v = StatusRunning \<and> find_job (r_id r) d' = Some (claim_row now lease worker token r))"
proof -
  let ?d = "sdb s"
  have inv: "jobs_inv ?d" "attempts_ok ?d" using reachable_sys_inv [OF assms] by (auto simp: sys_inv_def)
  obtain v d' where C: "Claim now token worker lease ?d = Inr (v, d')" using Claim_total [OF inv] by blast
  show ?thesis
  proof (cases v)
    case None
    have "next_claim now ?d = None" using C None by (auto simp: Claim_def Let_def split: option.splits if_splits)
    moreover from this have "d' = ?d" using C by (simp add: Claim_def)
    ultimately show ?thesis using C None by (simp add: next_claim_None)
  next
    case (Some w)
    from C Some have C': "Claim now token worker lease ?d = Inr (Some w, d')" by simp
    from C' show ?thesis
    proof (cases rule: Claim_cases)
      case (1 r)
      note r = next_claim_SomeD [OF 1(1)]
      have "find_job (r_id r) d' = Some (claim_row now lease worker token r)"
        using find_job_update [OF jobs_invD(1) [OF inv(1)], of "\<lambda>x. r_id x = r_id r" "claim_row now lease worker token" "r_id r"]
          find_job_keyed [OF jobs_invD(1) [OF inv(1)] r(1)] 1(3)
        by (simp add: find_job_def)
      then show ?thesis unfolding C' using 1(2) r by (auto intro!: bexI [of _ r])
    qed
  qed
qed

theorem claim_takes_first_due_witness:
  "(\<exists>v. Claim 1 ''t1'' ''w'' 10 demo_d1 = Inr (Some v, demo_d2) \<and> ID v = ''r'' \<and> Attempts v = 1)"
proof -
  have "length (jobs demo_d1) = 1" "r_id (hd (jobs demo_d1)) = ''r''" "r_attempts (hd (jobs demo_d1)) = 0"
    by code_simp+
  then have "\<forall>r \<in> set (jobs demo_d1). r_id r = ''r'' \<and> r_attempts r = 0"
    by (cases "jobs demo_d1") auto
  then show ?thesis
    using claim_takes_first_due [OF demo_reachable(1), where now = 1 and token = "''t1''" and worker = "''w''" and lease = 10]
    by (auto simp: demo_s1_def demo_claims(1))
qed

text \<open>
  C20: the attempt history is complete. In every reachable state the recorded attempts of a
  job are numbered from one up to its attempt count without gaps or repetitions, and there
  are never more of them than the job's limit allows.
\<close>

theorem attempt_history_complete:
  assumes "reachable H s" "r \<in> set (jobs (sdb s))"
  shows "distinct (map a_attempt (filter (\<lambda>a. a_job_id a = r_id r) (job_attempts (sdb s))))
    \<and> a_attempt ` {a \<in> set (job_attempts (sdb s)). a_job_id a = r_id r} = {1..r_attempts r}
    \<and> int (length (filter (\<lambda>a. a_job_id a = r_id r) (job_attempts (sdb s)))) \<le> r_max_attempts r"
proof -
  let ?d = "sdb s" and ?f = "filter (\<lambda>a. a_job_id a = r_id r) (job_attempts (sdb s))"
  have inv: "jobs_inv ?d" "attempts_ok ?d" using reachable_sys_inv [OF assms(1)] by (auto simp: sys_inv_def)
  have "distinct (map (\<lambda>a. (a_job_id a, a_attempt a)) ?f)"
    using inv(2) by (simp add: attempts_ok_def attempt_keys_def distinct_map_filter)
  then have dist: "distinct (map a_attempt ?f)"
    by (auto simp: distinct_map inj_on_def)
  have pair: "(r_id r, k) \<in> attempt_pairs ?d \<longleftrightarrow> 1 \<le> k \<and> k \<le> r_attempts r" for k
    using jobs_table.keyed_unique [OF jobs_invD(1) [OF inv(1)] _ assms(2)] assms(2) by (auto simp: attempt_pairs_def)
  have "a_attempt ` {a \<in> set (job_attempts ?d). a_job_id a = r_id r} = {k. (r_id r, k) \<in> set (attempt_keys ?d)}"
    by (auto simp: attempt_keys_def image_iff) metis
  also have "\<dots> = {1..r_attempts r}" using inv(2) pair by (auto simp: attempts_ok_def)
  finally have img: "a_attempt ` set ?f = {1..r_attempts r}" by simp
  have "length ?f = card (a_attempt ` set ?f)" using distinct_card [OF dist] by simp
  then have "int (length ?f) \<le> r_max_attempts r"
    using img jobs_invD(2) [OF inv(1) assms(2)] by (simp add: row_ok_def)
  then show ?thesis using dist img by simp
qed

theorem attempt_history_complete_witness:
  "a_attempt ` {a \<in> set (job_attempts demo_d5). a_job_id a = ''r''} = {1..2}"
proof -
  have "hd (jobs demo_d5) \<in> set (jobs demo_d5)" "r_id (hd (jobs demo_d5)) = ''r''"
    "r_attempts (hd (jobs demo_d5)) = 2" by code_simp+
  then show ?thesis
    using attempt_history_complete [OF demo_reachable(5), of "hd (jobs demo_d5)"] by (simp add: demo_s5_def)
qed

section \<open>The dead-letter queue\<close>

text \<open>
  C7: the dead-letter queue holds exactly one entry for each dead-lettered job and
  none for any other job, in every reachable state.
\<close>

theorem dlq_exact:
  assumes "reachable H s"
  shows "distinct (map d_job_id (dlq (sdb s)))
    \<and> d_job_id ` set (dlq (sdb s)) = {r_id r |r. r \<in> set (jobs (sdb s)) \<and> r_status r = StatusDeadLettered}"
  using reachable_dlq_ok [OF assms] by (simp add: dlq_ok_def dead_ids_def)

theorem dlq_exact_witness:
  "d_job_id ` set (dlq demo_d5) = {r_id r |r. r \<in> set (jobs demo_d5) \<and> r_status r = StatusDeadLettered}
   \<and> map d_job_id (dlq demo_d5) = [''r'']"
proof -
  have "map d_job_id (dlq demo_d5) = [''r'']" by code_simp
  then show ?thesis using dlq_exact [OF demo_reachable(5)] by (simp add: demo_s5_def)
qed

text \<open>Entries stay in the queue, keep their job, and keep the job they were replayed as.\<close>

definition dlq_keeps :: "db \<Rightarrow> db \<Rightarrow> bool" where
  "dlq_keeps d d' \<longleftrightarrow> (\<forall>x \<in> set (dlq d). \<exists>y \<in> set (dlq d'). d_id y = d_id x \<and> d_job_id y = d_job_id x
     \<and> (coalesce (d_replayed_as_job_id x) \<noteq> [] \<longrightarrow> d_replayed_as_job_id y = d_replayed_as_job_id x))"

lemma dlq_keeps_trans: "dlq_keeps d d1 \<Longrightarrow> dlq_keeps d1 d2 \<Longrightarrow> dlq_keeps d d2"
  unfolding dlq_keeps_def by (metis (no_types, lifting))

lemma dlq_keeps_step:
  assumes "store_step H s s'" "sys_inv s" "dlq_ok (sdb s)"
  shows "dlq_keeps (sdb s) (sdb s')"
  using store_step_dlq [OF assms(1,2)]
proof (elim disjE exE)
  assume "dlq_grow (sdb s) (sdb s')"
  then show ?thesis by (auto simp: dlq_grow_def dlq_keeps_def)
next
  fix now e newid assume m: "dlq_mark now e newid (sdb s) (sdb s')"
  show ?thesis
    unfolding dlq_keeps_def
  proof
    fix x assume x: "x \<in> set (dlq (sdb s))"
    from m obtain y where y: "y \<in> set (dlq (sdb s))" "d_id y = e" "coalesce (d_replayed_as_job_id y) = []"
      by (auto simp: dlq_mark_def)
    have "x = y" if "d_id x = e"
      using assms(3) x y that unfolding dlq_ok_def distinct_map by (meson inj_onD)
    then show "\<exists>y \<in> set (dlq (sdb s')). d_id y = d_id x \<and> d_job_id y = d_job_id x
       \<and> (coalesce (d_replayed_as_job_id x) \<noteq> [] \<longrightarrow> d_replayed_as_job_id y = d_replayed_as_job_id x)"
      using m x y(3)
      by (intro bexI [of _ "if d_id x = e then x\<lparr>d_replayed_at := Some now, d_replayed_as_job_id := Some newid\<rparr> else x"])
        (auto simp: dlq_mark_def set_upd_where)
  qed
qed

lemma dlq_keeps_steps:
  "(store_step H)\<^sup>*\<^sup>* s s' \<Longrightarrow> reachable H s \<Longrightarrow> reachable H s' \<and> dlq_keeps (sdb s) (sdb s')"
proof (induction rule: rtranclp_induct)
  case base
  then show ?case by (auto simp: dlq_keeps_def)
next
  case (step s1 s2)
  then have "reachable H s1" "dlq_keeps (sdb s) (sdb s1)" by auto
  then show ?case
    using step(2) dlq_keeps_step [OF step(2) reachable_sys_inv reachable_dlq_ok] dlq_keeps_trans
    by (blast intro: reach_step)
qed

text \<open>The entry a replay finds, once its job has been replayed.\<close>

lemma find_dlq_unique:
  assumes "dlq_ok d" "x \<in> set (dlq d)" "find_dlq (d_id x) d = Some y"
  shows "y = x"
proof -
  have "y \<in> set (dlq d)" "d_id y = d_id x" using find_SomeD [OF assms(3) [unfolded find_dlq_def]] by auto
  then show ?thesis using assms(1,2) unfolding dlq_ok_def distinct_map by (meson inj_onD)
qed

lemma stmt_internal:
  assumes "stmt legal d d'" "\<exists>r \<in> set (jobs d). r_id r = i \<and> r_internal r = b"
  shows "\<exists>r \<in> set (jobs d'). r_id r = i \<and> r_internal r = b"
proof -
  from assms(2) obtain r where r: "r \<in> set (jobs d)" "r_id r = i" "r_internal r = b" by blast
  obtain r' where "r' \<in> set (jobs d')" "r' = r \<or> legal r r'"
    using stmt_rows [OF assms(1) _ r(1)] legal_identity(1) by blast
  then show ?thesis using r(2,3) by (auto simp: legal_def same_identity_def)
qed

lemma stmts_internal:
  "stmts legal d d' \<Longrightarrow> \<exists>r \<in> set (jobs d). r_id r = i \<and> r_internal r = b \<Longrightarrow>
   \<exists>r \<in> set (jobs d'). r_id r = i \<and> r_internal r = b"
  by (induction rule: rtranclp_induct) (auto dest: stmt_internal)

text \<open>
  C21: a dead-letter entry is replayed at most once. After a successful replay, whatever
  else happens, replaying the same entry again reports a conflict.
\<close>

theorem replay_at_most_once:
  assumes reach: "reachable H s" and first: "ReplayDLQ now newid e n (sdb s) = Inr (w, d1)" "0 \<le> n" "newid \<noteq> []"
    and later: "(store_step H)\<^sup>*\<^sup>* (s\<lparr>sdb := d1\<rparr>) s'"
  shows "ReplayDLQ now' newid' e n' (sdb s') = Inl ErrConflict"
proof -
  let ?s1 = "s\<lparr>sdb := d1\<rparr>"
  have step: "store_step H s ?s1" by (rule step_replay [OF first(1,2)])
  have r1: "reachable H ?s1" by (rule reach_step [OF reach step])
  have r': "reachable H s'" and k: "dlq_keeps d1 (sdb s')" using dlq_keeps_steps [OF later r1] by auto
  from first(1) obtain x where x: "find_dlq e (sdb s) = Some x"
    and d1: "dlq d1 = upd_where (\<lambda>x. d_id x = e)
       (\<lambda>x. x\<lparr>d_replayed_at := Some now, d_replayed_as_job_id := Some newid\<rparr>) (dlq (sdb s))"
    by (rule ReplayDLQ_cases)
  have xin: "x \<in> set (dlq (sdb s))" "d_id x = e"
    and pub: "\<exists>r \<in> set (jobs (sdb s)). r_id r = d_job_id x \<and> r_internal r = False"
    using find_SomeD [OF x [unfolded find_dlq_def]] by auto
  have "x\<lparr>d_replayed_at := Some now, d_replayed_as_job_id := Some newid\<rparr> \<in> set (dlq d1)"
    using xin by (auto simp: d1 set_upd_where)
  with k first(3) obtain y where y: "y \<in> set (dlq (sdb s'))" "d_id y = e" "d_job_id y = d_job_id x"
    "d_replayed_as_job_id y = Some newid"
    using xin(2) by (fastforce simp: dlq_keeps_def)
  have "stmts legal (sdb s) (sdb s')"
    using steps_inv [OF converse_rtranclp_into_rtranclp [of "store_step H", OF step later]] reachable_sys_inv [OF reach] by blast
  from stmts_internal [OF this pub] obtain r where "r \<in> set (jobs (sdb s'))" "r_id r = d_job_id y" "\<not> r_internal r"
    using y(3) by auto
  then have "find_dlq e (sdb s') \<noteq> None" using y(1,2) by (auto simp: find_dlq_def find_None_iff')
  then have "find_dlq e (sdb s') = Some y"
    using find_dlq_unique [OF reachable_dlq_ok [OF r'] y(1)] y(2) by auto
  then show ?thesis using y(4) first(3) by (simp add: ReplayDLQ_def)
qed

theorem replay_at_most_once_witness:
  "ReplayDLQ 50 ''r3'' 1 0 demo_d6 = Inl ErrConflict"
  using replay_at_most_once [OF demo_reachable(5), of 40 "''r2''" 1 0 _ demo_d6, simplified demo_s5_def sys.simps,
      OF demo_replay _ _ rtranclp.rtrancl_refl]
  by simp

section \<open>Submission\<close>

lemma stmt_key:
  assumes "stmt legal d d'" "\<exists>r \<in> set (jobs d). r_id r = i \<and> r_idempotency_key r = k \<and> r_request_hash r = h"
  shows "\<exists>r \<in> set (jobs d'). r_id r = i \<and> r_idempotency_key r = k \<and> r_request_hash r = h"
proof -
  from assms(2) obtain r where r: "r \<in> set (jobs d)" "r_id r = i" "r_idempotency_key r = k" "r_request_hash r = h" by blast
  obtain r' where "r' \<in> set (jobs d')" "r' = r \<or> legal r r'"
    using stmt_rows [OF assms(1) _ r(1)] legal_identity(1) by blast
  then show ?thesis using r(2-) by (auto simp: legal_def same_identity_def)
qed

lemma stmts_key:
  "stmts legal d d' \<Longrightarrow> \<exists>r \<in> set (jobs d). r_id r = i \<and> r_idempotency_key r = k \<and> r_request_hash r = h \<Longrightarrow>
   \<exists>r \<in> set (jobs d'). r_id r = i \<and> r_idempotency_key r = k \<and> r_request_hash r = h"
  by (induction rule: rtranclp_induct) (auto dest: stmt_key)

text \<open>A submission with a key that a job already has is answered from that job.\<close>

lemma Submit_existing:
  assumes inv: "jobs_inv d" and r: "r \<in> set (jobs d)" "r_idempotency_key r = Some (sIdempotencyKey input)"
    and k: "sIdempotencyKey input \<noteq> []"
  shows "Submit H now i input d =
    (if coalesce (r_request_hash r) = submissionHash H (with_default_attempts input)
     then Inr ((scanServiceJob r, False), d) else Inl ErrIdempotencyConflict)"
proof -
  have "insert_job (submit_row H now i (with_default_attempts input)) d = Inr (False, d)"
    using r k by (auto simp: insert_job_def nullif_empty_def)
  moreover have "find (\<lambda>x. r_idempotency_key x = Some (sIdempotencyKey input)) (jobs d) = Some r"
  proof -
    obtain y where y: "find (\<lambda>x. r_idempotency_key x = Some (sIdempotencyKey input)) (jobs d) = Some y"
      using r by (cases "find (\<lambda>x. r_idempotency_key x = Some (sIdempotencyKey input)) (jobs d)")
        (auto simp: find_None_iff')
    then have "y = r" using find_SomeD [OF y] r inv unique_keysD [of "jobs d"] by (auto simp: jobs_inv_def)
    with y show ?thesis by simp
  qed
  ultimately show ?thesis by (simp add: Submit_def Let_def)
qed

lemma Submit_created_row:
  assumes "Submit H now i input d = Inr ((v, True), d')"
  shows "jobs d' = jobs d @ [submit_row H now i (with_default_attempts input)]"
    "v = scanServiceJob (submit_row H now i (with_default_attempts input))"
proof -
  let ?row = "submit_row H now i (with_default_attempts input)"
  from assms obtain d1 where ins: "insert_job ?row d = Inr (True, d1)" and j: "jobs d' = jobs d1"
    and v: "\<exists>r. find_job i d' = Some r \<and> v = scanServiceJob r"
    by (auto simp: Submit_def Let_def find_job_def split: sum.splits prod.splits if_splits option.splits)
  from ins have d1: "jobs d1 = jobs d @ [?row]" "\<not> job_exists i d" by (auto elim!: insert_job_cases)
  show "jobs d' = jobs d @ [?row]" using j d1 by simp
  then show "v = scanServiceJob ?row" using v find_job_snoc [of d' d ?row] d1(2) by auto
qed

text \<open>A submission without a key under a fresh id always creates its job.\<close>

lemma Submit_fresh:
  assumes "\<not> job_exists i d" "sIdempotencyKey input = []"
  shows "\<exists>d'. Submit H now i input d = Inr ((scanServiceJob (submit_row H now i (with_default_attempts input)), True), d')
    \<and> jobs d' = jobs d @ [submit_row H now i (with_default_attempts input)]"
proof -
  let ?row = "submit_row H now i (with_default_attempts input)"
  have "insert_job ?row d = Inr (True, d\<lparr>jobs := jobs d @ [?row]\<rparr>)"
    using assms by (simp add: insert_job_def nullif_empty_def)
  moreover have "find_job i (d\<lparr>jobs := jobs d @ [?row]\<rparr>) = Some ?row"
    using find_job_snoc [of "d\<lparr>jobs := jobs d @ [?row]\<rparr>" d ?row] assms(1) by simp
  ultimately show ?thesis by (simp add: Submit_def Let_def)
qed

text \<open>
  C14: submission is idempotent. After a keyed submission created a job, and whatever
  happened since, submitting with the same key either returns that very job without
  creating or changing anything (same request hash) or is rejected as a key conflict
  (different hash).
\<close>

theorem submit_idempotent:
  assumes reach: "reachable H s" and first: "Submit H now i input (sdb s) = Inr ((v, True), d1)"
    and valid: "valid_limit input" "sRootJobID input = []" "sIdempotencyKey input \<noteq> []"
    and later: "(store_step H)\<^sup>*\<^sup>* (s\<lparr>sdb := d1\<rparr>) s'"
    and again: "sIdempotencyKey input' = sIdempotencyKey input"
  shows "if submissionHash H (with_default_attempts input') = submissionHash H (with_default_attempts input)
    then \<exists>w. Submit H now' i' input' (sdb s') = Inr ((w, False), sdb s') \<and> ID w = ID v
    else Submit H now' i' input' (sdb s') = Inl ErrIdempotencyConflict"
proof -
  let ?row = "submit_row H now i (with_default_attempts input)"
  let ?h = "submissionHash H (with_default_attempts input)"
  have step: "store_step H s (s\<lparr>sdb := d1\<rparr>)" using valid by (intro step_submit [OF first]) auto
  have inv1: "sys_inv (s\<lparr>sdb := d1\<rparr>)" by (rule store_step_inv [OF step reachable_sys_inv [OF reach]])
  note l = steps_inv [OF later inv1]
  have "?row \<in> set (jobs d1)" "r_id ?row = i" "r_idempotency_key ?row = Some (sIdempotencyKey input)"
    "r_request_hash ?row = Some ?h"
    using Submit_created_row [OF first] valid(3) by (auto simp: nullif_empty_def)
  then have "\<exists>r \<in> set (jobs d1). r_id r = i \<and> r_idempotency_key r = Some (sIdempotencyKey input) \<and> r_request_hash r = Some ?h"
    by blast
  from stmts_key [of d1 "sdb s'", OF _ this] l obtain r where r: "r \<in> set (jobs (sdb s'))" "r_id r = i"
    "r_idempotency_key r = Some (sIdempotencyKey input')" "r_request_hash r = Some ?h"
    using again by auto
  have j: "jobs_inv (sdb s')" using l by (simp add: sys_inv_def)
  have "ID v = i" using Submit_created_row(2) [OF first] by simp
  then show ?thesis
    using Submit_existing [OF j r(1,3), of H now' i'] again valid(3) r(2,4) by auto
qed

theorem submit_idempotent_witness:
  "\<exists>w. Submit demo_hash 9 ''other'' demo_input demo_d1 = Inr ((w, False), demo_d1) \<and> ID w = ''r''"
proof -
  have "snd (fst (projr (Submit demo_hash 0 ''r'' demo_input empty_db)))"
    "ID (fst (fst (projr (Submit demo_hash 0 ''r'' demo_input empty_db)))) = ''r''" by code_simp+
  then obtain v where v: "Submit demo_hash 0 ''r'' demo_input (sdb init_sys) = Inr ((v, True), demo_d1)" "ID v = ''r''"
    using demo_submit by (metis (full_types) init_sys_def prod.collapse sys.select_convs(1))
  show ?thesis
    using submit_idempotent [OF reach_init v(1) _ _ _ rtranclp.rtrancl_refl, of demo_input 9 "''other''"] v(2)
    by (simp add: valid_limit_def demo_input_def submission_of_def)
qed

section \<open>Retry\<close>

text \<open>
  A manual retry of a failed or dead-lettered job leaves that job and every other row
  alone and adds one fresh pending job with the same type and payload, its own root, no
  attempts used and a link to the original; for any other status it is a conflict, for
  an unknown id not found.
\<close>

theorem retry_creates_fresh_job:
  assumes "reachable H s" "\<not> job_exists newid (sdb s)" "0 \<le> n"
    and "Get i (sdb s) \<noteq> Inl ErrDecode"
  shows "case find_job i (sdb s) of
      None \<Rightarrow> Retry H now newid i n (sdb s) = Inl ErrNotFound
    | Some r \<Rightarrow> if r_status r \<in> {StatusFailed, StatusDeadLettered}
        then \<exists>x d'. Retry H now newid i n (sdb s) = Inr (scanServiceJob x, d') \<and> jobs d' = jobs (sdb s) @ [x]
          \<and> r_id x = newid \<and> r_type x = r_type r \<and> r_payload x = r_payload r \<and> r_status x = StatusPending
          \<and> r_attempts x = 0 \<and> r_max_attempts x = (if n = 0 then r_max_attempts r else n)
          \<and> r_root_job_id x = newid \<and> r_scheduled_at x = now \<and> r_retried_from_job_id x = nullif_empty i
        else Retry H now newid i n (sdb s) = Inl ErrConflict"
proof (cases "find_job i (sdb s)")
  case None
  then show ?thesis by (simp add: Retry_def Get_def)
next
  case (Some r)
  note r = find_job_SomeD [OF Some]
  let ?m = "if n = 0 then r_max_attempts r else n"
  let ?in = "(submission_of (r_type r) (r_payload r) ?m)\<lparr>sRetriedFromJobID := r_id r\<rparr>"
  let ?x = "submit_row H now newid (with_default_attempts ?in)"
  have m: "?m \<noteq> 0"
    using jobs_invD(2) [of "sdb s" r] r reachable_sys_inv [OF assms(1)] by (auto simp: sys_inv_def row_ok_def)
  have x: "r_type ?x = r_type r" "r_payload ?x = r_payload r" "r_attempts ?x = 0" "r_max_attempts ?x = ?m"
    "r_root_job_id ?x = newid" "r_scheduled_at ?x = now" "r_retried_from_job_id ?x = nullif_empty i"
    using m r by (auto simp: submit_row_def new_row_def with_default_attempts_def submission_of_def)
  have get: "\<exists>det. Get i (sdb s) = Inr det \<and> det_job det = scanServiceJob r"
    using assms(4) Some by (auto simp: Get_def Let_def split: option.splits)
  have "\<exists>d'. Submit H now newid ?in (sdb s) = Inr ((scanServiceJob ?x, True), d') \<and> jobs d' = jobs (sdb s) @ [?x]"
    using Submit_fresh [of newid "sdb s" ?in] assms(2) by (simp add: submission_of_def)
  then show ?thesis using get x Some by (auto simp: Retry_def Let_def)
qed

theorem retry_creates_fresh_job_witness:
  "\<exists>x d'. Retry demo_hash 60 ''r9'' ''r'' 0 demo_d5 = Inr (scanServiceJob x, d') \<and> r_attempts x = 0 \<and> r_max_attempts x = 2"
proof -
  have f: "\<not> job_exists ''r9'' demo_d5" "find_job ''r'' demo_d5 = Some (hd (jobs demo_d5))"
    "r_status (hd (jobs demo_d5)) = StatusDeadLettered" "r_max_attempts (hd (jobs demo_d5)) = 2"
    "r_type (hd (jobs demo_d5)) \<noteq> ''dependency_update_scan''"
    by code_simp+
  have "Get ''r'' demo_d5 \<noteq> Inl ErrDecode" using f(2,5) by (simp add: Get_def Let_def)
  then show ?thesis
    using retry_creates_fresh_job [OF demo_reachable(5), of "''r9''" 0 "''r''" 60] f
    by (auto simp: demo_s5_def)
qed

end
