(* ===== verification/Store_Recovery.thy ===== *)
theory Store_Recovery
  imports Store_Guarantees
begin

text \<open>
  Recovery and failure: what \<^verbatim>\<open>ReclaimExpired\<close> and \<^verbatim>\<open>Fail\<close> do to the jobs they
  process.
\<close>

section \<open>Reclaiming expired leases\<close>

lemma finalizeRoot_total: "job_exists root d \<Longrightarrow> \<exists>d'. finalizeRoot now root d = Inr ((), d')"
  using find_job_None [of root d] by (auto simp: finalizeRoot_def split: option.splits)

lemma finalizeRoot_others:
  assumes "finalizeRoot now root d = Inr (u, d')" "x \<in> set (jobs d)" "r_status x \<noteq> StatusWaiting"
  shows "x \<in> set (jobs d')"
  using assms(1)
proof (cases rule: finalizeRoot_jobs)
  case (2 msg)
  then show ?thesis using assms(2,3) by (force simp: set_upd_where)
qed (simp add: assms(2))

lemma reclaim_one_total:
  assumes "jobs_inv d" "reclaimable d v"
  shows "\<exists>d'. reclaim_one now v d = Inr ((), d')"
proof -
  obtain r where "r \<in> set (jobs d)" "agrees v r" using assms(2) by (auto simp: reclaimable_def job_exists_def)
  then have "job_exists (RootJobID v) d" using jobs_invD(3) [OF assms(1)] by (force simp: agrees_def)
  then have "job_exists (RootJobID v) (reclaim_writes now v d)"
    using stmts_job_exists [OF stmts_mono [OF reclaim_writes_keeps [OF assms(2)] keeps_legal]] by blast
  then show ?thesis using finalizeRoot_total [of "RootJobID v" "reclaim_writes now v d" now]
    by (auto simp: reclaim_one_def Let_def)
qed

lemma reclaim_status_cases: "reclaim_status v \<in> {StatusPending, StatusCancelled, StatusDeadLettered}"
  by (simp add: reclaim_status_def Let_def)

lemma reclaim_one_rows:
  assumes one: "reclaim_one now v d = Inr (u, d')" and x: "x \<in> set (jobs d)"
  shows "r_id x = ID v \<Longrightarrow> reclaim_row now (reclaim_status v) x \<in> set (jobs d')"
    "r_id x \<noteq> ID v \<Longrightarrow> r_status x \<noteq> StatusWaiting \<Longrightarrow> x \<in> set (jobs d')"
proof -
  have w: "y \<in> set (jobs d')" if "y \<in> set (jobs (reclaim_writes now v d))" "r_status y \<noteq> StatusWaiting" for y
    using one that by (cases rule: reclaim_one_cases) (auto dest: finalizeRoot_others)
  show "r_id x = ID v \<Longrightarrow> reclaim_row now (reclaim_status v) x \<in> set (jobs d')"
    using x reclaim_status_cases [of v] by (intro w) (auto simp: set_upd_where)
  show "r_id x \<noteq> ID v \<Longrightarrow> r_status x \<noteq> StatusWaiting \<Longrightarrow> x \<in> set (jobs d')"
    using x by (intro w) (auto simp: set_upd_where)
qed

lemma reclaim_all_rows:
  assumes "jobs_inv d" "distinct (map ID vs)" "\<forall>v \<in> set vs. reclaimable d v"
  shows "\<exists>d'. reclaim_all now vs d = Inr ((), d')
    \<and> (\<forall>x \<in> set (jobs d). \<forall>v \<in> set vs. r_id x = ID v \<longrightarrow> reclaim_row now (reclaim_status v) x \<in> set (jobs d'))
    \<and> (\<forall>x \<in> set (jobs d). r_id x \<notin> ID ` set vs \<longrightarrow> r_status x \<noteq> StatusWaiting \<longrightarrow> x \<in> set (jobs d'))"
  using assms
proof (induction vs arbitrary: d)
  case Nil
  then show ?case by simp
next
  case (Cons v vs)
  have v: "reclaimable d v" using Cons.prems(3) by simp
  obtain d1 where one: "reclaim_one now v d = Inr ((), d1)" using reclaim_one_total [OF Cons.prems(1) v] by blast
  have inv1: "jobs_inv d1"
    using stmts_jobs_inv [OF stmts_mono [OF reclaim_one_keeps [OF one v] keeps_legal] Cons.prems(1)] .
  have dv: "ID w \<noteq> ID v" if "w \<in> set vs" for w
    using Cons.prems(2) that by (metis distinct.simps(2) image_eqI list.set_map list.simps(9))
  have "\<forall>w \<in> set vs. reclaimable d1 w" using reclaim_one_others [OF one] dv Cons.prems(3) by simp
  then obtain d' where rest: "reclaim_all now vs d1 = Inr ((), d')"
    and hit: "\<forall>x \<in> set (jobs d1). \<forall>v \<in> set vs. r_id x = ID v \<longrightarrow> reclaim_row now (reclaim_status v) x \<in> set (jobs d')"
    and miss: "\<forall>x \<in> set (jobs d1). r_id x \<notin> ID ` set vs \<longrightarrow> r_status x \<noteq> StatusWaiting \<longrightarrow> x \<in> set (jobs d')"
    using Cons.IH [OF inv1] Cons.prems(2) by auto
  have "reclaim_row now (reclaim_status w) x \<in> set (jobs d')"
    if "x \<in> set (jobs d)" "w \<in> set (v # vs)" "r_id x = ID w" for x w
  proof (cases "w = v")
    case True
    have "reclaim_row now (reclaim_status v) x \<in> set (jobs d1)" using reclaim_one_rows(1) [OF one that(1)] that(3) True by simp
    moreover have "r_id x \<notin> ID ` set vs" using that(3) True dv by force
    ultimately show ?thesis using miss True reclaim_status_cases [of v] by fastforce
  next
    case False
    then have w: "w \<in> set vs" using that(2) by simp
    have "r_status x = StatusRunning" using Cons.prems(3) that by (auto simp: reclaimable_def)
    then have "x \<in> set (jobs d1)" using reclaim_one_rows(2) [OF one that(1)] that(3) dv [OF w] by simp
    then show ?thesis using hit w that(3) by blast
  qed
  moreover have "x \<in> set (jobs d')"
    if "x \<in> set (jobs d)" "r_id x \<notin> ID ` set (v # vs)" "r_status x \<noteq> StatusWaiting" for x
    using reclaim_one_rows(2) [OF one that(1)] that(2,3) miss by auto
  moreover have "reclaim_all now (v # vs) d = Inr ((), d')" using one rest by simp
  ultimately show ?case by blast
qed

lemma stmts_keeps_tokens:
  assumes "stmts keeps d d'" "r' \<in> set (jobs d')" "r_lease_token r' = Some t"
  shows "\<exists>r \<in> set (jobs d). r_lease_token r = Some t \<and> r_id r = r_id r'"
  using assms
proof (induction arbitrary: r' rule: rtranclp_induct)
  case (step d1 d2)
  obtain r where "r \<in> set (jobs d1)" "r_lease_token r = Some t" "same_identity r r'"
    using stmt_keeps_tokens [OF step(2,4,5)] by blast
  with step(3) [of r] show ?case by (auto simp: same_identity_def)
qed blast

lemma none_expired_after:
  assumes inv: "jobs_inv d" and k: "stmts keeps d d'"
    and hit: "\<And>r. r \<in> set (jobs d) \<Longrightarrow> expired now r \<Longrightarrow> reclaim_row now (f r) r \<in> set (jobs d')"
    and kept: "\<And>r. r \<in> set (jobs d) \<Longrightarrow> r_status r = StatusRunning \<Longrightarrow> \<not> expired now r \<Longrightarrow> r \<in> set (jobs d')"
    and r': "r' \<in> set (jobs d')"
  shows "\<not> expired now r'"
proof
  assume e: "expired now r'"
  have key: "jobs_table.keyed (jobs d')" "row_ok r'"
    using stmts_jobs_inv [OF stmts_mono [OF k keeps_legal] inv] jobs_invD r' by blast+
  obtain t where t: "r_lease_token r' = Some t" using key(2) e by (auto simp: row_ok_def expired_def)
  then obtain r where r: "r \<in> set (jobs d)" "r_lease_token r = Some t" "r_id r = r_id r'"
    using stmts_keeps_tokens [OF k r'] by blast
  have run: "r_status r = StatusRunning" using jobs_invD(2) [OF inv r(1)] r(2) by (auto simp: row_ok_def)
  show False
  proof (cases "expired now r")
    case True
    have "reclaim_row now (f r) r = r'"
      using jobs_table.keyed_unique [OF key(1) hit [OF r(1) True] r'] r(3) by simp
    then show ?thesis using t by (auto simp: reclaim_row_def release_row_def)
  next
    case False
    then have "r = r'" using jobs_table.keyed_unique [OF key(1) kept [OF r(1) run False] r' r(3)] by blast
    with e False show ?thesis by simp
  qed
qed

text \<open>
  C19: recovery of expired leases. In every reachable state the scan succeeds, counts the
  running jobs whose lease has passed, and leaves none of them: each is back to pending
  when attempts are left, dead-lettered when not, and cancelled when cancellation had been
  requested, without a lease in all three cases; running jobs whose lease has not
  passed are untouched.
\<close>

theorem reclaim_recovers_expired:
  assumes "reachable H s"
  shows "\<exists>d'. ReclaimExpired now (sdb s) = Inr (length (filter (expired now) (jobs (sdb s))), d')
    \<and> (\<forall>r \<in> set (jobs d'). \<not> expired now r)
    \<and> (\<forall>r \<in> set (jobs (sdb s)). expired now r \<longrightarrow>
         reclaim_row now (if r_cancel_requested_at r \<noteq> None then StatusCancelled
           else if r_attempts r < r_max_attempts r then StatusPending else StatusDeadLettered) r \<in> set (jobs d'))
    \<and> (\<forall>r \<in> set (jobs (sdb s)). r_status r = StatusRunning \<and> \<not> expired now r \<longrightarrow> r \<in> set (jobs d'))"
proof -
  let ?d = "sdb s" and ?vs = "map scanServiceJob (filter (expired now) (jobs (sdb s)))"
  have inv: "jobs_inv ?d" using reachable_sys_inv [OF assms] by (simp add: sys_inv_def)
  note key = jobs_invD(1) [OF inv]
  have dist: "distinct (map ID ?vs)" by (rule expired_distinct [OF key])
  have rec: "\<forall>v \<in> set ?vs. reclaimable ?d v" using expired_reclaimable [OF key] by auto
  obtain d' where R: "reclaim_all now ?vs ?d = Inr ((), d')"
    and hit: "\<forall>x \<in> set (jobs ?d). \<forall>v \<in> set ?vs. r_id x = ID v \<longrightarrow> reclaim_row now (reclaim_status v) x \<in> set (jobs d')"
    and miss: "\<forall>x \<in> set (jobs ?d). r_id x \<notin> ID ` set ?vs \<longrightarrow> r_status x \<noteq> StatusWaiting \<longrightarrow> x \<in> set (jobs d')"
    using reclaim_all_rows [OF inv dist rec] by blast
  have hit': "reclaim_row now (reclaim_status (scanServiceJob r)) r \<in> set (jobs d')"
    if "r \<in> set (jobs ?d)" "expired now r" for r
    using hit that by auto
  have notin: "r_id r \<notin> ID ` set ?vs" if "r \<in> set (jobs ?d)" "\<not> expired now r" for r
  proof
    assume "r_id r \<in> ID ` set ?vs"
    then obtain x where "x \<in> set (jobs ?d)" "expired now x" "r_id r = r_id x" by auto
    then show False using that jobs_table.keyed_unique [OF key that(1)] by blast
  qed
  have kept: "r \<in> set (jobs d')" if "r \<in> set (jobs ?d)" "r_status r = StatusRunning" "\<not> expired now r" for r
    using miss notin that by auto
  have "\<not> expired now r'" if "r' \<in> set (jobs d')" for r'
    by (rule none_expired_after [OF inv reclaim_all_keeps [OF R dist rec] hit' kept that])
  moreover have "reclaim_status (scanServiceJob r) = (if r_cancel_requested_at r \<noteq> None then StatusCancelled
           else if r_attempts r < r_max_attempts r then StatusPending else StatusDeadLettered)" for r
    by (simp add: reclaim_status_def Let_def)
  then have "\<forall>r \<in> set (jobs ?d). expired now r \<longrightarrow>
         reclaim_row now (if r_cancel_requested_at r \<noteq> None then StatusCancelled
           else if r_attempts r < r_max_attempts r then StatusPending else StatusDeadLettered) r \<in> set (jobs d')"
    using hit' by simp
  moreover have "\<forall>r \<in> set (jobs ?d). r_status r = StatusRunning \<and> \<not> expired now r \<longrightarrow> r \<in> set (jobs d')"
    using kept by blast
  moreover have "ReclaimExpired now ?d = Inr (length (filter (expired now) (jobs ?d)), d')"
    using R by (simp add: ReclaimExpired_def)
  ultimately show ?thesis by blast
qed

theorem reclaim_recovers_expired_witness:
  "\<exists>d'. ReclaimExpired 20 demo_d2 = Inr (1, d') \<and> (\<forall>r \<in> set (jobs d'). \<not> expired 20 r)"
proof -
  have "length (filter (expired 20) (jobs demo_d2)) = 1" by code_simp
  then show ?thesis using reclaim_recovers_expired [OF demo_reachable(2), of 20] by (auto simp: demo_s2_def)
qed

section \<open>Failing\<close>

text \<open>The owner of a running job always succeeds in failing it.\<close>

lemma Fail_owner_row:
  assumes reach: "reachable H s" and v: "v \<in> set (issued s)" and r: "r \<in> set (jobs (sdb s))" "owns v r"
  shows "\<exists>d'. Fail now v kind message retryAt (sdb s) = Inr ((), d')
    \<and> fail_row now (fail_status v kind) retryAt kind (boundedError message) r \<in> set (jobs d')"
    and "agrees v r"
proof -
  let ?d = "sdb s"
  let ?d4 = "fail_writes now v kind (boundedError message) retryAt ?d"
  let ?r = "fail_row now (fail_status v kind) retryAt kind (boundedError message) r"
  have inv: "jobs_inv ?d" "leases_ok ?d (issued s)" using reachable_sys_inv [OF reach] by (auto simp: sys_inv_def)
  have val: "value_ok v ?d" by (rule leases_value_ok [OF inv(2) v])
  show ag: "agrees v r" using val r by (simp add: value_ok_def)
  have own: "count_where (owns v) (jobs ?d) = 1"
    by (rule jobs_table.keyed_count_1 [where p = "owns v" and x = "ID v", OF jobs_invD(1) [OF inv(1)] _ r])
      (simp add: owns_def)
  have r4: "?r \<in> set (jobs ?d4)" using r by (auto simp: set_upd_where)
  have nw: "fail_status v kind \<noteq> StatusWaiting" by (simp add: fail_status_def split: error_kind.splits)
  have "job_exists (RootJobID v) ?d" using jobs_invD(3) [OF inv(1) r(1)] ag by (simp add: agrees_def)
  then have ex: "job_exists (RootJobID v) ?d4"
    using stmts_job_exists [OF stmts_mono [OF fail_writes_keeps [OF val] keeps_legal]] by blast
  have "\<exists>d'. Fail now v kind message retryAt ?d = Inr ((), d')"
    using own finalizeRoot_total [OF ex, of now] by (auto simp: Fail_def Let_def)
  then obtain d' where F: "Fail now v kind message retryAt ?d = Inr ((), d')" by blast
  from F have "?r \<in> set (jobs d')"
    by (cases rule: Fail_cases) (use r4 nw in \<open>auto dest: finalizeRoot_others\<close>)
  with F show "\<exists>d'. Fail now v kind message retryAt ?d = Inr ((), d') \<and> ?r \<in> set (jobs d')" by blast
qed

lemma fail_cancels:
  assumes "reachable H s" "v \<in> set (issued s)" "r \<in> set (jobs (sdb s))" "owns v r"
  shows "\<exists>d' r'. Fail now v ErrorCancelled message retryAt (sdb s) = Inr ((), d') \<and> r' \<in> set (jobs d')
    \<and> r_id r' = ID v \<and> r_status r' = StatusCancelled"
  using Fail_owner_row(1) [OF assms, of now ErrorCancelled message retryAt] assms(4)
  by (fastforce simp: fail_status_def owns_def fail_row_def release_row_def)

text \<open>
  The outcome of a failed attempt. The owner of a running job that reports an error
  schedules a retry at the given time exactly when the error is transient and attempts are
  left; a transient error on the last attempt dead-letters the job, a permanent error
  fails it, a cancellation cancels it. The lease is released and at most 2048
  bytes of the message are kept.
\<close>

theorem fail_outcome:
  assumes "reachable H s" "v \<in> set (issued s)" "r \<in> set (jobs (sdb s))" "owns v r"
  shows "\<exists>d' r'. Fail now v kind message retryAt (sdb s) = Inr ((), d') \<and> r' \<in> set (jobs d') \<and> r_id r' = ID v
    \<and> r_status r' = (case kind of ErrorTransient \<Rightarrow>
          if r_attempts r < r_max_attempts r then StatusRetryScheduled else StatusDeadLettered
        | ErrorPermanent \<Rightarrow> StatusFailed | ErrorCancelled \<Rightarrow> StatusCancelled)
    \<and> (r_status r' = StatusRetryScheduled \<longrightarrow> r_scheduled_at r' = retryAt)
    \<and> r_lease_token r' = None \<and> r_last_error_kind r' = Some kind \<and> r_last_error r' = Some (take 2048 message)"
proof -
  let ?r = "fail_row now (fail_status v kind) retryAt kind (boundedError message) r"
  obtain d' where d': "Fail now v kind message retryAt (sdb s) = Inr ((), d')" "?r \<in> set (jobs d')"
    using Fail_owner_row(1) [OF assms] by blast
  have "fail_status v kind = (case kind of ErrorTransient \<Rightarrow>
          if r_attempts r < r_max_attempts r then StatusRetryScheduled else StatusDeadLettered
        | ErrorPermanent \<Rightarrow> StatusFailed | ErrorCancelled \<Rightarrow> StatusCancelled)"
    using Fail_owner_row(2) [OF assms] by (simp add: fail_status_def agrees_def split: error_kind.splits)
  then show ?thesis
    using d' assms(4) by (intro exI [of _ d'] exI [of _ ?r])
      (auto simp: fail_row_def release_row_def owns_def boundedError_def)
qed

theorem fail_outcome_witness:
  "\<exists>d' r'. Fail 22 demo_v2 ErrorTransient ''boom'' 30 demo_d4 = Inr ((), d')
     \<and> r' \<in> set (jobs d') \<and> r_status r' = StatusDeadLettered"
proof -
  have "owns demo_v2 (hd (jobs demo_d4))" "hd (jobs demo_d4) \<in> set (jobs demo_d4)"
    "\<not> r_attempts (hd (jobs demo_d4)) < r_max_attempts (hd (jobs demo_d4))" by code_simp+
  then show ?thesis
    using fail_outcome [OF demo_reachable(4), of demo_v2 "hd (jobs demo_d4)" 22 ErrorTransient "''boom''" 30]
    by (auto simp: demo_s4_def)
qed

end
