(* ===== verification/Store_Trees.thy ===== *)
theory Store_Trees
  imports Store_Recovery
begin

text \<open>
  Roots and their children: a root that waits is moved on when its last child
  finishes, with the outcome its children determine. The exceptions are stated: a step that
  cancels a pending child directly finishes it without looking at the root.
\<close>

section \<open>Waiting roots\<close>

definition settled :: "db \<Rightarrow> bool" where
  "settled d \<longleftrightarrow> (\<forall>q \<in> set (jobs d). r_status q = StatusWaiting \<longrightarrow>
     (\<exists>x \<in> set (jobs d). descendant (r_id q) x \<and> is_active (r_status x)))"

text \<open>An active descendant of a root is not itself waiting.\<close>

lemma descendant_not_waiting:
  "jobs_inv d \<Longrightarrow> x \<in> set (jobs d) \<Longrightarrow> descendant q x \<Longrightarrow> r_status x \<noteq> StatusWaiting"
  using jobs_invD(2) [of d x] by (auto simp: row_ok_def descendant_def)

lemma finalizeRoot_settles_root:
  assumes F: "finalizeRoot now root d = Inr (u, d')" and inv: "jobs_inv d"
    and q: "q \<in> set (jobs d')" "r_id q = root" "r_status q = StatusWaiting"
  shows "\<exists>x \<in> set (jobs d'). descendant root x \<and> is_active (r_status x)"
  using F
proof (cases rule: finalizeRoot_cases)
  case 1
  show ?thesis
  proof (rule ccontr)
    assume no: "\<not> ?thesis"
    obtain r where r: "find_job root d = Some r" using F by (auto simp: finalizeRoot_def split: option.splits)
    have "count_where (\<lambda>x. descendant root x \<and> is_active (r_status x)) (jobs d) = 0"
      "count_where (\<lambda>x. r_id x = root \<and> r_status x = StatusWaiting) (jobs d) \<noteq> 0"
      using no q 1 by (auto simp: count_where_0)
    then have "d' = finalize_writes now r (root_outcome root d) d" using F r by (simp add: finalizeRoot_def)
    then have "q \<in> set (jobs (finalize_writes now r (root_outcome root d) d))" using q(1) by simp
    then show False
      using q(2,3) root_outcome_cases [of root d] find_job_SomeD [OF r]
      by (auto elim!: upd_where_cases)
  qed
next
  case (2 r x)
  have "q \<in> set (jobs (finalize_writes now r (root_outcome root d) d))" using q(1) 2(7) by simp
  then show ?thesis
    using q(2,3) root_outcome_cases [of root d] 2(2) by (auto elim!: upd_where_cases)
qed

lemma finalizeRoot_waiting_back:
  assumes "finalizeRoot now root d = Inr (u, d')" "q \<in> set (jobs d')" "r_status q = StatusWaiting"
  shows "q \<in> set (jobs d)"
  using assms(1)
proof (cases rule: finalizeRoot_jobs)
  case (2 msg)
  then show ?thesis using assms(2,3) root_outcome_cases [of root d] by (auto elim!: upd_where_cases)
qed (use assms(2) in simp)

text \<open>
  A change confined to one job of the tree of \<open>root\<close> and to insertions, followed by
  finalizing that root.
\<close>

lemma touched_settled:
  assumes set: "settled d" and inv: "jobs_inv d" "jobs_inv d4"
    and same: "\<And>x. x \<in> set (jobs d) \<Longrightarrow> r_id x \<noteq> i \<Longrightarrow> x \<in> set (jobs d4)"
    and wait: "\<And>q. q \<in> set (jobs d4) \<Longrightarrow> r_status q = StatusWaiting \<Longrightarrow> q \<in> set (jobs d) \<or> r_id q = root"
    and tree: "\<And>x. x \<in> set (jobs d) \<Longrightarrow> r_id x = i \<Longrightarrow> r_root_job_id x = root"
    and F: "finalizeRoot now root d4 = Inr (u, d')"
  shows "settled d'"
  unfolding settled_def
proof (intro ballI impI)
  fix q assume q: "q \<in> set (jobs d')" "r_status q = StatusWaiting"
  show "\<exists>x \<in> set (jobs d'). descendant (r_id q) x \<and> is_active (r_status x)"
  proof (cases "r_id q = root")
    case True
    then show ?thesis using finalizeRoot_settles_root [OF F inv(2) q(1) True q(2)] by simp
  next
    case False
    then have "q \<in> set (jobs d)" using wait [OF finalizeRoot_waiting_back [OF F q] q(2)] by simp
    then obtain x where x: "x \<in> set (jobs d)" "descendant (r_id q) x" "is_active (r_status x)"
      using set q(2) by (auto simp: settled_def)
    have "r_id x \<noteq> i" using tree [OF x(1)] x(2) False by (auto simp: descendant_def)
    then have "x \<in> set (jobs d4)" using same x(1) by blast
    then have "x \<in> set (jobs d')"
      using finalizeRoot_others [OF F] descendant_not_waiting [OF inv(1) x(1,2)] by blast
    with x(2,3) show ?thesis by blast
  qed
qed

text \<open>The same change when the job itself stays active or is the root.\<close>

lemma untouched_settled:
  assumes set: "settled d" and inv: "jobs_inv d"
    and same: "\<And>x. x \<in> set (jobs d) \<Longrightarrow> r_id x \<noteq> i \<Longrightarrow> x \<in> set (jobs d')"
    and wait: "\<And>q. q \<in> set (jobs d') \<Longrightarrow> r_status q = StatusWaiting \<Longrightarrow> q \<in> set (jobs d) \<or>
        (\<exists>x \<in> set (jobs d'). descendant (r_id q) x \<and> is_active (r_status x))"
    and self: "\<And>x. x \<in> set (jobs d) \<Longrightarrow> r_id x = i \<Longrightarrow> r_root_job_id x = i \<or>
        (\<exists>y \<in> set (jobs d'). r_id y = i \<and> r_root_job_id y = r_root_job_id x \<and> is_active (r_status y))"
  shows "settled d'"
  unfolding settled_def
proof (intro ballI impI)
  fix q assume q: "q \<in> set (jobs d')" "r_status q = StatusWaiting"
  show "\<exists>x \<in> set (jobs d'). descendant (r_id q) x \<and> is_active (r_status x)"
  proof (cases "q \<in> set (jobs d)")
    case True
    then obtain x where x: "x \<in> set (jobs d)" "descendant (r_id q) x" "is_active (r_status x)"
      using set q(2) by (auto simp: settled_def)
    show ?thesis
    proof (cases "r_id x = i")
      case True
      then obtain y where "y \<in> set (jobs d')" "r_id y = i" "r_root_job_id y = r_root_job_id x" "is_active (r_status y)"
        using self [OF x(1)] x(2) by (auto simp: descendant_def)
      with True x(2) show ?thesis by (auto simp: descendant_def)
    next
      case False
      then show ?thesis using same [OF x(1)] x(2,3) by blast
    qed
  qed (use wait q in blast)
qed

text \<open>One job leaves its status; its root is finalized if the job is finished and not the root.\<close>

lemma one_job_settled:
  assumes set: "settled d" and inv: "jobs_inv d" "jobs_inv d4"
    and r: "r \<in> set (jobs d)" "r_id r = i" "r_root_job_id r = root" "p r"
    and upd: "jobs d4 = upd_where p f (jobs d)" "\<And>x. p x \<Longrightarrow> r_id x = i"
    and f: "\<And>x. r_id (f x) = r_id x" "\<And>x. r_root_job_id (f x) = r_root_job_id x" "\<And>x. r_status (f x) = st"
    and st: "st \<noteq> StatusWaiting"
    and fin: "if \<not> is_active st \<and> i \<noteq> root then finalizeRoot now root d4 = Inr (u, d') else d' = d4"
  shows "settled d'"
proof -
  have uniq: "x = r" if "x \<in> set (jobs d)" "r_id x = i" for x
    using jobs_table.keyed_unique [OF jobs_invD(1) [OF inv(1)] that(1) r(1)] that(2) r(2) by simp
  have same: "x \<in> set (jobs d4)" if "x \<in> set (jobs d)" "r_id x \<noteq> i" for x
    using that upd by (auto simp: set_upd_where)
  have wait: "q \<in> set (jobs d)" if "q \<in> set (jobs d4)" "r_status q = StatusWaiting" for q
    using that st f(3) upd(1) by (auto elim!: upd_where_cases)
  show ?thesis
  proof (cases "\<not> is_active st \<and> i \<noteq> root")
    case True
    then have F: "finalizeRoot now root d4 = Inr (u, d')" using fin by (auto split: if_splits)
    show ?thesis
      by (rule touched_settled [OF set inv same _ _ F]) (use wait uniq r(3) in auto)
  next
    case False
    then have d': "d' = d4" using fin by (auto split: if_splits)
    have y: "f r \<in> set (jobs d4)" using r(1,4) upd(1) by (auto simp: set_upd_where)
    show ?thesis
      unfolding d'
    proof (rule untouched_settled [OF set inv(1) same])
      fix x assume "x \<in> set (jobs d)" "r_id x = i"
      then have "x = r" by (rule uniq)
      then show "r_root_job_id x = i \<or> (\<exists>y \<in> set (jobs d4). r_id y = i
          \<and> r_root_job_id y = r_root_job_id x \<and> is_active (r_status y))"
        using y False r(2,3) f by (cases "i = root") (auto intro!: bexI [of _ "f r"])
    qed (use wait in auto)
  qed
qed

lemma fail_status_active: "is_active (fail_status v kind) \<longleftrightarrow> fail_status v kind = StatusRetryScheduled"
  by (simp add: fail_status_def is_active_def split: error_kind.splits)

lemma Fail_settled:
  assumes F: "Fail now v kind m t d = Inr (u, d')" and inv: "jobs_inv d" and v: "value_ok v d" and set: "settled d"
  shows "settled d'"
proof -
  let ?d4 = "fail_writes now v kind (boundedError m) t d"
  have own: "count_where (owns v) (jobs d) = 1" using F by (rule Fail_cases)
  obtain r where r: "r \<in> set (jobs d)" "owns v r" "agrees v r" by (rule count_ownsE [OF own v])
  have inv4: "jobs_inv ?d4" using stmts_jobs_inv [OF stmts_mono [OF fail_writes_keeps [OF v] keeps_legal] inv] .
  have fin: "if \<not> is_active (fail_status v kind) \<and> ID v \<noteq> RootJobID v
      then finalizeRoot now (RootJobID v) ?d4 = Inr (u, d') else d' = ?d4"
    using F own by (auto simp: Fail_def Let_def fail_status_active)
  show ?thesis
    by (rule one_job_settled [OF set inv inv4 r(1) _ _ r(2) fail_writes_simps(1) _ _ _ _ _ fin])
      (use r(3) in \<open>auto simp: agrees_def owns_def fail_row_def release_row_def fail_status_def split: error_kind.splits\<close>)
qed

lemma reclaim_one_settled:
  assumes R: "reclaim_one now v d = Inr (u, d')" and inv: "jobs_inv d" and v: "reclaimable d v" and set: "settled d"
  shows "settled d'"
proof -
  let ?d4 = "reclaim_writes now v d"
  obtain r where r: "r \<in> set (jobs d)" "r_id r = ID v" "agrees v r"
    using v by (auto simp: reclaimable_def job_exists_def)
  have inv4: "jobs_inv ?d4" using stmts_jobs_inv [OF stmts_mono [OF reclaim_writes_keeps [OF v] keeps_legal] inv] .
  have fin: "if \<not> is_active (reclaim_status v) \<and> ID v \<noteq> RootJobID v
      then finalizeRoot now (RootJobID v) ?d4 = Inr (u, d') else d' = ?d4"
    using R reclaim_status_cases [of v] by (auto simp: reclaim_one_def Let_def is_active_def)
  show ?thesis
    by (rule one_job_settled [OF set inv inv4 r(1,2) _ r(2) reclaim_writes_simps(1) _ _ _ _ _ fin])
      (use r(3) reclaim_status_cases [of v] in \<open>auto simp: agrees_def reclaim_row_def release_row_def\<close>)
qed

lemma reclaim_all_settled:
  assumes "reclaim_all now vs d = Inr (u, d')" "distinct (map ID vs)" "\<forall>v \<in> set vs. reclaimable d v"
    "jobs_inv d" "settled d"
  shows "settled d'"
  using assms
proof (induction now vs d rule: reclaim_all.induct)
  case (1 now d)
  then show ?case by simp
next
  case (2 now v vs d)
  from "2.prems"(1) obtain d1 where one: "reclaim_one now v d = Inr ((), d1)"
    and rest: "reclaim_all now vs d1 = Inr (u, d')" by (auto split: sum.splits)
  have v: "reclaimable d v" using "2.prems"(3) by simp
  have "\<forall>w \<in> set vs. reclaimable d1 w"
    using "2.prems"(2,3) reclaim_one_others [OF one] by (metis distinct.simps(2) image_eqI list.set_intros(2) list.set_map list.simps(9))
  moreover have "jobs_inv d1"
    using stmts_jobs_inv [OF stmts_mono [OF reclaim_one_keeps [OF one v] keeps_legal] "2.prems"(4)] .
  moreover have "settled d1" by (rule reclaim_one_settled [OF one "2.prems"(4) v "2.prems"(5)])
  ultimately show ?case using "2.IH" [OF one _ rest] "2.prems"(2) by simp
qed

lemma ReclaimExpired_settled:
  assumes "ReclaimExpired now d = Inr (n, d')" "jobs_inv d" "settled d"
  shows "settled d'"
proof -
  let ?vs = "map scanServiceJob (filter (expired now) (jobs d))"
  note key = jobs_invD(1) [OF assms(2)]
  have "reclaim_all now ?vs d = Inr ((), d')"
    using assms(1) by (auto simp: ReclaimExpired_def Let_def split: sum.splits)
  then show ?thesis
    by (rule reclaim_all_settled [OF _ expired_distinct [OF key] _ assms(2,3)])
      (use expired_reclaimable [OF key] in auto)
qed

section \<open>Completion\<close>

lemma insertSubmission_rows:
  assumes "insertSubmission H now i c d = Inr (u, d')"
  shows "set (jobs d) \<subseteq> set (jobs d')"
    "x \<in> set (jobs d') \<Longrightarrow> x \<in> set (jobs d) \<or> x = child_row H now i (with_default_attempts c)"
  using assms by (auto simp: insertSubmission_def elim!: insert_job_cases split: sum.splits prod.splits)

text \<open>A child row: pending, under the completing job and its root, hidden from the listings.\<close>

definition is_child :: "job \<Rightarrow> jobs_row \<Rightarrow> bool" where
  "is_child v x \<longleftrightarrow> r_status x = StatusPending \<and> r_attempts x = 0 \<and> r_parent_job_id x = Some (ID v)
     \<and> r_root_job_id x = RootJobID v \<and> r_internal x"

lemma child_row_is_child: "is_child v (child_row H now i (with_default_attempts (adopt v c)))"
  by (simp add: is_child_def child_row_def new_row_def adopt_def with_default_attempts_def)

lemma insert_children_rows:
  assumes "insert_children H now newid n v cs d = Inr (u, d')"
  shows "set (jobs d) \<subseteq> set (jobs d') \<and> (\<forall>x \<in> set (jobs d'). x \<in> set (jobs d) \<or> is_child v x)
    \<and> (\<forall>c \<in> set cs. \<exists>x \<in> set (jobs d'). r_idempotency_key x = Some (sIdempotencyKey c))"
  using assms
proof (induction H now newid n v cs d rule: insert_children.induct)
  case (1 H now newid n v d)
  then show ?case by simp
next
  case (2 H now newid n v c cs d)
  from "2.prems" obtain d1 d2 where rel: "insertAuditRelationship (adopt v c) d = Inr ((), d1)"
    and sub: "insertSubmission H now (newid n) (adopt v c) d1 = Inr ((), d2)"
    and rest: "insert_children H now newid (Suc n) v cs d2 = Inr (u, d')"
    by (auto split: sum.splits)
  have j1: "jobs d1 = jobs d" using rel by (rule insertAuditRelationship_jobs)
  have key: "\<exists>x \<in> set (jobs d2). r_idempotency_key x = Some (sIdempotencyKey c)"
    using sub by (auto simp: insertSubmission_def adopt_def elim!: insert_job_cases split: sum.splits prod.splits)
  note IH = "2.IH" [OF rel _ sub _ rest, simplified]
  have "x \<in> set (jobs d) \<or> is_child v x" if "x \<in> set (jobs d2)" for x
    using insertSubmission_rows(2) [OF sub that] j1 child_row_is_child by auto
  moreover have "set (jobs d) \<subseteq> set (jobs d2)" using insertSubmission_rows(1) [OF sub] j1 by simp
  ultimately show ?case using IH key by auto
qed

lemma complete_row_simps [simp]:
  "r_id (complete_row now st r) = r_id r" "r_status (complete_row now st r) = st"
  "r_root_job_id (complete_row now st r) = r_root_job_id r"
  by (simp_all add: complete_row_def release_row_def)

lemma Complete_rows:
  assumes C: "Complete H now newid v res d = Inr (u, d')" and inv: "jobs_inv d" and v: "value_ok v d"
    and lim: "\<forall>c \<in> set (Children res). valid_limit c"
  obtains r d5 where "r \<in> set (jobs d)" "owns v r" "agrees v r" "jobs_inv d5"
    "complete_row now (complete_status v res) r \<in> set (jobs d5)"
    "\<And>x. x \<in> set (jobs d) \<Longrightarrow> r_id x \<noteq> ID v \<Longrightarrow> x \<in> set (jobs d5)"
    "\<And>x. x \<in> set (jobs d5) \<Longrightarrow> x \<in> set (jobs d) \<and> r_id x \<noteq> ID v \<or> is_child v x
       \<or> x = complete_row now (complete_status v res) r"
    "\<And>c. c \<in> set (Children res) \<Longrightarrow> \<exists>x \<in> set (jobs d5). r_idempotency_key x = Some (sIdempotencyKey c)"
    "if complete_status v res = StatusCompleted \<and> ID v \<noteq> RootJobID v
     then finalizeRoot now (RootJobID v) d5 = Inr (u, d') else d' = d5"
  using C
proof (cases rule: Complete_cases)
  case (1 d3 d4)
  let ?st = "complete_status v res"
  let ?d2 = "complete_attempt now v (update_jobs (owns v) (complete_row now ?st) d)"
  let ?d5 = "insert_event now (ID v) (status_text ?st) (Some (Attempts v)) (Some (LockedBy v)) (JObj []) d4"
  obtain r where r: "r \<in> set (jobs d)" "owns v r" "agrees v r" by (rule count_ownsE [OF 1(1) v])
  have uniq: "x = r" if "x \<in> set (jobs d)" "r_id x = ID v" for x
    using jobs_table.keyed_unique [OF jobs_invD(1) [OF inv] that(1) r(1)] that(2) r(3) by (simp add: agrees_def)
  have j5: "jobs ?d5 = jobs d3" using insert_audit_result_jobs [OF 1(3)] by simp
  note ch = insert_children_rows [OF 1(2)]
  have fin: "if ?st = StatusCompleted \<and> ID v \<noteq> RootJobID v
      then finalizeRoot now (RootJobID v) ?d5 = Inr (u, d') else d' = ?d5"
    using 1(4) by (simp add: Let_def)
  have "jobs_inv d'" using stmts_jobs_inv [OF stmts_mono [OF Complete_keeps [OF C inv v lim] keeps_legal] inv] .
  have s2: "stmts keeps d ?d2" by (rule stmts_update_other) (auto intro: complete_update [OF v])
  have "job_exists (RootJobID v) d" using jobs_invD(3) [OF inv r(1)] r(3) by (simp add: agrees_def)
  then have "job_exists (RootJobID v) ?d2"
    using stmts_job_exists [OF stmts_mono [OF s2 keeps_legal]] by blast
  then have "stmts keeps ?d2 d3" using insert_children_keeps [OF 1(2) lim] by blast
  then have "jobs_inv d3"
    using stmts_jobs_inv [OF stmts_mono [OF rtranclp_trans [OF s2] keeps_legal] inv] by blast
  then have inv5: "jobs_inv ?d5" using j5 by (simp add: jobs_inv_def)
  have prev: "x \<in> set (jobs d) \<and> r_id x \<noteq> ID v \<or> x = complete_row now ?st r" if "x \<in> set (jobs ?d2)" for x
    using that uniq r(2) by (auto simp: owns_def elim!: upd_where_cases)
  show ?thesis
  proof (rule that [OF r inv5 _ _ _ _ fin])
    show "complete_row now ?st r \<in> set (jobs ?d5)" using ch j5 r by (auto simp: set_upd_where)
    show "x \<in> set (jobs ?d5)" if "x \<in> set (jobs d)" "r_id x \<noteq> ID v" for x
      using ch j5 that by (auto simp: set_upd_where owns_def)
    show "x \<in> set (jobs d) \<and> r_id x \<noteq> ID v \<or> is_child v x \<or> x = complete_row now ?st r"
      if "x \<in> set (jobs ?d5)" for x
      using ch j5 that prev by auto
    show "\<exists>x \<in> set (jobs ?d5). r_idempotency_key x = Some (sIdempotencyKey c)" if "c \<in> set (Children res)" for c
      using ch j5 that by auto
  qed
qed

lemma Complete_settled:
  assumes C: "Complete H now newid v res d = Inr (u, d')" and inv: "jobs_inv d" and v: "value_ok v d"
    and lim: "\<forall>c \<in> set (Children res). valid_limit c" and set: "settled d"
    and new: "\<And>q q0. q \<in> set (jobs d') \<Longrightarrow> r_status q = StatusWaiting \<Longrightarrow> q0 \<in> set (jobs d) \<Longrightarrow> r_id q0 = r_id q \<Longrightarrow>
      r_status q0 = StatusRunning \<Longrightarrow> \<exists>x \<in> set (jobs d'). descendant (r_id q) x \<and> is_active (r_status x)"
  shows "settled d'"
  using C inv v lim
proof (cases rule: Complete_rows)
  case (1 r d5)
  have uniq: "x = r" if "x \<in> set (jobs d)" "r_id x = ID v" for x
    using jobs_table.keyed_unique [OF jobs_invD(1) [OF inv] that(1) 1(1)] that(2) 1(3) by (simp add: agrees_def)
  have w5: "q \<in> set (jobs d) \<or> q = complete_row now (complete_status v res) r"
    if "q \<in> set (jobs d5)" "r_status q = StatusWaiting" for q
    using 1(7) [OF that(1)] that(2) by (auto simp: is_child_def)
  show ?thesis
  proof (cases "complete_status v res = StatusCompleted \<and> ID v \<noteq> RootJobID v")
    case True
    then have F: "finalizeRoot now (RootJobID v) d5 = Inr (u, d')" using 1(9) by (auto split: if_splits)
    show ?thesis
    proof (rule touched_settled [OF set inv 1(4) 1(6) _ _ F])
      fix q assume q: "q \<in> set (jobs d5)" "r_status q = StatusWaiting"
      show "q \<in> set (jobs d) \<or> r_id q = RootJobID v" using w5 [OF q] q(2) True by auto
    next
      fix x assume "x \<in> set (jobs d)" "r_id x = ID v"
      then show "r_root_job_id x = RootJobID v" using uniq 1(3) by (auto simp: agrees_def)
    qed
  next
    case False
    then have d': "d' = d5" using 1(9) by (auto split: if_splits)
    have root: "ID v = RootJobID v" using False by (metis complete_status_def)
    show ?thesis
      unfolding d'
    proof (rule untouched_settled [OF set inv 1(6)])
      fix q assume q: "q \<in> set (jobs d5)" "r_status q = StatusWaiting"
      show "q \<in> set (jobs d) \<or> (\<exists>x \<in> set (jobs d5). descendant (r_id q) x \<and> is_active (r_status x))"
        using w5 [OF q] new [of q r] q 1(1,2) d' by (auto simp: owns_def)
    next
      fix x assume "x \<in> set (jobs d)" "r_id x = ID v"
      then show "r_root_job_id x = ID v \<or> (\<exists>y \<in> set (jobs d5). r_id y = ID v
          \<and> r_root_job_id y = r_root_job_id x \<and> is_active (r_status y))"
        using uniq 1(3) root by (auto simp: agrees_def)
    qed
  qed
qed

section \<open>The other operations\<close>

text \<open>They finish no running job and start no wait.\<close>

definition calm :: "db \<Rightarrow> db \<Rightarrow> bool" where
  "calm d d' \<longleftrightarrow> (\<forall>x \<in> set (jobs d). \<exists>y \<in> set (jobs d'). r_id y = r_id x \<and> r_root_job_id y = r_root_job_id x
        \<and> (r_status x = StatusRunning \<longrightarrow> r_status y = StatusRunning))
     \<and> (\<forall>q \<in> set (jobs d'). r_status q = StatusWaiting \<longrightarrow> q \<in> set (jobs d))"

lemma calm_map:
  assumes "jobs d' = map g (jobs d)"
    "\<And>x. x \<in> set (jobs d) \<Longrightarrow> r_id (g x) = r_id x \<and> r_root_job_id (g x) = r_root_job_id x
       \<and> (r_status x = StatusRunning \<longrightarrow> r_status (g x) = StatusRunning)
       \<and> (r_status (g x) = StatusWaiting \<longrightarrow> g x = x)"
  shows "calm d d'"
  unfolding calm_def
proof (intro conjI ballI impI)
  fix x assume "x \<in> set (jobs d)"
  then show "\<exists>y \<in> set (jobs d'). r_id y = r_id x \<and> r_root_job_id y = r_root_job_id x
        \<and> (r_status x = StatusRunning \<longrightarrow> r_status y = StatusRunning)"
    using assms by (intro bexI [of _ "g x"]) auto
next
  fix q assume "q \<in> set (jobs d')" "r_status q = StatusWaiting"
  then obtain x where "x \<in> set (jobs d)" "q = g x" "g x = x" using assms by auto
  then show "q \<in> set (jobs d)" by simp
qed

lemma calm_frame: "jobs d' = jobs d \<Longrightarrow> calm d d'"
  by (auto simp: calm_def)

lemma calm_snoc: "jobs d' = jobs d @ [x] \<Longrightarrow> r_status x = StatusPending \<Longrightarrow> calm d d'"
  by (auto simp: calm_def)

lemma calm_Submit: "Submit H now i input d = Inr (res, d') \<Longrightarrow> calm d d'"
proof -
  assume S: "Submit H now i input d = Inr (res, d')"
  then obtain b d1 where ins: "insert_job (submit_row H now i (with_default_attempts input)) d = Inr (b, d1)"
    and d': "jobs d' = jobs d1"
    by (auto simp: Submit_def Let_def split: sum.splits prod.splits if_splits option.splits)
  from ins show "calm d d'"
    by (cases rule: insert_job_cases) (use d' in \<open>auto intro: calm_snoc calm_frame\<close>)
qed

lemma calm_Claim:
  assumes "Claim now token worker lease d = Inr (Some v, d')"
  shows "calm d d'"
  using assms
proof (cases rule: Claim_cases)
  case (1 r)
  then show ?thesis
    by (intro calm_map [of _ "\<lambda>x. if r_id x = r_id r then claim_row now lease worker token x else x"])
      (auto simp: upd_where_def, auto simp: claim_row_def)
qed

lemma calm_Cancel:
  assumes "Cancel now i d = Inr (w, d')" "jobs_inv d"
  shows "calm d d'"
  using assms
proof (cases rule: Cancel_cases)
  case (one v)
  show ?thesis
  proof (rule calm_map [of _ "\<lambda>x. if r_id x = i then cancel_row now x else x"])
    show "jobs d' = map (\<lambda>x. if r_id x = i then cancel_row now x else x) (jobs d)"
      by (simp add: one(5) upd_where_def)
  qed (use one(3,4) in \<open>auto simp: cancel_row_def\<close>)
next
  case (req v)
  show ?thesis
  proof (rule calm_map [of _ "\<lambda>x. if r_id x = i then request_cancel_row now x else x"])
    show "jobs d' = map (\<lambda>x. if r_id x = i then request_cancel_row now x else x) (jobs d)"
      by (simp add: req(5) upd_where_def)
  qed (use req(3,4) in \<open>auto simp: request_cancel_row_def\<close>)
next
  case (tree v)
  let ?p = "\<lambda>r. r_root_job_id r = r_root_job_id v \<and> r_status r \<in> {StatusPending, StatusRetryScheduled, StatusWaiting}"
  let ?q = "\<lambda>r. r_root_job_id r = r_root_job_id v \<and> r_status r = StatusRunning"
  let ?g = "\<lambda>x. let y = (if ?p x then cancel_row now x else x) in if ?q y then request_cancel_row now y else y"
  have "jobs d' = map ?g (jobs d)" unfolding tree(4) upd_where_def by (simp add: comp_def Let_def)
  then show ?thesis
    by (rule calm_map) (auto simp: Let_def cancel_row_def request_cancel_row_def)
qed (simp add: calm_frame)

lemma calm_settled:
  assumes calm: "calm d d'" and set: "settled d" and inv: "jobs_inv d" "jobs_inv d'"
    and tidy: "\<And>x y q. x \<in> set (jobs d) \<Longrightarrow> r_status x \<in> {StatusPending, StatusRetryScheduled} \<Longrightarrow>
        y \<in> set (jobs d') \<Longrightarrow> r_id y = r_id x \<Longrightarrow> terminal (r_status y) \<Longrightarrow>
        q \<in> set (jobs d') \<Longrightarrow> r_id q = r_root_job_id x \<Longrightarrow> r_status q \<noteq> StatusWaiting"
  shows "settled d'"
  unfolding settled_def
proof (intro ballI impI)
  fix q assume q: "q \<in> set (jobs d')" "r_status q = StatusWaiting"
  then have "q \<in> set (jobs d)" using calm by (auto simp: calm_def)
  then obtain x where x: "x \<in> set (jobs d)" "descendant (r_id q) x" "is_active (r_status x)"
    using set q(2) by (auto simp: settled_def)
  obtain y where y: "y \<in> set (jobs d')" "r_id y = r_id x" "r_root_job_id y = r_root_job_id x"
    "r_status x = StatusRunning \<Longrightarrow> r_status y = StatusRunning"
    using calm x(1) by (auto simp: calm_def)
  have "is_active (r_status y)"
  proof (cases "r_status x = StatusRunning")
    case True
    then show ?thesis using y(4) by (simp add: is_active_def)
  next
    case False
    then have "r_status x \<in> {StatusPending, StatusRetryScheduled}"
      using x(3) descendant_not_waiting [OF inv(1) x(1,2)] by (auto simp: is_active_def)
    then have "\<not> terminal (r_status y)"
      using tidy [OF x(1) _ y(1,2) _ q(1)] x(2) q(2) by (auto simp: descendant_def)
    then show ?thesis by (cases "r_status y") (auto simp: terminal_def is_active_def)
  qed
  then show "\<exists>x \<in> set (jobs d'). descendant (r_id q) x \<and> is_active (r_status x)"
    using y(1-3) x(2) by (auto simp: descendant_def)
qed


section \<open>A concrete tree\<close>

definition tree_result :: handler_result where
  "tree_result = \<lparr>Result = None, Children = [(submission_of ''child'' (Some (JStr ''y'')) 1)\<lparr>sIdempotencyKey := ''c''\<rparr>]\<rparr>"

definition tree_d3 :: db where
  "tree_d3 = committed (Complete demo_hash 2 (\<lambda>n. ''c1'') demo_v1 tree_result demo_d2)"
definition tree_d4 :: db where "tree_d4 = committed (Claim 3 ''t3'' ''w'' 10 tree_d3)"
definition tree_v :: job where "tree_v = the (fst (projr (Claim 3 ''t3'' ''w'' 10 tree_d3)))"
definition tree_d5 :: db where
  "tree_d5 = committed (Complete demo_hash 4 (\<lambda>n. ''c2'') tree_v \<lparr>Result = None, Children = []\<rparr> tree_d4)"
definition stranded_d4 :: db where "stranded_d4 = committed (Cancel 3 ''c1'' tree_d3)"

definition tree_s3 :: sys where "tree_s3 = \<lparr>sdb = tree_d3, issued = [demo_v1]\<rparr>"
definition tree_s4 :: sys where "tree_s4 = \<lparr>sdb = tree_d4, issued = [demo_v1, tree_v]\<rparr>"
definition tree_s5 :: sys where "tree_s5 = \<lparr>sdb = tree_d5, issued = [demo_v1, tree_v]\<rparr>"
definition stranded_s4 :: sys where "stranded_s4 = \<lparr>sdb = stranded_d4, issued = [demo_v1]\<rparr>"

lemma tree_commits:
  "\<not> isl (Complete demo_hash 2 (\<lambda>n. ''c1'') demo_v1 tree_result demo_d2)"
  "\<not> isl (Claim 3 ''t3'' ''w'' 10 tree_d3)" "fst (projr (Claim 3 ''t3'' ''w'' 10 tree_d3)) \<noteq> None"
  "\<not> isl (Complete demo_hash 4 (\<lambda>n. ''c2'') tree_v \<lparr>Result = None, Children = []\<rparr> tree_d4)"
  "\<not> isl (Cancel 3 ''c1'' tree_d3)"
  by code_simp+

lemma tree_steps:
  "Complete demo_hash 2 (\<lambda>n. ''c1'') demo_v1 tree_result demo_d2 = Inr ((), tree_d3)"
  "Claim 3 ''t3'' ''w'' 10 tree_d3 = Inr (Some tree_v, tree_d4)"
  "Complete demo_hash 4 (\<lambda>n. ''c2'') tree_v \<lparr>Result = None, Children = []\<rparr> tree_d4 = Inr ((), tree_d5)"
  using committed_eq [OF tree_commits(1)] committed_eq [OF tree_commits(2)] tree_commits(3)
    committed_eq [OF tree_commits(4)]
  by (auto simp: tree_d3_def tree_d4_def tree_d5_def tree_v_def)

definition tree_child :: submission where
  "tree_child = (submission_of ''child'' (Some (JStr ''y'')) 1)\<lparr>sIdempotencyKey := ''c''\<rparr>"

lemma tree_children: "Children tree_result = [tree_child]" "valid_limit tree_child" "sIdempotencyKey tree_child = ''c''"
  by (simp_all add: tree_result_def tree_child_def valid_limit_def submission_of_def)

lemma tree_step3: "store_step demo_hash demo_s2 tree_s3"
  using step_complete [of demo_hash 2 "\<lambda>n. ''c1''" demo_v1 tree_result demo_s2 "()" tree_d3]
  by (simp add: tree_steps demo_s2_def tree_s3_def tree_children)

lemma tree_reachable3: "reachable demo_hash tree_s3"
  by (rule reach_step [OF demo_reachable(2) tree_step3])

lemma tree_step4: "store_step demo_hash tree_s3 tree_s4"
  using step_claim [of 3 "''t3''" "''w''" 10 tree_s3 tree_v tree_d4 demo_hash]
  by (simp add: tree_steps demo_tokens tree_s3_def tree_s4_def)

lemma tree_reachable4: "reachable demo_hash tree_s4"
  by (rule reach_step [OF tree_reachable3 tree_step4])

lemma tree_step5: "store_step demo_hash tree_s4 tree_s5"
  using step_complete [of demo_hash 4 "\<lambda>n. ''c2''" tree_v "\<lparr>Result = None, Children = []\<rparr>" tree_s4 "()" tree_d5]
  by (simp add: tree_steps tree_s4_def tree_s5_def)

lemma stranded_reachable: "reachable demo_hash stranded_s4"
proof -
  have "store_step demo_hash tree_s3 stranded_s4"
    using step_cancel [of 3 "''c1''" tree_s3 _ stranded_d4 demo_hash, simplified tree_s3_def sys.simps]
      committed_eq [OF tree_commits(5), folded stranded_d4_def]
    by (simp add: tree_s3_def stranded_s4_def)
  then show ?thesis by (rule reach_step [OF tree_reachable3])
qed

lemma tree_statuses:
  "map (\<lambda>r. (r_id r, r_root_job_id r, r_status r)) (jobs tree_d4)
     = [(''r'', ''r'', StatusWaiting), (''c1'', ''r'', StatusRunning)]"
  "map (\<lambda>r. (r_id r, r_root_job_id r, r_status r)) (jobs tree_d5)
     = [(''r'', ''r'', StatusCompleted), (''c1'', ''r'', StatusCompleted)]"
  "map (\<lambda>r. (r_id r, r_root_job_id r, r_status r)) (jobs stranded_d4)
     = [(''r'', ''r'', StatusWaiting), (''c1'', ''r'', StatusCancelled)]"
  by code_simp+





end
