(* ===== verification/Worker_Service.thy ===== *)
theory Worker_Service
  imports Store_Trees
begin

text \<open>
  The leased worker of \<^verbatim>\<open>internal/worker/service.go\<close> with its retry delays
  (\<^verbatim>\<open>backoff.go\<close>). Times and durations are
  nanoseconds, times counted from Go's zero time. The goroutine that processes a job waits
  in a \<^verbatim>\<open>select\<close>; the list of cases it takes is an argument of the model, so a
  theorem about all lists covers every interleaving of handler, ticker and shutdown. The
  store is a record of the operations of \<^verbatim>\<open>job.ServiceStore\<close> the worker calls.
\<close>

section \<open>Delays\<close>

definition millisecond :: int where "millisecond = 1000000"
definition second :: int where "second = 1000 * millisecond"

definition baseDelay :: int where "baseDelay = second"
definition maxDelay :: int where "maxDelay = 30 * second"

text \<open>
  \<^verbatim>\<open>time.Duration(float64(baseDelay) * math.Pow(2, float64(attempt-1)))\<close>: the product
  is exact, the conversion truncates, and beyond the range of \<^verbatim>\<open>int64\<close> its value
  depends on the machine (\<open>over\<close>).
\<close>

definition raw_window :: "int \<Rightarrow> int \<Rightarrow> int" where
  "raw_window over attempt =
     (let x = (if attempt \<ge> 1 then baseDelay * 2 ^ nat (attempt - 1) else baseDelay div 2 ^ nat (1 - attempt))
      in if x \<le> max_int64 then x else over)"

text \<open>\<^verbatim>\<open>rand.Int63n\<close> panics (\<open>None\<close>) unless its argument is positive; \<open>rnd\<close> draws.\<close>

definition Backoff :: "int \<Rightarrow> (int \<Rightarrow> int) \<Rightarrow> int \<Rightarrow> int option" where
  "Backoff over rnd attempt =
     (let w0 = raw_window over attempt;
          window = (if w0 > maxDelay then maxDelay else w0)
      in if window \<le> 0 then None else Some (rnd window))"

definition draws :: "(int \<Rightarrow> int) \<Rightarrow> bool" where
  "draws rnd \<longleftrightarrow> (\<forall>n > 0. 0 \<le> rnd n \<and> rnd n < n)"

section \<open>Configuration\<close>

record service_options =
  Concurrency :: int
  PollInterval :: int
  LeaseDuration :: int
  HeartbeatEvery :: int
  RecoveryInterval :: int
  ShutdownTimeout :: int

definition or_default :: "int \<Rightarrow> int \<Rightarrow> int" where
  "or_default x dflt = (if x \<le> 0 then dflt else x)"

definition NewService :: "service_options \<Rightarrow> service_options" where
  "NewService c = \<lparr>Concurrency = or_default (Concurrency c) 10,
     PollInterval = or_default (PollInterval c) (250 * millisecond),
     LeaseDuration = or_default (LeaseDuration c) (30 * second),
     HeartbeatEvery = or_default (HeartbeatEvery c) (10 * second),
     RecoveryInterval = or_default (RecoveryInterval c) (5 * second),
     ShutdownTimeout = or_default (ShutdownTimeout c) (25 * second)\<rparr>"

definition wrap64 :: "int \<Rightarrow> int" where
  "wrap64 x = (x + 2 ^ 63) mod 2 ^ 64 - 2 ^ 63"

text \<open>\<^verbatim>\<open>Run\<close> refuses to start unless two heartbeats fit into a lease.\<close>

definition run_allowed :: "service_options \<Rightarrow> bool" where
  "run_allowed c \<longleftrightarrow> \<not> wrap64 (HeartbeatEvery c * 2) \<ge> LeaseDuration c"

section \<open>Processing a job\<close>

record 'd service_store =
  svc_register :: "time \<Rightarrow> string \<Rightarrow> 'd \<Rightarrow> 'd"
  svc_worker_heartbeat :: "time \<Rightarrow> string \<Rightarrow> 'd \<Rightarrow> 'd"
  svc_claim :: "time \<Rightarrow> string \<Rightarrow> string \<Rightarrow> time \<Rightarrow> 'd \<Rightarrow> job_error + job option \<times> 'd"
  svc_heartbeat :: "time \<Rightarrow> job \<Rightarrow> time \<Rightarrow> 'd \<Rightarrow> bool \<times> 'd"
  svc_complete :: "time \<Rightarrow> (nat \<Rightarrow> id) \<Rightarrow> job \<Rightarrow> handler_result \<Rightarrow> 'd \<Rightarrow> job_error + unit \<times> 'd"
  svc_fail :: "time \<Rightarrow> job \<Rightarrow> error_kind \<Rightarrow> string \<Rightarrow> time \<Rightarrow> 'd \<Rightarrow> job_error + unit \<times> 'd"
  svc_reclaim :: "time \<Rightarrow> 'd \<Rightarrow> job_error + nat \<times> 'd"

text \<open>An error of a store call is logged or dropped; the database is as before.\<close>

definition after :: "job_error + 'a \<times> 'd \<Rightarrow> 'd \<Rightarrow> 'd" where
  "after x d = (case x of Inl _ \<Rightarrow> d | Inr (_, d') \<Rightarrow> d')"

text \<open>
  The cases of the select: the run context ended, the shutdown timer fired, the
  handler answered (with the identifiers its children will get), a heartbeat is due (and the
  database may be unreachable, so that \<^verbatim>\<open>Heartbeat\<close> returns an error and \<^verbatim>\<open>false\<close>).
\<close>

datatype signal =
    RunDone
  | ShutdownFired time
  | HandlerDone time "nat \<Rightarrow> id" "go_error + handler_result"
  | HeartbeatDue time bool

datatype processing = Waiting | Returned | Panicked

definition zero_time :: time where "zero_time = 0"

definition finish_handler ::
  "'d service_store \<Rightarrow> int \<Rightarrow> (int \<Rightarrow> int) \<Rightarrow> job \<Rightarrow> time \<Rightarrow> (nat \<Rightarrow> id) \<Rightarrow> go_error + handler_result \<Rightarrow> 'd \<Rightarrow> processing \<times> 'd"
where
  "finish_handler S over rnd v now ids out d =
     (case out of
        Inr res \<Rightarrow> (Returned, after (svc_complete S now ids v res d) d)
      | Inl err \<Rightarrow>
          (case KindOf err of
             ErrorTransient \<Rightarrow>
               (case Backoff over rnd (Attempts v) of
                  None \<Rightarrow> (Panicked, d)
                | Some delay \<Rightarrow>
                    (Returned, after (svc_fail S now v ErrorTransient (error_text err) (now + delay) d) d))
           | kind \<Rightarrow> (Returned, after (svc_fail S now v kind (error_text err) zero_time d) d)))"

text \<open>\<open>armed\<close>: the shutdown timer runs; its channel is nil, and never ready, before.\<close>

fun process_loop ::
  "'d service_store \<Rightarrow> service_options \<Rightarrow> int \<Rightarrow> (int \<Rightarrow> int) \<Rightarrow> job \<Rightarrow> bool \<Rightarrow> signal list \<Rightarrow> 'd \<Rightarrow> processing \<times> 'd"
where
  "process_loop S c over rnd v armed [] d = (Waiting, d)"
| "process_loop S c over rnd v armed (RunDone # sigs) d = process_loop S c over rnd v True sigs d"
| "process_loop S c over rnd v armed (ShutdownFired now # sigs) d =
     (if armed
      then (Returned, after (svc_fail S now v ErrorTransient ''worker shutdown interrupted job'' now d) d)
      else process_loop S c over rnd v armed sigs d)"
| "process_loop S c over rnd v armed (HandlerDone now ids out # sigs) d =
     finish_handler S over rnd v now ids out d"
| "process_loop S c over rnd v armed (HeartbeatDue now failed # sigs) d =
     (let (owned, d1) = (if failed then (False, d) else svc_heartbeat S now v (LeaseDuration c) d)
      in if \<not> owned
         then (Returned, after (svc_fail S now v ErrorCancelled ''job cancellation requested'' zero_time d1) d1)
         else process_loop S c over rnd v armed sigs d1)"

definition process ::
  "'d service_store \<Rightarrow> service_options \<Rightarrow> int \<Rightarrow> (int \<Rightarrow> int) \<Rightarrow> (string \<Rightarrow> bool) \<Rightarrow> time \<Rightarrow> job \<Rightarrow> signal list \<Rightarrow> 'd \<Rightarrow> processing \<times> 'd"
where
  "process S c over rnd handlers now v sigs d =
     (if \<not> handlers (Type v)
      then (Returned, after (svc_fail S now v ErrorPermanent ''unsupported job type'' zero_time d) d)
      else process_loop S c over rnd v False sigs d)"

section \<open>The loops of a worker\<close>

text \<open>
  One turn of \<^verbatim>\<open>claimLoop\<close>: the context has ended, or a claim is tried (with the
  token it would draw) and, if it finds a job, the job is processed. A turn without a job
  waits for the ticker.
\<close>

datatype turn =
    ContextEnded
  | Poll time string "signal list"

fun claimLoop ::
  "'d service_store \<Rightarrow> service_options \<Rightarrow> int \<Rightarrow> (int \<Rightarrow> int) \<Rightarrow> (string \<Rightarrow> bool) \<Rightarrow> string \<Rightarrow> turn list \<Rightarrow> 'd \<Rightarrow> 'd"
where
  "claimLoop S c over rnd handlers worker [] d = d"
| "claimLoop S c over rnd handlers worker (ContextEnded # ts) d = d"
| "claimLoop S c over rnd handlers worker (Poll now token sigs # ts) d =
     (case svc_claim S now token worker (LeaseDuration c) d of
        Inl _ \<Rightarrow> claimLoop S c over rnd handlers worker ts d
      | Inr (None, d1) \<Rightarrow> claimLoop S c over rnd handlers worker ts d1
      | Inr (Some v, d1) \<Rightarrow>
          (case process S c over rnd handlers now v sigs d1 of
             (Returned, d2) \<Rightarrow> claimLoop S c over rnd handlers worker ts d2
           | (_, d2) \<Rightarrow> d2))"

datatype maintenance = MaintenanceEnded | WorkerHeartbeatDue time | RecoveryDue time

fun maintenanceLoop :: "'d service_store \<Rightarrow> string \<Rightarrow> maintenance list \<Rightarrow> 'd \<Rightarrow> 'd" where
  "maintenanceLoop S worker [] d = d"
| "maintenanceLoop S worker (MaintenanceEnded # ms) d = d"
| "maintenanceLoop S worker (WorkerHeartbeatDue now # ms) d =
     maintenanceLoop S worker ms (svc_worker_heartbeat S now worker d)"
| "maintenanceLoop S worker (RecoveryDue now # ms) d =
     maintenanceLoop S worker ms (after (svc_reclaim S now d) d)"

end
