(* ===== verification/Worker_Theorems.thy ===== *)
theory Worker_Theorems
  imports Worker_Service
begin

text \<open>
  The worker against its store. The contract a worker relies on is a locale: a caller
  that does not hold the lease of a job changes nothing, and reporting a result gives
  the lease up. The PostgreSQL service satisfies it, and every run of the worker's loops
  over it is a sequence of steps of the service, so that all guarantees of the service
  hold under any number of workers.
\<close>

section \<open>The contract of a leased store\<close>

locale lease_store =
  fixes S :: "'d service_store"
    and owner :: "job \<Rightarrow> 'd \<Rightarrow> bool"
  assumes complete_stranger: "\<not> owner v d \<Longrightarrow> svc_complete S now ids v res d = Inl ErrLeaseLost"
    and fail_stranger: "\<not> owner v d \<Longrightarrow> svc_fail S now v kind msg retryAt d = Inl ErrLeaseLost"
    and heartbeat_stranger: "\<not> owner v d \<Longrightarrow> svc_heartbeat S now v lease d = (False, d)"
    and complete_releases: "svc_complete S now ids v res d = Inr (u, d') \<Longrightarrow> \<not> owner v d'"
    and fail_releases: "svc_fail S now v kind msg retryAt d = Inr (u, d') \<Longrightarrow> \<not> owner v d'"
begin

lemma finish_stranger: "\<not> owner v d \<Longrightarrow> snd (finish_handler S over rnd v now ids out d) = d"
  by (auto simp: finish_handler_def after_def complete_stranger fail_stranger
      split: sum.splits error_kind.splits option.splits)

lemma loop_stranger: "\<not> owner v d \<Longrightarrow> snd (process_loop S c over rnd v armed sigs d) = d"
proof (induction sigs arbitrary: armed)
  case (Cons x sigs)
  then show ?case
    by (cases x) (auto simp: finish_stranger after_def fail_stranger heartbeat_stranger)
qed simp

lemma process_stranger: "\<not> owner v d \<Longrightarrow> snd (process S c over rnd handlers now v sigs d) = d"
  by (auto simp: process_def loop_stranger after_def fail_stranger)

text \<open>When processing returns, the lease is given up unless the last report was an error.\<close>

definition report_failed :: "job \<Rightarrow> 'd \<Rightarrow> bool" where
  "report_failed v d \<longleftrightarrow> (\<exists>e now ids res. svc_complete S now ids v res d = Inl e)
     \<or> (\<exists>e now kind msg t. svc_fail S now v kind msg t d = Inl e)"

lemma finish_releases:
  "finish_handler S over rnd v now ids out d = (Returned, d') \<Longrightarrow> \<not> owner v d' \<or> report_failed v d'"
  by (auto simp: finish_handler_def after_def report_failed_def
      split: sum.splits error_kind.splits option.splits dest: complete_releases fail_releases)

lemma loop_releases:
  "process_loop S c over rnd v armed sigs d = (Returned, d') \<Longrightarrow> \<not> owner v d' \<or> report_failed v d'"
proof (induction sigs arbitrary: armed d)
  case (Cons x sigs)
  show ?case
  proof (cases x)
    case RunDone
    with Cons show ?thesis by simp
  next
    case (ShutdownFired now)
    with Cons show ?thesis
      by (auto simp: after_def report_failed_def split: if_splits sum.splits dest: fail_releases)
  next
    case (HandlerDone now ids out)
    with Cons show ?thesis by (auto dest: finish_releases)
  next
    case (HeartbeatDue now failed)
    with Cons show ?thesis
      by (auto simp: after_def report_failed_def Let_def split: if_splits sum.splits prod.splits dest: fail_releases)
  qed
qed simp

end

section \<open>The PostgreSQL service satisfies the contract\<close>

definition pg_store :: "hash \<Rightarrow> db service_store" where
  "pg_store H = \<lparr>svc_register = RegisterWorker, svc_worker_heartbeat = WorkerHeartbeat, svc_claim = Claim,
     svc_heartbeat = Heartbeat, svc_complete = Complete H, svc_fail = Fail, svc_reclaim = ReclaimExpired\<rparr>"

definition pg_owner :: "job \<Rightarrow> db \<Rightarrow> bool" where
  "pg_owner v d \<longleftrightarrow> (\<exists>r \<in> set (jobs d). owns v r)"

lemma pg_store_simps [simp]:
  "svc_register (pg_store H) = RegisterWorker" "svc_worker_heartbeat (pg_store H) = WorkerHeartbeat"
  "svc_claim (pg_store H) = Claim" "svc_heartbeat (pg_store H) = Heartbeat"
  "svc_complete (pg_store H) = Complete H" "svc_fail (pg_store H) = Fail" "svc_reclaim (pg_store H) = ReclaimExpired"
  by (simp_all add: pg_store_def)

text \<open>A finalization or an insertion hands out no lease, and reporting gives it up.\<close>

lemma finalizeRoot_no_owner:
  assumes "finalizeRoot now root d = Inr (u, d')" "\<not> pg_owner v d"
  shows "\<not> pg_owner v d'"
  using assms(1)
proof (cases rule: finalizeRoot_jobs)
  case (2 msg)
  then show ?thesis
    using assms(2) root_outcome_cases [of root d]
    by (auto simp: pg_owner_def owns_def elim!: upd_where_cases)
qed (use assms(2) in simp)

lemma Complete_releases:
  assumes "Complete H now ids v res d = Inr (u, d')"
  shows "\<not> pg_owner v d'"
  using assms
proof (cases rule: Complete_cases)
  case (1 d3 d4)
  let ?d5 = "insert_event now (ID v) (status_text (complete_status v res)) (Some (Attempts v)) (Some (LockedBy v)) (JObj []) d4"
  have "complete_status v res \<noteq> StatusRunning" by (simp add: complete_status_def)
  then have "\<not> pg_owner v (complete_attempt now v (update_jobs (owns v) (complete_row now (complete_status v res)) d))"
    by (auto simp: pg_owner_def owns_def elim!: upd_where_cases)
  then have "\<not> pg_owner v d3"
    using insert_children_rows [OF 1(2)] by (auto simp: pg_owner_def owns_def is_child_def)
  then have "\<not> pg_owner v ?d5" using insert_audit_result_jobs [OF 1(3)] by (simp add: pg_owner_def)
  then show ?thesis using 1(4) finalizeRoot_no_owner by (auto simp: Let_def split: if_splits)
qed

lemma Fail_releases:
  assumes "Fail now v kind msg t d = Inr (u, d')"
  shows "\<not> pg_owner v d'"
proof -
  have "fail_status v kind \<noteq> StatusRunning" by (simp add: fail_status_def split: error_kind.splits)
  then have "\<not> pg_owner v (fail_writes now v kind (boundedError msg) t d)"
    by (auto simp: pg_owner_def owns_def elim!: upd_where_cases)
  with assms show ?thesis by (cases rule: Fail_cases) (auto dest: finalizeRoot_no_owner)
qed

interpretation pg: lease_store "pg_store H" pg_owner for H
proof
  fix v d
  assume no: "\<not> pg_owner v d"
  then have "\<And>r. r \<in> set (jobs d) \<Longrightarrow> \<not> owns v r" by (auto simp: pg_owner_def)
  note none = no_owner_no_effect [OF this]
  show "svc_complete (pg_store H) now ids v res d = Inl ErrLeaseLost" for now ids res by (simp add: none)
  show "svc_fail (pg_store H) now v kind msg retryAt d = Inl ErrLeaseLost" for now kind msg retryAt by (simp add: none)
  show "svc_heartbeat (pg_store H) now v lease d = (False, d)" for now lease by (simp add: none)
next
  show "svc_complete (pg_store H) now ids v res d = Inr (u, d') \<Longrightarrow> \<not> pg_owner v d'" for now ids v res d u d'
    by (simp add: Complete_releases)
  show "svc_fail (pg_store H) now v kind msg retryAt d = Inr (u, d') \<Longrightarrow> \<not> pg_owner v d'" for now v kind msg retryAt d u d'
    by (simp add: Fail_releases)
qed

text \<open>
  C8: a worker whose lease is gone cannot do harm. Whatever signals its processing loop
  sees (handler answers, heartbeats, shutdown), the database is unchanged when it does
  not own the job.
\<close>

theorem lost_lease_process_no_effect:
  assumes "\<not> (\<exists>r \<in> set (jobs d). owns v r)"
  shows "snd (process (pg_store H) c over rnd handlers now v sigs d) = d"
  by (rule pg.process_stranger) (use assms in \<open>simp add: pg_owner_def\<close>)

definition demo_options :: service_options where
  "demo_options = NewService \<lparr>Concurrency = 0, PollInterval = 0, LeaseDuration = 0, HeartbeatEvery = 0,
     RecoveryInterval = 0, ShutdownTimeout = 0\<rparr>"

theorem lost_lease_process_no_effect_witness:
  "snd (process (pg_store demo_hash) demo_options 0 (\<lambda>n. 0) (\<lambda>_. True) 25 demo_v1
     [HeartbeatDue 23 False, HandlerDone 24 (\<lambda>n. ''c9'') (Inr tree_result)] demo_d4) = demo_d4"
proof -
  have "\<not> (\<exists>r \<in> set (jobs demo_d4). owns demo_v1 r)" by code_simp
  then show ?thesis by (rule lost_lease_process_no_effect)
qed

section \<open>Worker runs are runs of the service\<close>

definition signal_ok :: "signal \<Rightarrow> bool" where
  "signal_ok x = (case x of HandlerDone _ _ (Inr res) \<Rightarrow> (\<forall>c \<in> set (Children res). valid_limit c) | _ \<Rightarrow> True)"

lemma after_fail_steps:
  assumes "v \<in> set (issued s)"
  shows "(store_step H)\<^sup>*\<^sup>* s (s\<lparr>sdb := after (Fail now v kind msg t (sdb s)) (sdb s)\<rparr>)"
  using step_fail [of now v kind msg t s _ _ H] assms
  by (auto simp: after_def split: sum.splits)

lemma after_complete_steps:
  assumes "v \<in> set (issued s)" "\<forall>c \<in> set (Children res). valid_limit c"
  shows "(store_step H)\<^sup>*\<^sup>* s (s\<lparr>sdb := after (Complete H now ids v res (sdb s)) (sdb s)\<rparr>)"
  using step_complete [of H now ids v res s] assms by (auto simp: after_def split: sum.splits)

lemma finish_steps:
  assumes "v \<in> set (issued s)" "signal_ok (HandlerDone now ids out)"
  shows "(store_step H)\<^sup>*\<^sup>* s (s\<lparr>sdb := snd (finish_handler (pg_store H) over rnd v now ids out (sdb s))\<rparr>)"
proof (cases out)
  case (Inl err)
  then show ?thesis
    using after_fail_steps [OF assms(1)]
    by (auto simp: finish_handler_def split: error_kind.splits option.splits)
next
  case (Inr res)
  then show ?thesis
    using after_complete_steps [OF assms(1)] assms(2) by (auto simp: finish_handler_def signal_ok_def)
qed

lemma heartbeat_step:
  assumes "v \<in> set (issued s)"
  shows "store_step H s (s\<lparr>sdb := snd (Heartbeat now v lease (sdb s))\<rparr>)"
  by (rule step_heartbeat [of now v lease _ "fst (Heartbeat now v lease (sdb s))"]) (simp_all add: assms)

lemma loop_steps:
  assumes "v \<in> set (issued s)" "\<forall>x \<in> set sigs. signal_ok x"
  shows "(store_step H)\<^sup>*\<^sup>* s (s\<lparr>sdb := snd (process_loop (pg_store H) c over rnd v armed sigs (sdb s))\<rparr>)"
  using assms
proof (induction sigs arbitrary: armed s)
  case Nil
  then show ?case by simp
next
  case (Cons x sigs)
  show ?case
  proof (cases x)
    case RunDone
    with Cons show ?thesis by simp
  next
    case (ShutdownFired now)
    with Cons show ?thesis using after_fail_steps by auto
  next
    case (HandlerDone now ids out)
    with Cons show ?thesis using finish_steps by simp
  next
    case (HeartbeatDue now failed)
    let ?hb = "if failed then (False, sdb s) else Heartbeat now v (LeaseDuration c) (sdb s)"
    let ?s1 = "s\<lparr>sdb := snd ?hb\<rparr>"
    have s1: "(store_step H)\<^sup>*\<^sup>* s ?s1" using heartbeat_step [OF Cons.prems(1)] by auto
    have v1: "v \<in> set (issued ?s1)" using Cons.prems(1) by simp
    show ?thesis
    proof (cases "fst ?hb")
      case True
      have "(store_step H)\<^sup>*\<^sup>* ?s1 (?s1\<lparr>sdb := snd (process_loop (pg_store H) c over rnd v armed sigs (sdb ?s1))\<rparr>)"
        using Cons.prems(2) by (intro Cons.IH [OF v1]) simp
      with s1 True HeartbeatDue show ?thesis
        by (auto simp: Let_def split: prod.splits if_splits intro: rtranclp_trans)
    next
      case False
      with rtranclp_trans [OF s1 after_fail_steps [OF v1, of H now ErrorCancelled "''job cancellation requested''" zero_time]]
        HeartbeatDue show ?thesis
        by (auto simp: Let_def split: prod.splits if_splits)
    qed
  qed
qed

lemma process_steps:
  assumes "v \<in> set (issued s)" "\<forall>x \<in> set sigs. signal_ok x"
  shows "(store_step H)\<^sup>*\<^sup>* s (s\<lparr>sdb := snd (process (pg_store H) c over rnd handlers now v sigs (sdb s))\<rparr>)"
  using after_fail_steps [OF assms(1)] loop_steps [OF assms] by (auto simp: process_def)

definition turn_ok :: "turn \<Rightarrow> bool" where
  "turn_ok t = (case t of Poll _ _ sigs \<Rightarrow> (\<forall>x \<in> set sigs. signal_ok x) | ContextEnded \<Rightarrow> True)"

fun turn_tokens :: "turn list \<Rightarrow> string list" where
  "turn_tokens [] = []"
| "turn_tokens (ContextEnded # ts) = turn_tokens ts"
| "turn_tokens (Poll now token sigs # ts) = token # turn_tokens ts"

lemma Claim_token: "Claim now token worker lease d = Inr (Some v, d') \<Longrightarrow> LeaseToken v = token"
  by (erule Claim_cases) simp

text \<open>One claimed job: the claim and the processing that follows are service steps.\<close>

lemma turn_steps:
  assumes C: "Claim now token worker lease (sdb s) = Inr (Some v, d1)"
    and P: "process (pg_store H) c over rnd handlers now v sigs d1 = (st, d2)"
    and ok: "\<forall>x \<in> set sigs. signal_ok x" "token \<notin> LeaseToken ` set (issued s)"
  shows "(store_step H)\<^sup>*\<^sup>* s \<lparr>sdb = d2, issued = issued s @ [v]\<rparr>"
proof -
  let ?s1 = "s\<lparr>sdb := d1, issued := issued s @ [v]\<rparr>"
  have "(store_step H)\<^sup>*\<^sup>* ?s1 (?s1\<lparr>sdb := d2\<rparr>)"
    using process_steps [of v ?s1 sigs H c over rnd handlers now] ok(1) P by simp
  then have "(store_step H)\<^sup>*\<^sup>* s (?s1\<lparr>sdb := d2\<rparr>)"
    using step_claim [OF C ok(2), of H] by (meson converse_rtranclp_into_rtranclp)
  moreover have "?s1\<lparr>sdb := d2\<rparr> = \<lparr>sdb = d2, issued = issued s @ [v]\<rparr>" by (cases s) simp
  ultimately show ?thesis by simp
qed



section \<open>Delays and heartbeats\<close>

lemma window_bounds:
  assumes "1 \<le> attempt" "attempt \<le> 34"
  shows "raw_window over attempt = baseDelay * 2 ^ nat (attempt - 1)" "0 < raw_window over attempt"
proof -
  have "(2::int) ^ nat (attempt - 1) \<le> 2 ^ 33" using assms by (intro power_increasing) auto
  then have "baseDelay * 2 ^ nat (attempt - 1) \<le> max_int64"
    by (simp add: baseDelay_def second_def millisecond_def max_int64_def)
  then show "raw_window over attempt = baseDelay * 2 ^ nat (attempt - 1)" "0 < raw_window over attempt"
    using assms(1) by (simp_all add: raw_window_def Let_def baseDelay_def second_def millisecond_def)
qed

text \<open>
  Retry delays are bounded. For every attempt up to 34 (the interface admits at most 20)
  the delay is drawn from the window that doubles with each attempt from one second and is
  capped at 30 seconds, and drawing it cannot panic.
\<close>

theorem backoff_within_window:
  assumes "1 \<le> attempt" "attempt \<le> 34" "draws rnd"
  shows "\<exists>t. Backoff over rnd attempt = Some t \<and> 0 \<le> t \<and> t < 30 * second \<and> t < second * 2 ^ nat (attempt - 1)"
proof -
  let ?w0 = "raw_window over attempt"
  let ?w = "if ?w0 > maxDelay then maxDelay else ?w0"
  have pos: "0 < ?w" using window_bounds(2) [OF assms(1,2)] by (simp add: maxDelay_def second_def millisecond_def)
  then have "0 \<le> rnd ?w" "rnd ?w < ?w" using assms(3) by (auto simp: draws_def)
  moreover have "?w \<le> 30 * second" "?w \<le> second * 2 ^ nat (attempt - 1)"
    using window_bounds(1) [OF assms(1,2), of over] by (auto simp: maxDelay_def baseDelay_def)
  ultimately show ?thesis using pos by (simp add: Backoff_def Let_def)
qed

theorem backoff_within_window_witness:
  "\<exists>t. Backoff min_int64 (\<lambda>n. n - 1) 20 = Some t \<and> 0 \<le> t \<and> t < 30 * second"
  using backoff_within_window [of 20 "\<lambda>n. n - 1" min_int64] by (auto simp: draws_def)

text \<open>
  Beyond attempt 34 the window no longer fits the machine integer. Where the conversion
  of an out-of-range float yields the smallest integer, as on amd64, the draw panics; only
  the attempt limit of the interface keeps this from happening.
\<close>

theorem backoff_overflow_panics:
  assumes "35 \<le> attempt"
  shows "Backoff min_int64 rnd attempt = None"
proof -
  have "(2::int) ^ 34 \<le> 2 ^ nat (attempt - 1)" using assms by (intro power_increasing) auto
  then have "\<not> baseDelay * 2 ^ nat (attempt - 1) \<le> max_int64"
    by (simp add: baseDelay_def second_def millisecond_def max_int64_def)
  then have "raw_window min_int64 attempt = min_int64" using assms by (simp add: raw_window_def)
  then show ?thesis by (simp add: Backoff_def min_int64_def maxDelay_def second_def millisecond_def)
qed

theorem backoff_overflow_panics_witness: "Backoff min_int64 (\<lambda>n. 0) 35 = None"
  by (rule backoff_overflow_panics) simp

text \<open>
  C25: an unreachable database cancels the job. If the heartbeat of an owned job returns an
  error, the worker reports the job as cancelled for good, with no attempt left to it,
  although nobody asked for its cancellation.
\<close>

theorem heartbeat_error_cancels_job:
  assumes "reachable H s" "v \<in> set (issued s)" "r \<in> set (jobs (sdb s))" "owns v r" "handlers (Type v)"
  shows "\<exists>r' \<in> set (jobs (snd (process (pg_store H) c over rnd handlers t0 v (HeartbeatDue now True # sigs) (sdb s)))).
    r_id r' = ID v \<and> r_status r' = StatusCancelled"
  using fail_cancels [OF assms(1-4), of now "''job cancellation requested''" zero_time] assms(5)
  by (auto simp: process_def after_def)

theorem heartbeat_error_cancels_job_witness:
  "\<exists>r' \<in> set (jobs (snd (process (pg_store demo_hash) demo_options 0 (\<lambda>n. 0) (\<lambda>_. True) 2 demo_v1
      [HeartbeatDue 3 True] demo_d2))). r_id r' = ID demo_v1 \<and> r_status r' = StatusCancelled"
proof -
  have "owns demo_v1 (hd (jobs demo_d2))" "hd (jobs demo_d2) \<in> set (jobs demo_d2)" by code_simp+
  then show ?thesis
    using heartbeat_error_cancels_job [OF demo_reachable(2), of demo_v1 "hd (jobs demo_d2)" "\<lambda>_. True"]
    by (simp add: demo_s2_def)
qed

end
