(* ===== verification/Go_Regex.thy ===== *)
theory Go_Regex
  imports Go_Strings
begin

text \<open>
  The part of Go's \<^verbatim>\<open>regexp\<close> the sources use: capture groups, alternation, and greedy
  option and repetition. A match enumerates the ways to consume a prefix in order of
  preference (leftmost alternative first, repetition and option greedy), which is the order in
  which \<^verbatim>\<open>FindStringSubmatch\<close> prefers them. Inputs are ASCII; a byte outside
  ASCII matches no class.
\<close>

datatype rx =
    RChar "char \<Rightarrow> bool"
  | REps
  | RSeq rx rx
  | RAlt rx rx
  | ROpt rx
  | RStar rx
  | RGroup nat rx

type_synonym captures = "nat \<Rightarrow> string"

text \<open>Continue each way to match with what follows.\<close>

fun seq_all :: "(string \<Rightarrow> captures \<Rightarrow> (string \<times> captures) list) \<Rightarrow> (string \<times> captures) list \<Rightarrow> (string \<times> captures) list"
where
  "seq_all g [] = []"
| "seq_all g ((r, k) # ps) = g r k @ seq_all g ps"

text \<open>
  Greedy repetition. A round that consumes nothing ends it, so as many rounds as there
  are bytes are enough.
\<close>

fun star :: "nat \<Rightarrow> (string \<Rightarrow> captures \<Rightarrow> (string \<times> captures) list) \<Rightarrow> string \<Rightarrow> captures \<Rightarrow> (string \<times> captures) list"
  and star_all :: "nat \<Rightarrow> (string \<Rightarrow> captures \<Rightarrow> (string \<times> captures) list) \<Rightarrow> nat \<Rightarrow> (string \<times> captures) list \<Rightarrow> (string \<times> captures) list"
where
  "star 0 f s m = [(s, m)]"
| "star (Suc n) f s m = star_all n f (length s) (f s m) @ [(s, m)]"
| "star_all n f l [] = []"
| "star_all n f l ((r, k) # ps) = (if length r < l then star n f r k else []) @ star_all n f l ps"

primrec rx_match :: "rx \<Rightarrow> string \<Rightarrow> captures \<Rightarrow> (string \<times> captures) list" where
  "rx_match (RChar p) s m = (case s of [] \<Rightarrow> [] | c # r \<Rightarrow> if p c then [(r, m)] else [])"
| "rx_match REps s m = [(s, m)]"
| "rx_match (RSeq a b) s m = seq_all (rx_match b) (rx_match a s m)"
| "rx_match (RAlt a b) s m = rx_match a s m @ rx_match b s m"
| "rx_match (ROpt a) s m = rx_match a s m @ [(s, m)]"
| "rx_match (RStar a) s m = star (length s) (rx_match a) s m"
| "rx_match (RGroup i a) s m =
     map (\<lambda>(r, k). (r, k(i := take (length s - length r) s))) (rx_match a s m)"

text \<open>One or more, a literal with \<^verbatim>\<open>(?i)\<close>, a sequence and a choice of several.\<close>

definition RPlus :: "rx \<Rightarrow> rx" where "RPlus a = RSeq a (RStar a)"

definition RLit :: "string \<Rightarrow> rx" where
  "RLit w = foldr (\<lambda>c r. RSeq (RChar (\<lambda>x. lower x = c)) r) w REps"

definition RSeqs :: "rx list \<Rightarrow> rx" where
  "RSeqs rs = foldr RSeq rs REps"

fun RAlts :: "rx list \<Rightarrow> rx" where
  "RAlts [] = REps"
| "RAlts [r] = r"
| "RAlts (r # q # rs) = RAlt r (RAlts (q # rs))"

text \<open>\<^verbatim>\<open>FindStringSubmatch\<close> of a pattern anchored at both ends.\<close>

definition FindStringSubmatch :: "rx \<Rightarrow> string \<Rightarrow> captures option" where
  "FindStringSubmatch a s = map_option snd (find (\<lambda>(r, m). r = []) (rx_match a s (\<lambda>_. [])))"

text \<open>\<^verbatim>\<open>regexp.Split(s, -1)\<close> by a one-byte class.\<close>

fun SplitClass :: "(char \<Rightarrow> bool) \<Rightarrow> string \<Rightarrow> string list" where
  "SplitClass p [] = [[]]"
| "SplitClass p (c # s) =
     (if p c then [] # SplitClass p s
      else (case SplitClass p s of [] \<Rightarrow> [[c]] | q # qs \<Rightarrow> (c # q) # qs))"

section \<open>Facts\<close>

lemma SplitClass_not_Nil [simp]: "SplitClass p s \<noteq> []"
  by (induction s) (auto split: list.splits)

lemma in_seq_all: "x \<in> set (seq_all g ps) \<longleftrightarrow> (\<exists>r k. (r, k) \<in> set ps \<and> x \<in> set (g r k))"
  by (induction g ps rule: seq_all.induct) auto

lemma in_star_all:
  "x \<in> set (star_all n f l ps) \<longleftrightarrow> (\<exists>r k. (r, k) \<in> set ps \<and> length r < l \<and> x \<in> set (star n f r k))"
proof (induction ps)
  case (Cons y ps)
  obtain a b where "y = (a, b)" by force
  with Cons show ?case by (cases "length a < l") (simp, blast, auto)
qed simp

text \<open>A match consumes a prefix; every way to repeat is a chain of rounds.\<close>

lemma star_suffix:
  assumes "\<And>s m r k. (r, k) \<in> set (f s m) \<Longrightarrow> \<exists>u. s = u @ r"
  shows "(r, k) \<in> set (star n f s m) \<Longrightarrow> \<exists>u. s = u @ r"
proof (induction n arbitrary: s m)
  case (Suc n)
  then consider "r = s" | r1 k1 where "(r1, k1) \<in> set (f s m)" "(r, k) \<in> set (star n f r1 k1)"
    by (auto simp: in_star_all)
  then show ?case
  proof cases
    case (2 r1 k1)
    from assms [OF 2(1)] Suc.IH [OF 2(2)] show ?thesis by force
  qed simp
qed simp

lemma rx_match_suffix: "(r, k) \<in> set (rx_match a s m) \<Longrightarrow> \<exists>u. s = u @ r"
proof (induction a arbitrary: s m r k)
  case (RChar p)
  then show ?case by (auto split: list.splits if_splits)
next
  case (RSeq a b)
  then obtain r1 k1 where 1: "(r1, k1) \<in> set (rx_match a s m)" "(r, k) \<in> set (rx_match b r1 k1)"
    by (auto simp: in_seq_all)
  from RSeq.IH(1) [OF 1(1)] RSeq.IH(2) [OF 1(2)] show ?case by force
next
  case (RStar a)
  then show ?case using star_suffix [of "rx_match a"] by auto
qed auto

end
