(* ===== verification/Pypi_Version.thy ===== *)
theory Pypi_Version
  imports Go_Regex Job
begin

text \<open>
  PEP 440 versions of \<^verbatim>\<open>internal/pypi/version.go\<close>: parsing by the package's regular
  expression, the ordering, constraint clauses and the choice of a version. An index that
  Go would check at run time is an option: \<open>None\<close> is the panic. Error texts are
  reduced to their fixed part and the offending input, without the quoting of \<^verbatim>\<open>%q\<close>.
\<close>

section \<open>Versions\<close>

record version =
  v_raw :: string
  v_epoch :: int
  v_release :: "int list"
  v_preKind :: int
  v_preNum :: int
  v_hasPre :: bool
  v_postNum :: int
  v_hasPost :: bool
  v_devNum :: int
  v_hasDev :: bool
  v_local :: "string list"

definition zero_version :: version where
  "zero_version = \<lparr>v_raw = [], v_epoch = 0, v_release = [], v_preKind = 0, v_preNum = 0, v_hasPre = False,
     v_postNum = 0, v_hasPost = False, v_devNum = 0, v_hasDev = False, v_local = []\<rparr>"

definition dot_sep :: "char \<Rightarrow> bool" where
  "dot_sep c \<longleftrightarrow> c \<in> {CHR ''.'', CHR ''_'', CHR ''-''}"

definition alnum :: "char \<Rightarrow> bool" where
  "alnum c \<longleftrightarrow> is_digit c \<or> is_lower (lower c)"

definition opt_sep :: rx where "opt_sep = ROpt (RChar dot_sep)"
definition digits :: rx where "digits = RPlus (RChar is_digit)"

text \<open>
  \<^verbatim>\<open>pythonVersionPattern\<close>: an optional \<^verbatim>\<open>v\<close>, epoch (group 1), release (2),
  pre-release (3, 4), post-release (5, or 6 and 7), development release (8, 9), local
  version (10).
\<close>

definition pythonVersionPattern :: rx where
  "pythonVersionPattern = RSeqs
     [ROpt (RChar (\<lambda>c. lower c = CHR ''v'')),
      ROpt (RSeq (RGroup 1 digits) (RChar (\<lambda>c. c = CHR ''!''))),
      RGroup 2 (RSeq digits (RStar (RSeq (RChar dot_sep) digits))),
      ROpt (RSeqs [opt_sep,
        RGroup 3 (RAlts [RLit ''a'', RLit ''b'', RLit ''c'', RLit ''rc'', RLit ''alpha'', RLit ''beta'',
          RLit ''pre'', RLit ''preview'']),
        opt_sep, ROpt (RGroup 4 digits)]),
      ROpt (RAlt (RSeq (RChar (\<lambda>c. c = CHR ''-'')) (RGroup 5 digits))
        (RSeqs [opt_sep, RGroup 6 (RAlts [RLit ''post'', RLit ''rev'', RLit ''r'']), opt_sep,
          ROpt (RGroup 7 digits)])),
      ROpt (RSeqs [opt_sep, RGroup 8 (RLit ''dev''), opt_sep, ROpt (RGroup 9 digits)]),
      ROpt (RSeq (RChar (\<lambda>c. c = CHR ''+''))
        (RGroup 10 (RSeq (RPlus (RChar alnum)) (RStar (RSeq (RChar dot_sep) (RPlus (RChar alnum)))))))]"

definition parseImplicitNumber :: "string \<Rightarrow> int" where
  "parseImplicitNumber t = (if t = [] then 0 else fst (Atoi t))"

text \<open>The numbers of a release, or \<open>None\<close> at the first that does not fit.\<close>

fun atoi_all :: "string list \<Rightarrow> int list option" where
  "atoi_all [] = Some []"
| "atoi_all (p # ps) =
     (let (n, ok) = Atoi p
      in if \<not> ok then None else (case atoi_all ps of None \<Rightarrow> None | Some ns \<Rightarrow> Some (n # ns)))"

definition pre_kind :: "string \<Rightarrow> int" where
  "pre_kind t = (let l = ToLower t in
     if l = ''a'' \<or> l = ''alpha'' then 0 else if l = ''b'' \<or> l = ''beta'' then 1 else 2)"

definition version_of :: "string \<Rightarrow> captures \<Rightarrow> string + version" where
  "version_of raw m =
     (let (epoch, epoch_ok) = (if m 1 \<noteq> [] then Atoi (m 1) else (0, True))
      in if \<not> epoch_ok then Inl (''pypi: invalid epoch in version '' @ raw)
         else case atoi_all (SplitClass dot_sep (m 2)) of
             None \<Rightarrow> Inl (''pypi: invalid release in version '' @ raw)
           | Some rel \<Rightarrow> Inr
               \<lparr>v_raw = raw, v_epoch = epoch, v_release = rel,
                v_preKind = (if m 3 \<noteq> [] then pre_kind (m 3) else 0),
                v_preNum = (if m 3 \<noteq> [] then parseImplicitNumber (m 4) else 0),
                v_hasPre = (m 3 \<noteq> []),
                v_postNum = (if m 5 \<noteq> [] then fst (Atoi (m 5))
                             else if m 6 \<noteq> [] then parseImplicitNumber (m 7) else 0),
                v_hasPost = (m 5 \<noteq> [] \<or> m 6 \<noteq> []),
                v_devNum = (if m 8 \<noteq> [] then parseImplicitNumber (m 9) else 0),
                v_hasDev = (m 8 \<noteq> []),
                v_local = (if m 10 \<noteq> [] then SplitClass dot_sep (ToLower (m 10)) else [])\<rparr>)"

definition ParseVersion :: "string \<Rightarrow> string + version" where
  "ParseVersion value0 =
     (let raw = TrimSpace value0
      in case FindStringSubmatch pythonVersionPattern raw of
           None \<Rightarrow> Inl (''pypi: invalid PEP 440 version '' @ raw)
         | Some m \<Rightarrow> version_of raw m)"

section \<open>Ordering\<close>

definition compareInt :: "int \<Rightarrow> int \<Rightarrow> int" where
  "compareInt l r = (if l < r then - 1 else if l > r then 1 else 0)"

fun compareRelease :: "int list \<Rightarrow> int list \<Rightarrow> int" where
  "compareRelease [] [] = 0"
| "compareRelease (x # xs) [] = (let c = compareInt x 0 in if c \<noteq> 0 then c else compareRelease xs [])"
| "compareRelease [] (y # ys) = (let c = compareInt 0 y in if c \<noteq> 0 then c else compareRelease [] ys)"
| "compareRelease (x # xs) (y # ys) =
     (let c = compareInt x y in if c \<noteq> 0 then c else compareRelease xs ys)"

definition pre_rank :: "version \<Rightarrow> int \<times> int \<times> int" where
  "pre_rank v = (if v_hasPre v then (0, v_preKind v, v_preNum v)
     else if v_hasDev v \<and> \<not> v_hasPost v then (- 1, 0, 0) else (1, 0, 0))"

definition comparePre :: "version \<Rightarrow> version \<Rightarrow> int" where
  "comparePre l r =
     (let (lrank, lkind, lnum) = pre_rank l; (rrank, rkind, rnum) = pre_rank r
      in if compareInt lrank rrank \<noteq> 0 then compareInt lrank rrank
         else if compareInt lkind rkind \<noteq> 0 then compareInt lkind rkind
         else compareInt lnum rnum)"

definition compareOptionalNumber :: "bool \<Rightarrow> int \<Rightarrow> bool \<Rightarrow> int \<Rightarrow> int \<Rightarrow> int" where
  "compareOptionalNumber leftSet l rightSet r missingRank =
     (if \<not> leftSet \<and> \<not> rightSet then 0
      else if \<not> leftSet then missingRank
      else if \<not> rightSet then - missingRank
      else compareInt l r)"

fun compareLocalParts :: "string list \<Rightarrow> string list \<Rightarrow> int option" where
  "compareLocalParts (x # xs) (y # ys) =
     (let (xn, xok) = Atoi x; (yn, yok) = Atoi y
      in if xok \<and> yok then (if compareInt xn yn \<noteq> 0 then Some (compareInt xn yn) else compareLocalParts xs ys)
         else if xok then Some 1
         else if yok then Some (- 1)
         else if compareString x y \<noteq> 0 then Some (compareString x y) else compareLocalParts xs ys)"
| "compareLocalParts _ _ = None"

definition compareLocal :: "string list \<Rightarrow> string list \<Rightarrow> int" where
  "compareLocal l r =
     (if l = [] \<and> r = [] then 0 else if l = [] then - 1 else if r = [] then 1
      else case compareLocalParts l r of
          Some c \<Rightarrow> c
        | None \<Rightarrow> compareInt (int (length l)) (int (length r)))"

definition Compare :: "version \<Rightarrow> version \<Rightarrow> int" where
  "Compare v w =
     (if compareInt (v_epoch v) (v_epoch w) \<noteq> 0 then compareInt (v_epoch v) (v_epoch w)
      else if compareRelease (v_release v) (v_release w) \<noteq> 0 then compareRelease (v_release v) (v_release w)
      else if comparePre v w \<noteq> 0 then comparePre v w
      else let post = compareOptionalNumber (v_hasPost v) (v_postNum v) (v_hasPost w) (v_postNum w) (- 1);
               dev = compareOptionalNumber (v_hasDev v) (v_devNum v) (v_hasDev w) (v_devNum w) 1
           in if post \<noteq> 0 then post else if dev \<noteq> 0 then dev
              else compareLocal (v_local v) (v_local w))"

section \<open>Constraints\<close>

record versionClause =
  c_operator :: string
  c_value :: string
  c_version :: version
  c_prefixEpoch :: int
  c_prefix :: "int list"

definition operators :: "string list" where
  "operators = [''==='', ''~='', ''=='', ''!='', ''<='', ''>='', ''<'', ''>'']"

text \<open>The operator a part starts with, first candidate first, and the rest.\<close>

definition split_operator :: "string \<Rightarrow> string \<times> string" where
  "split_operator part =
     (case find (HasPrefix part) operators of
        None \<Rightarrow> (''=='', part)
      | Some op \<Rightarrow> (op, TrimSpace (TrimPrefix part op)))"

text \<open>\<^verbatim>\<open>~=\<close> needs a dot before the first plus or minus sign.\<close>

definition compatible_form :: "string \<Rightarrow> bool" where
  "compatible_form text =
     (let releasePart = hd (SplitN2 (hd (SplitN2 text CHR ''+'')) CHR ''-'')
      in 1 \<le> count_list releasePart CHR ''.'')"

text \<open>The epoch and release prefix of a wildcard.\<close>

definition parse_wildcard :: "string \<Rightarrow> (int \<times> int list) option" where
  "parse_wildcard text =
     (let prefixText = TrimSuffix text ''.*'';
          epochParts = Split prefixText CHR ''!'';
          epoch = (if length epochParts = 2 then (let (n, ok) = Atoi (epochParts ! 0) in if ok then Some n else None)
                   else if length epochParts > 2 then None else Some 0);
          body = (if length epochParts = 2 then epochParts ! 1 else prefixText)
      in case epoch of None \<Rightarrow> None
         | Some e \<Rightarrow> (case atoi_all (Split body CHR ''.'') of None \<Rightarrow> None | Some ns \<Rightarrow> Some (e, ns)))"

text \<open>One part of \<open>n\<close>; the flag says whether it names a pre-release.\<close>

definition parse_clause :: "nat \<Rightarrow> string \<Rightarrow> string + versionClause \<times> bool" where
  "parse_clause n part0 =
     (let part = TrimSpace part0;
          (op, text) = split_operator part;
          clause = \<lparr>c_operator = op, c_value = text, c_version = zero_version, c_prefixEpoch = 0, c_prefix = []\<rparr>
      in if text = [] then Inl ''pypi: missing version in constraint''
         else if op = ''~='' \<and> \<not> compatible_form text
         then Inl (''pypi: compatible constraint requires at least two release segments in '' @ part)
         else if op = ''==='' then
           (if n \<noteq> 1 then Inl ''pypi: arbitrary equality cannot be combined'' else Inr (clause, False))
         else if HasSuffix text ''.*'' then
           (if op \<noteq> ''=='' \<and> op \<noteq> ''!='' then Inl (''pypi: wildcard requires == or != in '' @ part)
            else case parse_wildcard text of
                None \<Rightarrow> Inl (''pypi: invalid wildcard constraint '' @ part)
              | Some (e, ns) \<Rightarrow> Inr (clause\<lparr>c_prefixEpoch := e, c_prefix := ns\<rparr>, False))
         else case ParseVersion text of
             Inl err \<Rightarrow> Inl (''pypi: invalid constraint '' @ part @ '': '' @ err)
           | Inr v \<Rightarrow> Inr (clause\<lparr>c_version := v\<rparr>, v_hasPre v \<or> v_hasDev v))"

fun parse_clauses :: "nat \<Rightarrow> string list \<Rightarrow> string + versionClause list \<times> bool" where
  "parse_clauses n [] = Inr ([], False)"
| "parse_clauses n (p # ps) =
     (case parse_clause n p of
        Inl e \<Rightarrow> Inl e
      | Inr (c, pre) \<Rightarrow>
          (case parse_clauses n ps of
             Inl e \<Rightarrow> Inl e
           | Inr (cs, pres) \<Rightarrow> Inr (c # cs, pre \<or> pres)))"

definition parseConstraint :: "string \<Rightarrow> string + versionClause list \<times> bool" where
  "parseConstraint raw0 =
     (let raw = TrimSpace raw0
      in if raw = [] \<or> raw = ''*'' then Inr ([], False)
         else let parts = Split raw CHR '','' in parse_clauses (length parts) parts)"

definition NormalizeConstraint :: "string \<Rightarrow> string + string" where
  "NormalizeConstraint raw =
     (case parseConstraint raw of
        Inl e \<Rightarrow> Inl e
      | Inr (clauses, _) \<Rightarrow> Inr (Join (map (\<lambda>c. c_operator c @ c_value c) clauses) '',''))"

section \<open>Matching\<close>

definition samePublicRelease :: "version \<Rightarrow> version \<Rightarrow> bool" where
  "samePublicRelease l r \<longleftrightarrow> v_epoch l = v_epoch r \<and> compareRelease (v_release l) (v_release r) = 0"

definition compareSpecifierVersion :: "version \<Rightarrow> version \<Rightarrow> int" where
  "compareSpecifierVersion candidate specified =
     Compare (if v_local specified = [] then candidate\<lparr>v_local := []\<rparr> else candidate) specified"

text \<open>Indexing a slice: \<open>None\<close> is the out-of-range panic.\<close>

definition at :: "'a list \<Rightarrow> nat \<Rightarrow> 'a option" where
  "at xs i = (if i < length xs then Some (xs ! i) else None)"

text \<open>
  \<^verbatim>\<open>for index := 0; index < n; index++ { if a[index] != b[index] { return false } }\<close>.
\<close>

fun equal_upto :: "int list \<Rightarrow> int list \<Rightarrow> nat \<Rightarrow> nat \<Rightarrow> bool option" where
  "equal_upto a b i 0 = Some True"
| "equal_upto a b i (Suc n) =
     (case at a i of None \<Rightarrow> None
      | Some x \<Rightarrow> (case at b i of None \<Rightarrow> None
          | Some y \<Rightarrow> if x \<noteq> y then Some False else equal_upto a b (Suc i) n))"

definition compatiblePrefix :: "version \<Rightarrow> version \<Rightarrow> bool option" where
  "compatiblePrefix candidate minimum =
     (if v_epoch candidate \<noteq> v_epoch minimum then Some False
      else let prefixLength = max (length (v_release minimum) - 1) 1
           in if length (v_release candidate) < prefixLength then Some False
              else equal_upto (v_release candidate) (v_release minimum) 0 prefixLength)"

text \<open>The loop over a wildcard prefix; the conjunction stops at the first mismatch.\<close>

definition matches_prefix :: "version \<Rightarrow> versionClause \<Rightarrow> bool option" where
  "matches_prefix v c =
     (if v_epoch v = c_prefixEpoch c \<and> length (c_prefix c) \<le> length (v_release v)
      then equal_upto (v_release v) (c_prefix c) 0 (length (c_prefix c)) else Some False)"

definition clause_accepts :: "version \<Rightarrow> string \<Rightarrow> versionClause \<Rightarrow> bool option" where
  "clause_accepts v raw c =
     (if c_operator c = ''==='' then Some (raw = c_value c)
      else if c_prefix c \<noteq> [] then map_option (\<lambda>m. (c_operator c = ''=='') = m) (matches_prefix v c)
      else let compared = compareSpecifierVersion v (c_version c); op = c_operator c
           in if op = ''=='' then Some (compared = 0)
              else if op = ''!='' then Some (compared \<noteq> 0)
              else if op = ''<'' then Some (\<not> (compared \<ge> 0 \<or> (\<not> v_hasPre (c_version c)
                \<and> samePublicRelease v (c_version c) \<and> (v_hasPre v \<or> v_hasDev v))))
              else if op = ''<='' then Some (\<not> compared > 0)
              else if op = ''>'' then Some (\<not> (compared \<le> 0 \<or> (\<not> v_hasPost (c_version c)
                \<and> samePublicRelease v (c_version c) \<and> v_hasPost v)))
              else if op = ''>='' then Some (\<not> compared < 0)
              else if op = ''~='' then
                (if compared < 0 then Some False else compatiblePrefix v (c_version c))
              else Some True)"

fun matchesClauses :: "version \<Rightarrow> string \<Rightarrow> versionClause list \<Rightarrow> bool option" where
  "matchesClauses v raw [] = Some True"
| "matchesClauses v raw (c # cs) =
     (case clause_accepts v raw c of
        None \<Rightarrow> None
      | Some False \<Rightarrow> Some False
      | Some True \<Rightarrow> matchesClauses v raw cs)"

section \<open>Choosing a version\<close>

text \<open>The stable and the pre-release candidates, in the order listed.\<close>

fun candidates :: "versionClause list \<Rightarrow> string list \<Rightarrow> ((string \<times> version) list \<times> (string \<times> version) list) option" where
  "candidates cs [] = Some ([], [])"
| "candidates cs (raw # rest) =
     (case ParseVersion raw of
        Inl _ \<Rightarrow> candidates cs rest
      | Inr v \<Rightarrow>
          (case matchesClauses v raw cs of
             None \<Rightarrow> None
           | Some False \<Rightarrow> candidates cs rest
           | Some True \<Rightarrow>
               map_option (\<lambda>(steady, pre). if v_hasPre v \<or> v_hasDev v then (steady, (raw, v) # pre)
                                           else ((raw, v) # steady, pre)) (candidates cs rest)))"

text \<open>
  \<^verbatim>\<open>sort.Slice\<close> is an argument: it permutes the slice so that no element is less
  than an earlier one, and does not promise an order among equal elements.
\<close>

type_synonym sort_slice = "((string \<times> version) \<Rightarrow> (string \<times> version) \<Rightarrow> bool) \<Rightarrow> (string \<times> version) list \<Rightarrow> (string \<times> version) list"

definition sorts :: "sort_slice \<Rightarrow> bool" where
  "sorts srt \<longleftrightarrow> (\<forall>less xs. set (srt less xs) = set xs \<and> length (srt less xs) = length xs
     \<and> ((\<forall>x y. \<not> (less x y \<and> less y x)) \<longrightarrow>
        (\<forall>x y z. \<not> less y x \<longrightarrow> \<not> less z y \<longrightarrow> \<not> less z x) \<longrightarrow>
        sorted_wrt (\<lambda>a b. \<not> less b a) (srt less xs)))"

text \<open>\<open>None\<close> is a panic, \<open>Some (Inl e)\<close> an error.\<close>

definition ResolveVersion :: "sort_slice \<Rightarrow> string \<Rightarrow> string list \<Rightarrow> (string + string) option" where
  "ResolveVersion srt constraint available =
     (case parseConstraint constraint of
        Inl e \<Rightarrow> Some (Inl e)
      | Inr (clauses, permitsPrerelease) \<Rightarrow>
          if length clauses = 1 \<and> c_operator (hd clauses) = ''==='' then
            (case find (\<lambda>raw. raw = c_value (hd clauses)) available of
               Some raw \<Rightarrow> Some (Inr raw)
             | None \<Rightarrow> Some (Inl (''pypi: no version satisfies constraint '' @ constraint)))
          else
            (case candidates clauses available of
               None \<Rightarrow> None
             | Some (steady, pre) \<Rightarrow>
                 let cands = (if permitsPrerelease \<or> steady = [] then steady @ pre else steady)
                 in if cands = [] then Some (Inl (''pypi: no version satisfies constraint '' @ constraint))
                    else Some (Inr (fst (last (srt (\<lambda>a b. Compare (snd a) (snd b) < 0) cands))))))"

end
