(* ===== verification/Pypi_Requirement.thy ===== *)
theory Pypi_Requirement
  imports Pypi_Version
begin

text \<open>
  PEP 508 requirements of \<^verbatim>\<open>internal/pypi/requirement.go\<close>: the target environment, package
  names, the requirement line, and the tokenizer and recursive-descent evaluator of
  environment markers. The parser's index into the token slice is the list of the tokens
  still ahead. A result of type \<open>'a option\<close> is \<open>None\<close> for a run-time panic.
\<close>

section \<open>Target environment\<close>

record target =
  t_PythonVersion :: string
  t_PythonFullVersion :: string
  t_Platform :: string
  t_SysPlatform :: string
  t_OSName :: string
  t_PlatformSystem :: string
  t_Implementation :: string

text \<open>\<^verbatim>\<open>SysPlatform\<close>, \<^verbatim>\<open>OSName\<close> and \<^verbatim>\<open>PlatformSystem\<close> of a platform.\<close>

definition platform_names :: "string \<Rightarrow> (string \<times> string \<times> string) option" where
  "platform_names p =
     (if p = ''linux'' then Some (''linux'', ''posix'', ''Linux'')
      else if p = ''windows'' then Some (''win32'', ''nt'', ''Windows'')
      else if p = ''darwin'' then Some (''darwin'', ''posix'', ''Darwin'') else None)"

definition target_version_ok :: "version \<Rightarrow> bool" where
  "target_version_ok v \<longleftrightarrow> \<not> (length (v_release v) < 2 \<or> length (v_release v) > 3 \<or> v_epoch v \<noteq> 0
     \<or> v_hasPre v \<or> v_hasPost v \<or> v_hasDev v \<or> v_local v \<noteq> [])"

definition minor_text :: "version \<Rightarrow> string" where
  "minor_text v = Itoa (v_release v ! 0) @ ''.'' @ Itoa (v_release v ! 1)"

definition full_text :: "version \<Rightarrow> string" where
  "full_text v = minor_text v
     @ (if length (v_release v) = 2 then ''.0'' else ''.'' @ Itoa (v_release v ! 2))"

definition NewTarget :: "string \<Rightarrow> string \<Rightarrow> string + target" where
  "NewTarget pythonVersion platform =
     (case ParseVersion pythonVersion of
        Inl _ \<Rightarrow> Inl ''python target version must be stable major.minor or major.minor.patch''
      | Inr v \<Rightarrow>
          if \<not> target_version_ok v
          then Inl ''python target version must be stable major.minor or major.minor.patch''
          else case platform_names (ToLower platform) of
              None \<Rightarrow> Inl ''unsupported Python platform''
            | Some (sys, os, system) \<Rightarrow> Inr
                \<lparr>t_PythonVersion = minor_text v, t_PythonFullVersion = full_text v, t_Platform = ToLower platform,
                 t_SysPlatform = sys, t_OSName = os, t_PlatformSystem = system, t_Implementation = ''cpython''\<rparr>)"

section \<open>Names\<close>

text \<open>\<^verbatim>\<open>ReplaceAllString\<close> of \<^verbatim>\<open>[-_.]+\<close> by a dash: a run of separators becomes one dash.\<close>

fun collapse :: "bool \<Rightarrow> string \<Rightarrow> string" where
  "collapse run [] = []"
| "collapse run (c # s) =
     (if dot_sep c then (if run then collapse True s else CHR ''-'' # collapse True s)
      else c # collapse False s)"

definition NormalizeName :: "string \<Rightarrow> string" where
  "NormalizeName name = ToLower (collapse False name)"

definition name_char :: "char \<Rightarrow> bool" where
  "name_char c \<longleftrightarrow> alnum c \<or> dot_sep c"

definition pythonNamePattern :: rx where
  "pythonNamePattern = RSeq (RChar alnum) (ROpt (RSeq (RStar (RChar name_char)) (RChar alnum)))"

text \<open>\<^verbatim>\<open>FindString\<close> of a pattern anchored at the start.\<close>

definition FindString :: "rx \<Rightarrow> string \<Rightarrow> string" where
  "FindString a s = (case rx_match a s (\<lambda>_. []) of [] \<Rightarrow> [] | (rest, _) # _ \<Rightarrow> take (length s - length rest) s)"

definition directURLScheme :: rx where
  "directURLScheme = RSeq (RAlts [RSeq (RLit ''http'') (ROpt (RLit ''s'')), RLit ''file'', RLit ''git+'', RLit ''hg+'',
     RLit ''svn+'', RLit ''bzr+'']) (RChar (\<lambda>c. c = CHR '':''))"

section \<open>Marker tokens\<close>

datatype markerTokenKind = MarkerEOF | MarkerWord | MarkerString | MarkerOperator | MarkerLeftParen | MarkerRightParen

record markerToken =
  mt_kind :: markerTokenKind
  mt_value :: string

definition token :: "markerTokenKind \<Rightarrow> string \<Rightarrow> markerToken" where
  "token k v = \<lparr>mt_kind = k, mt_value = v\<rparr>"

text \<open>\<^verbatim>\<open>unicode.IsSpace\<close> of a byte taken as a rune, and the two character sets.\<close>

definition marker_space :: "char \<Rightarrow> bool" where
  "marker_space c \<longleftrightarrow> is_space c \<or> c = CHR 0x85 \<or> c = CHR 0xA0"

definition operator_char :: "char \<Rightarrow> bool" where
  "operator_char c \<longleftrightarrow> c \<in> set ''<>=!~''"

definition word_end :: "char \<Rightarrow> bool" where
  "word_end c \<longleftrightarrow> marker_space c \<or> c \<in> {CHR ''('', CHR '')'', CHR ''<'', CHR ''>'', CHR ''!'', CHR ''='', CHR ''~'', CHR 0x27, CHR 0x22}"

function tokenize :: "string \<Rightarrow> string + markerToken list" where
  "tokenize [] = Inr [token MarkerEOF []]"
| "tokenize (c # s) =
     (if marker_space c then tokenize s
      else if c = CHR ''('' then map_sum id ((#) (token MarkerLeftParen ''('')) (tokenize s)
      else if c = CHR '')'' then map_sum id ((#) (token MarkerRightParen '')'')) (tokenize s)
      else if c = CHR 0x27 \<or> c = CHR 0x22 then
        (case dropWhile (\<lambda>x. x \<noteq> c) s of
           [] \<Rightarrow> Inl ''unterminated marker string''
         | _ # rest \<Rightarrow> map_sum id ((#) (token MarkerString (takeWhile (\<lambda>x. x \<noteq> c) s))) (tokenize rest))
      else if operator_char c then
        (case s of
           d # rest \<Rightarrow>
             if d = CHR ''='' then map_sum id ((#) (token MarkerOperator [c, d])) (tokenize rest)
             else map_sum id ((#) (token MarkerOperator [c])) (tokenize s)
         | [] \<Rightarrow> map_sum id ((#) (token MarkerOperator [c])) (tokenize []))
      else if takeWhile (\<lambda>x. \<not> word_end x) (c # s) = [] then Inl ''unexpected marker character''
      else map_sum id ((#) (token MarkerWord (takeWhile (\<lambda>x. \<not> word_end x) (c # s))))
        (tokenize (dropWhile (\<lambda>x. \<not> word_end x) (c # s))))"
  by pat_completeness auto
termination
proof (relation "measure length")
  fix c :: char and s :: string and d rest
  assume "dropWhile (\<lambda>x. x \<noteq> c) s = d # rest"
  then have "length (d # rest) \<le> length s" by (metis length_dropWhile_le)
  then show "(rest, c # s) \<in> measure length" by simp
next
  fix c :: char and s :: string
  assume "takeWhile (\<lambda>x. \<not> word_end x) (c # s) \<noteq> []"
  then have "\<not> word_end c" by (auto split: if_splits)
  then show "(dropWhile (\<lambda>x. \<not> word_end x) (c # s), c # s) \<in> measure length"
    by (simp add: length_dropWhile_le less_Suc_eq_le)
qed auto

definition tokenizeMarker :: "string \<Rightarrow> string + markerToken list" where
  "tokenizeMarker input = tokenize input"

section \<open>Marker values\<close>

definition markerVariableValue :: "string \<Rightarrow> target \<Rightarrow> string option" where
  "markerVariableValue name t =
     (if name = ''python_version'' then Some (t_PythonVersion t)
      else if name = ''python_full_version'' then Some (t_PythonFullVersion t)
      else if name = ''sys_platform'' then Some (t_SysPlatform t)
      else if name = ''os_name'' then Some (t_OSName t)
      else if name = ''platform_system'' then Some (t_PlatformSystem t)
      else if name = ''implementation_name'' then Some (t_Implementation t)
      else if name = ''platform_python_implementation'' then Some ''CPython''
      else if name = ''implementation_version'' then Some (t_PythonFullVersion t)
      else if name = ''extra'' then Some [] else None)"

definition version_variable :: "string \<Rightarrow> bool" where
  "version_variable v \<longleftrightarrow> v = ''python_version'' \<or> v = ''python_full_version'' \<or> v = ''implementation_version''"

definition compareMarkerValues :: "string \<Rightarrow> string \<Rightarrow> string \<Rightarrow> string \<Rightarrow> string \<Rightarrow> bool option" where
  "compareMarkerValues l r operator leftVariable rightVariable =
     (if operator = ''in'' then Some (Contains r l)
      else if operator = ''not in'' then Some (\<not> Contains r l)
      else
        let compared =
              (if version_variable leftVariable \<or> version_variable rightVariable
               then (case (ParseVersion l, ParseVersion r) of
                       (Inr lv, Inr rv) \<Rightarrow> Compare lv rv
                     | _ \<Rightarrow> compareString l r)
               else compareString l r)
        in if operator = ''=='' \<or> operator = ''==='' then Some (compared = 0)
           else if operator = ''!='' then Some (compared \<noteq> 0)
           else if operator = ''<'' then Some (compared < 0)
           else if operator = ''<='' then Some (compared \<le> 0)
           else if operator = ''>'' then Some (compared > 0)
           else if operator = ''>='' then Some (compared \<ge> 0)
           else if operator = ''~='' then
             (case (ParseVersion l, ParseVersion r) of
                (Inr lv, Inr rv) \<Rightarrow> if Compare lv rv \<ge> 0 then compatiblePrefix lv rv else Some False
              | _ \<Rightarrow> Some False)
           else Some False)"

section \<open>The marker parser\<close>

text \<open>
  The outcome of a parsing method: a run-time panic (\<^verbatim>\<open>Crash\<close>), an error, or a value with
  the tokens still ahead.
\<close>

datatype 'a parsed = Crash | Reject string | Accept 'a "markerToken list"

fun bind_parsed :: "'a parsed \<Rightarrow> ('a \<Rightarrow> markerToken list \<Rightarrow> 'b parsed) \<Rightarrow> 'b parsed" where
  "bind_parsed Crash f = Crash"
| "bind_parsed (Reject e) f = Reject e"
| "bind_parsed (Accept x ts) f = f x ts"

text \<open>\<^verbatim>\<open>current\<close> indexes the slice, which panics when no token is left; \<^verbatim>\<open>peek\<close> does not.\<close>

fun peek :: "markerToken list \<Rightarrow> markerToken" where
  "peek (_ # t # ts) = t"
| "peek _ = token MarkerEOF []"

fun parseOperand :: "target \<Rightarrow> markerToken list \<Rightarrow> (string \<times> string) parsed" where
  "parseOperand T [] = Crash"
| "parseOperand T (t # ts) =
     (if mt_kind t \<noteq> MarkerWord \<and> mt_kind t \<noteq> MarkerString then Reject ''expected marker operand''
      else if mt_kind t = MarkerString then Accept (mt_value t, []) ts
      else case markerVariableValue (mt_value t) T of
          None \<Rightarrow> Reject ''unsupported marker variable''
        | Some v \<Rightarrow> Accept (v, mt_value t) ts)"

definition comparison_operators :: "string list" where
  "comparison_operators = [''=='', ''!='', ''<'', ''<='', ''>'', ''>='', ''~='', ''==='']"

fun parseOperator :: "markerToken list \<Rightarrow> string parsed" where
  "parseOperator [] = Crash"
| "parseOperator (t # ts) =
     (if mt_kind t = MarkerOperator then
        (if mt_value t \<in> set comparison_operators then Accept (mt_value t) ts
         else Reject ''unsupported marker operator'')
      else if EqualFold (mt_value t) ''in'' then Accept ''in'' ts
      else if EqualFold (mt_value t) ''not'' \<and> EqualFold (mt_value (peek (t # ts))) ''in'' then Accept ''not in'' (drop 1 ts)
      else Reject ''expected marker comparison operator'')"

definition parse_comparison :: "target \<Rightarrow> markerToken list \<Rightarrow> bool parsed" where
  "parse_comparison T ts =
     bind_parsed (parseOperand T ts) (\<lambda>(l, lvar) ts1.
     bind_parsed (parseOperator ts1) (\<lambda>op ts2.
     bind_parsed (parseOperand T ts2) (\<lambda>(r, rvar) ts3.
       case compareMarkerValues l r op lvar rvar of None \<Rightarrow> Crash | Some b \<Rightarrow> Accept b ts3)))"

definition is_or :: "markerToken \<Rightarrow> bool" where "is_or t \<longleftrightarrow> EqualFold (mt_value t) ''or''"
definition is_and :: "markerToken \<Rightarrow> bool" where "is_and t \<longleftrightarrow> EqualFold (mt_value t) ''and''"

text \<open>
  The methods call each other with tokens consumed in between. A called method returns at
  most the tokens it was given, so the guards on the lengths, which only serve the
  termination proof, never fail; \<open>Reject []\<close> stands there.
\<close>

function (sequential) parseOr :: "target \<Rightarrow> markerToken list \<Rightarrow> bool parsed"
  and or_loop :: "target \<Rightarrow> bool \<Rightarrow> markerToken list \<Rightarrow> bool parsed"
  and parseAnd :: "target \<Rightarrow> markerToken list \<Rightarrow> bool parsed"
  and and_loop :: "target \<Rightarrow> bool \<Rightarrow> markerToken list \<Rightarrow> bool parsed"
  and parseTerm :: "target \<Rightarrow> markerToken list \<Rightarrow> bool parsed"
where
  "parseOr T ts =
     (case parseAnd T ts of
        Crash \<Rightarrow> Crash
      | Reject e \<Rightarrow> Reject e
      | Accept b rest \<Rightarrow> if length rest \<le> length ts then or_loop T b rest else Reject [])"
| "or_loop T left [] = Crash"
| "or_loop T left (t # ts) =
     (if is_or t
      then (case parseAnd T ts of
              Crash \<Rightarrow> Crash
            | Reject e \<Rightarrow> Reject e
            | Accept right rest \<Rightarrow>
                if length rest \<le> length ts then or_loop T (left \<or> right) rest else Reject [])
      else Accept left (t # ts))"
| "parseAnd T ts =
     (case parseTerm T ts of
        Crash \<Rightarrow> Crash
      | Reject e \<Rightarrow> Reject e
      | Accept b rest \<Rightarrow> if length rest \<le> length ts then and_loop T b rest else Reject [])"
| "and_loop T left [] = Crash"
| "and_loop T left (t # ts) =
     (if is_and t
      then (case parseTerm T ts of
              Crash \<Rightarrow> Crash
            | Reject e \<Rightarrow> Reject e
            | Accept right rest \<Rightarrow>
                if length rest \<le> length ts then and_loop T (left \<and> right) rest else Reject [])
      else Accept left (t # ts))"
| "parseTerm T [] = Crash"
| "parseTerm T (t # ts) =
     (if mt_kind t = MarkerLeftParen
      then (case parseOr T ts of
              Crash \<Rightarrow> Crash
            | Reject e \<Rightarrow> Reject e
            | Accept b [] \<Rightarrow> Crash
            | Accept b (t1 # rest) \<Rightarrow>
                if mt_kind t1 \<noteq> MarkerRightParen then Reject ''missing closing marker parenthesis''
                else Accept b rest)
      else parse_comparison T (t # ts))"
  by pat_completeness auto
termination
  by (relation "measure (\<lambda>x. case x of
      Inl (Inl (T, ts)) \<Rightarrow> 4 * length ts + 3
    | Inl (Inr (T, b, ts)) \<Rightarrow> 4 * length ts + 2
    | Inr (Inl (T, ts)) \<Rightarrow> 4 * length ts + 2
    | Inr (Inr (Inl (T, b, ts))) \<Rightarrow> 4 * length ts + 1
    | Inr (Inr (Inr (T, ts))) \<Rightarrow> 4 * length ts + 1)") auto

definition EvaluateMarker :: "string \<Rightarrow> target \<Rightarrow> (string + bool) option" where
  "EvaluateMarker expression T =
     (case tokenizeMarker expression of
        Inl e \<Rightarrow> Some (Inl e)
      | Inr ts \<Rightarrow>
          (case parseOr T ts of
             Crash \<Rightarrow> None
           | Reject e \<Rightarrow> Some (Inl e)
           | Accept b [] \<Rightarrow> None
           | Accept b (t # rest) \<Rightarrow>
               if mt_kind t \<noteq> MarkerEOF then Some (Inl ''unexpected marker token'') else Some (Inr b)))"

section \<open>Requirements\<close>

record python_requirement =
  pr_Name :: string
  pr_Constraint :: string
  pr_Marker :: string
  pr_Active :: bool

text \<open>
  The first semicolon outside quotes. The source ranges over runes; quotes and
  semicolons are ASCII, so the byte index is the same.
\<close>

fun marker_separator_from :: "nat \<Rightarrow> char option \<Rightarrow> string \<Rightarrow> nat option" where
  "marker_separator_from i quote [] = None"
| "marker_separator_from i (Some q) (c # s) = marker_separator_from (Suc i) (if c = q then None else Some q) s"
| "marker_separator_from i None (c # s) =
     (if c = CHR 0x27 \<or> c = CHR 0x22 then marker_separator_from (Suc i) (Some c) s
      else if c = CHR '';'' then Some i
      else marker_separator_from (Suc i) None s)"

definition markerSeparator :: "string \<Rightarrow> nat option" where
  "markerSeparator s = marker_separator_from 0 None s"

definition split_marker :: "string \<Rightarrow> string \<times> string" where
  "split_marker remainder =
     (case markerSeparator remainder of
        None \<Rightarrow> (remainder, [])
      | Some i \<Rightarrow> (TrimSpace (take i remainder), TrimSpace (drop (Suc i) remainder)))"

definition strip_parens :: "string \<Rightarrow> string" where
  "strip_parens s = (if HasPrefix s ''('' \<and> HasSuffix s '')'' then TrimSpace (take (length s - 2) (drop 1 s)) else s)"

text \<open>The name and what follows it, or the error of an unsupported form.\<close>

definition requirement_head :: "string \<Rightarrow> string + string \<times> string" where
  "requirement_head raw =
     (if raw = [] then Inl ''empty Python requirement''
      else if rx_match directURLScheme raw (\<lambda>_. []) \<noteq> [] \<or> HasPrefix raw ''.'' \<or> HasPrefix raw ''/''
      then Inl ''unsupported local, VCS, or URL requirement''
      else
        let nameMatch = FindString pythonNamePattern raw in
        if nameMatch = [] then Inl ''invalid Python package name in requirement''
        else
          let remainder = TrimSpace (TrimPrefix raw nameMatch) in
          if HasPrefix remainder ''['' then Inl ''requirement extras are not supported''
          else if HasPrefix remainder ''@'' \<or> Contains remainder '' @ ''
          then Inl ''direct URL requirements are not supported''
          else Inr (nameMatch, remainder))"

definition ParseRequirement :: "string \<Rightarrow> target \<Rightarrow> (string + python_requirement) option" where
  "ParseRequirement raw T =
     (case requirement_head (TrimSpace raw) of
        Inl e \<Rightarrow> Some (Inl e)
      | Inr (nameMatch, remainder) \<Rightarrow>
          let (constraint0, marker) = split_marker remainder;
              constraint = strip_parens constraint0
          in case NormalizeConstraint constraint of
               Inl e \<Rightarrow> Some (Inl ''invalid constraint'')
             | Inr normalized \<Rightarrow>
                 let req = \<lparr>pr_Name = NormalizeName nameMatch, pr_Constraint = normalized, pr_Marker = marker, pr_Active = True\<rparr>
                 in if marker = [] then Some (Inr req)
                    else case EvaluateMarker marker T of
                        None \<Rightarrow> None
                      | Some (Inl e) \<Rightarrow> Some (Inl ''invalid marker'')
                      | Some (Inr active) \<Rightarrow> Some (Inr (req\<lparr>pr_Active := active\<rparr>)))"

end
