(* ===== verification/Pypi_Theorems.thy ===== *)
theory Pypi_Theorems
  imports Pypi_Version
begin

text \<open>
  The PEP 440 ordering is a total preorder, version selection returns a maximal
  candidate and neither can index out of range, and normalizing a constraint is
  idempotent.
\<close>

section \<open>The ordering\<close>

lemma compareInt_comparison: "comparison compareInt"
  by unfold_locales (auto simp: compareInt_def split: if_splits)

definition hd0 :: "int list \<Rightarrow> int" where
  "hd0 xs = (case xs of [] \<Rightarrow> 0 | x # _ \<Rightarrow> x)"

text \<open>A missing release part counts as zero.\<close>

lemma compareRelease_step:
  "compareRelease xs ys = (if compareInt (hd0 xs) (hd0 ys) \<noteq> 0 then compareInt (hd0 xs) (hd0 ys)
     else compareRelease (tl xs) (tl ys))"
  by (cases xs; cases ys) (auto simp: hd0_def compareInt_def Let_def)

lemma compareRelease_comparison: "comparison compareRelease"
proof
  fix xs ys
  show "compareRelease ys xs = - compareRelease xs ys"
    by (induction xs ys rule: compareRelease.induct) (auto simp: compareInt_def Let_def split: if_splits)
next
  fix xs ys zs
  assume "compareRelease xs ys \<le> 0" "compareRelease ys zs \<le> 0"
  then show "compareRelease xs zs \<le> 0"
  proof (induction "length xs + length ys + length zs" arbitrary: xs ys zs rule: less_induct)
    case less
    show ?case
    proof (cases "xs = [] \<and> ys = [] \<and> zs = []")
      case False
      then have len: "length (tl xs) + length (tl ys) + length (tl zs) < length xs + length ys + length zs"
        by (cases xs; cases ys; cases zs) auto
      have 1: "compareInt (hd0 xs) (hd0 ys) \<le> 0" "compareInt (hd0 ys) (hd0 zs) \<le> 0"
        using less.prems compareRelease_step [of xs ys] compareRelease_step [of ys zs] by (auto split: if_splits)
      show ?thesis
      proof (cases "compareInt (hd0 xs) (hd0 zs) = 0")
        case True
        then have "compareInt (hd0 xs) (hd0 ys) = 0" "compareInt (hd0 ys) (hd0 zs) = 0"
          using 1 by (auto simp: compareInt_def split: if_splits)
        then have "compareRelease (tl xs) (tl ys) \<le> 0" "compareRelease (tl ys) (tl zs) \<le> 0"
          using less.prems compareRelease_step [of xs ys] compareRelease_step [of ys zs] by auto
        then have "compareRelease (tl xs) (tl zs) \<le> 0" using less.hyps [OF len] by blast
        then show ?thesis using compareRelease_step [of xs zs] True by simp
      next
        case False
        then show ?thesis
          using 1 compareRelease_step [of xs zs] by (auto simp: compareInt_def split: if_splits)
      qed
    qed simp
  qed
qed

definition segment_cmp :: "string \<Rightarrow> string \<Rightarrow> int" where
  "segment_cmp x y =
     (if snd (Atoi x) \<and> snd (Atoi y) then compareInt (fst (Atoi x)) (fst (Atoi y))
      else if snd (Atoi x) then 1 else if snd (Atoi y) then - 1 else compareString x y)"

lemma segment_cmp_comparison: "comparison segment_cmp"
proof
  fix x y
  show "segment_cmp y x = - segment_cmp x y"
    by (auto simp: segment_cmp_def compareInt_def compareString_def)
next
  fix x y z
  assume "segment_cmp x y \<le> 0" "segment_cmp y z \<le> 0"
  then show "segment_cmp x z \<le> 0"
    by (auto simp: segment_cmp_def compareInt_def compareString_def split: if_splits)
qed

lemma list_cmp_Nil:
  "list_cmp c [] ys = (if ys = [] then 0 else - 1)" "list_cmp c xs [] = (if xs = [] then 0 else 1)"
  by (cases ys; simp) (cases xs; simp)

lemma compareLocalParts_list_cmp:
  "list_cmp segment_cmp l r = (case compareLocalParts l r of Some c \<Rightarrow> c | None \<Rightarrow> compareInt (int (length l)) (int (length r)))"
proof (induction l r rule: compareLocalParts.induct)
  case (1 x xs y ys)
  then show ?case
    by (cases "Atoi x"; cases "Atoi y") (auto simp: segment_cmp_def compareInt_def split: option.splits)
qed (simp_all add: compareInt_def list_cmp_Nil)

lemma compareLocal_eq: "compareLocal l r = list_cmp segment_cmp l r"
  using compareLocalParts_list_cmp [of l r] by (cases l; cases r) (auto simp: compareLocal_def)

lemma compareOptional_comparison:
  assumes "m \<noteq> 0"
  shows "comparison (\<lambda>v w. compareOptionalNumber (f v) (g v) (f w) (g w) m)"
  using assms by unfold_locales (auto simp: compareOptionalNumber_def compareInt_def split: if_splits)

definition pre_cmp :: "int \<times> int \<times> int \<Rightarrow> int \<times> int \<times> int \<Rightarrow> int" where
  "pre_cmp = lex_cmp (\<lambda>x y. compareInt (fst x) (fst y))
     (lex_cmp (\<lambda>x y. compareInt (fst (snd x)) (fst (snd y))) (\<lambda>x y. compareInt (snd (snd x)) (snd (snd y))))"

lemma comparePre_eq: "comparePre v w = pre_cmp (pre_rank v) (pre_rank w)"
  by (simp add: comparePre_def pre_cmp_def lex_cmp_def split: prod.splits)

lemma Compare_eq:
  "Compare = lex_cmp (\<lambda>v w. compareInt (v_epoch v) (v_epoch w))
     (lex_cmp (\<lambda>v w. compareRelease (v_release v) (v_release w))
     (lex_cmp (\<lambda>v w. pre_cmp (pre_rank v) (pre_rank w))
     (lex_cmp (\<lambda>v w. compareOptionalNumber (v_hasPost v) (v_postNum v) (v_hasPost w) (v_postNum w) (- 1))
     (lex_cmp (\<lambda>v w. compareOptionalNumber (v_hasDev v) (v_devNum v) (v_hasDev w) (v_devNum w) 1)
       (\<lambda>v w. list_cmp segment_cmp (v_local v) (v_local w))))))"
  by (simp add: fun_eq_iff lex_cmp_def Compare_def Let_def comparePre_eq compareLocal_eq)

lemma pre_cmp_comparison: "comparison pre_cmp"
  unfolding pre_cmp_def
  by (rule lex_cmp_comparison [OF comparison_on [OF compareInt_comparison, of fst]
        lex_cmp_comparison [OF comparison_on [OF compareInt_comparison, of "\<lambda>x. fst (snd x)"]
          comparison_on [OF compareInt_comparison, of "\<lambda>x. snd (snd x)"]]])

lemma Compare_comparison: "comparison Compare"
  unfolding Compare_eq
proof (intro lex_cmp_comparison)
  show "comparison (\<lambda>v w. compareInt (v_epoch v) (v_epoch w))"
    by (rule comparison_on [OF compareInt_comparison])
  show "comparison (\<lambda>v w. compareRelease (v_release v) (v_release w))"
    by (rule comparison_on [OF compareRelease_comparison])
  show "comparison (\<lambda>v w. pre_cmp (pre_rank v) (pre_rank w))"
    by (rule comparison_on [OF pre_cmp_comparison])
  show "comparison (\<lambda>v w. list_cmp segment_cmp (v_local v) (v_local w))"
    by (rule comparison_on [OF list_cmp_comparison [OF segment_cmp_comparison]])
qed (simp_all add: compareOptional_comparison)

interpretation pep440: comparison Compare
  by (rule Compare_comparison)

text \<open>
  C18: the PEP 440 comparison is a total preorder on all version values, however their
  fields were filled: it is antisymmetric in its arguments, total and transitive, also
  through ties. Sorting by it is therefore well defined.
\<close>

theorem version_compare_total_preorder:
  "Compare w v = - Compare v w \<and> (Compare v w \<le> 0 \<or> Compare w v \<le> 0)
   \<and> (Compare u v \<le> 0 \<and> Compare v w \<le> 0 \<longrightarrow> Compare u w \<le> 0)
   \<and> (Compare u v < 0 \<and> Compare v w \<le> 0 \<longrightarrow> Compare u w < 0)"
  using pep440.cmp_flip pep440.cmp_total pep440.cmp_trans pep440.cmp_less_trans1 by blast

theorem version_compare_total_preorder_witness:
  "Compare zero_version (zero_version\<lparr>v_release := [1]\<rparr>) < 0
   \<and> Compare zero_version (zero_version\<lparr>v_release := [1, 0, 1]\<rparr>) < 0"
proof -
  have "Compare zero_version (zero_version\<lparr>v_release := [1]\<rparr>) < 0"
    "Compare (zero_version\<lparr>v_release := [1]\<rparr>) (zero_version\<lparr>v_release := [1, 0, 1]\<rparr>) \<le> 0" by code_simp+
  then show ?thesis
    using version_compare_total_preorder [where u = zero_version and v = "zero_version\<lparr>v_release := [1]\<rparr>"
        and w = "zero_version\<lparr>v_release := [1, 0, 1]\<rparr>"] by blast
qed

section \<open>No index out of range\<close>

lemma equal_upto_total:
  "i + n \<le> length a \<Longrightarrow> i + n \<le> length b \<Longrightarrow> \<exists>r. equal_upto a b i n = Some r"
  by (induction n arbitrary: i) (auto simp: at_def)

lemma atoi_all_length: "atoi_all ps = Some ns \<Longrightarrow> length ns = length ps"
  by (induction ps arbitrary: ns) (auto simp: Let_def split: prod.splits if_splits option.splits)

lemma parsed_release: "ParseVersion t = Inr v \<Longrightarrow> v_release v \<noteq> []"
  using atoi_all_length
  by (fastforce simp: ParseVersion_def version_of_def Let_def split: option.splits prod.splits if_splits)

definition clause_ok :: "versionClause \<Rightarrow> bool" where
  "clause_ok c \<longleftrightarrow> c_operator c = ''==='' \<or> c_prefix c \<noteq> [] \<or> v_release (c_version c) \<noteq> []"

lemma parse_clause_ok:
  assumes "parse_clause n p = Inr (c, b)"
  shows "clause_ok c"
proof -
  have w: "ns \<noteq> []" if "parse_wildcard t = Some (e, ns)" for t e ns
    using that atoi_all_length [of "Split _ CHR ''.''" ns]
    by (auto simp: parse_wildcard_def Let_def split: option.splits if_splits)
  show ?thesis
    using assms by (auto simp: parse_clause_def clause_ok_def Let_def parsed_release dest: w
        split: prod.splits if_splits sum.splits option.splits)
qed

lemma parse_clauses_ok: "parse_clauses n ps = Inr (cs, b) \<Longrightarrow> \<forall>c \<in> set cs. clause_ok c"
  by (induction ps arbitrary: cs b) (auto dest: parse_clause_ok split: sum.splits prod.splits)

lemma parseConstraint_ok: "parseConstraint t = Inr (cs, b) \<Longrightarrow> \<forall>c \<in> set cs. clause_ok c"
  by (auto simp: parseConstraint_def Let_def dest: parse_clauses_ok split: if_splits)

lemma compatiblePrefix_total: "v_release m \<noteq> [] \<Longrightarrow> \<exists>b. compatiblePrefix v m = Some b"
proof -
  assume "v_release m \<noteq> []"
  then have "max (length (v_release m) - 1) 1 \<le> length (v_release m)" by (cases "v_release m") auto
  then show ?thesis
    using equal_upto_total [of 0 "max (length (v_release m) - 1) 1" "v_release v" "v_release m"]
    unfolding compatiblePrefix_def Let_def by (simp only: add_0 not_less split: if_split) blast
qed

lemma matches_prefix_total: "\<exists>b. matches_prefix v c = Some b"
  using equal_upto_total [of 0 "length (c_prefix c)" "v_release v" "c_prefix c"]
  by (auto simp: matches_prefix_def)

lemma clause_accepts_total: "clause_ok c \<Longrightarrow> \<exists>b. clause_accepts v raw c = Some b"
  using compatiblePrefix_total [of "c_version c" v] matches_prefix_total [of v c]
  by (auto simp: clause_accepts_def clause_ok_def Let_def)

lemma matchesClauses_total: "\<forall>c \<in> set cs. clause_ok c \<Longrightarrow> \<exists>b. matchesClauses v raw cs = Some b"
proof (induction cs)
  case (Cons c cs)
  have "clause_ok c" using Cons.prems by simp
  then obtain b where b: "clause_accepts v raw c = Some b" using clause_accepts_total by blast
  with Cons show ?case by (cases b) auto
qed auto

section \<open>The chosen version\<close>

definition accepted :: "versionClause list \<Rightarrow> string list \<Rightarrow> (string \<times> version) set" where
  "accepted cs available = {(r, v). r \<in> set available \<and> ParseVersion r = Inr v \<and> matchesClauses v r cs = Some True}"

definition unstable :: "string \<times> version \<Rightarrow> bool" where
  "unstable c \<longleftrightarrow> v_hasPre (snd c) \<or> v_hasDev (snd c)"

lemma candidates_sets:
  assumes "\<forall>c \<in> set cs. clause_ok c"
  shows "\<exists>steady pre. candidates cs available = Some (steady, pre)
    \<and> set steady = {c \<in> accepted cs available. \<not> unstable c} \<and> set pre = {c \<in> accepted cs available. unstable c}"
proof (induction available)
  case Nil
  then show ?case by (simp add: accepted_def)
next
  case (Cons raw rest)
  then obtain st pre where IH: "candidates cs rest = Some (st, pre)"
    "set st = {c \<in> accepted cs rest. \<not> unstable c}" "set pre = {c \<in> accepted cs rest. unstable c}" by blast
  show ?case
  proof (cases "ParseVersion raw")
    case (Inl e)
    then have "accepted cs (raw # rest) = accepted cs rest" by (auto simp: accepted_def)
    with IH Inl show ?thesis by simp
  next
    case (Inr v)
    obtain b where b: "matchesClauses v raw cs = Some b" using matchesClauses_total [OF assms] by blast
    have acc: "accepted cs (raw # rest) = (if b then insert (raw, v) (accepted cs rest) else accepted cs rest)"
      using Inr b by (auto simp: accepted_def)
    show ?thesis using IH Inr b acc by (cases b) (auto simp: unstable_def)
  qed
qed

lemma sorts_last:
  assumes "sorts srt" "xs \<noteq> []"
  defines "l \<equiv> last (srt (\<lambda>a b. Compare (snd a) (snd b) < 0) xs)"
  shows "l \<in> set xs" "\<And>x. x \<in> set xs \<Longrightarrow> Compare (snd x) (snd l) \<le> 0"
proof -
  let ?less = "\<lambda>a b. Compare (snd a) (snd b) < 0" and ?s = "srt (\<lambda>a b. Compare (snd a) (snd b) < 0) xs"
  note srt = assms(1) [unfolded sorts_def, THEN spec, of ?less, THEN spec, of xs]
  have s: "set ?s = set xs" "length ?s = length xs" using srt by blast+
  have asym: "\<forall>x y. \<not> (?less x y \<and> ?less y x)"
  proof (intro allI notI)
    fix x y assume "?less x y \<and> ?less y x"
    then show False using pep440.cmp_flip [of "snd x" "snd y"] by linarith
  qed
  have trans: "\<forall>x y z. \<not> ?less y x \<longrightarrow> \<not> ?less z y \<longrightarrow> \<not> ?less z x"
  proof (intro allI impI notI)
    fix x y z assume "\<not> ?less y x" "\<not> ?less z y" "?less z x"
    then show False
      using pep440.cmp_flip [of "snd x" "snd y"] pep440.cmp_less_trans1 [of "snd z" "snd x" "snd y"] by linarith
  qed
  have sorted: "sorted_wrt (\<lambda>a b. \<not> ?less b a) ?s"
    using srt [THEN conjunct2, THEN conjunct2, THEN mp, OF asym, THEN mp, OF trans] .
  have ne: "?s \<noteq> []" using s(2) assms(2) by auto
  then show "l \<in> set xs" using s(1) last_in_set [OF ne] by (simp add: l_def)
  have le: "sorted_wrt (\<lambda>a b. Compare a b \<le> 0) (map snd ?s)"
    unfolding sorted_wrt_map
  proof (rule sorted_wrt_mono_rel [OF _ sorted])
    fix a b assume "\<not> ?less b a"
    then show "Compare (snd a) (snd b) \<le> 0" using pep440.cmp_flip [of "snd b" "snd a"] by linarith
  qed
  show "Compare (snd x) (snd l) \<le> 0" if "x \<in> set xs" for x
    using pep440.last_sorted_maximal [OF le, of "snd x"] that s(1) ne by (simp add: l_def last_map)
qed

text \<open>The versions to choose from.\<close>

definition candidate_pool :: "bool \<Rightarrow> versionClause list \<Rightarrow> string list \<Rightarrow> (string \<times> version) set" where
  "candidate_pool permits cs available =
     (if permits \<or> {c \<in> accepted cs available. \<not> unstable c} = {} then accepted cs available
      else {c \<in> accepted cs available. \<not> unstable c})"

text \<open>
  C6: version selection is correct and cannot panic. For a constraint that parses, and is
  not a lone arbitrary equality, the candidates are the listed versions that parse and
  satisfy every clause; pre-releases and development releases count only if the
  constraint names one or nothing stable is left. Without a candidate the result is an error;
  otherwise it is a listed candidate that no candidate exceeds, whatever the sort does with
  ties.
\<close>

theorem resolve_version_highest:
  assumes srt: "sorts srt" and parse: "parseConstraint constraint = Inr (cs, permits)"
    and plain: "\<not> (length cs = 1 \<and> c_operator (hd cs) = ''==='')"
  shows "let pool = candidate_pool permits cs available in if pool = {} then (\<exists>e. ResolveVersion srt constraint available = Some (Inl e))
    else (\<exists>r v. (r, v) \<in> pool \<and> ResolveVersion srt constraint available = Some (Inr r)
      \<and> (\<forall>c \<in> pool. Compare (snd c) v \<le> 0))"
proof -
  define pool where "pool = candidate_pool permits cs available"
  obtain st pre where c: "candidates cs available = Some (st, pre)"
    "set st = {c \<in> accepted cs available. \<not> unstable c}" "set pre = {c \<in> accepted cs available. unstable c}"
    using candidates_sets [OF parseConstraint_ok [OF parse]] by blast
  let ?cands = "if permits \<or> st = [] then st @ pre else st"
  have pool: "set ?cands = pool"
  proof (cases "permits \<or> st = []")
    case True
    then have "pool = accepted cs available"
      using c(2) unfolding pool_def candidate_pool_def by (metis (no_types, lifting) empty_set)
    then show ?thesis using True c(2,3) by auto
  next
    case False
    then have "pool = {c \<in> accepted cs available. \<not> unstable c}"
      using c(2) unfolding pool_def candidate_pool_def by (metis (no_types, lifting) set_empty)
    then show ?thesis using False c(2) by simp
  qed
  show ?thesis
  proof (cases "?cands = []")
    case True
    then have "pool = {}" using pool by simp
    moreover have "\<exists>e. ResolveVersion srt constraint available = Some (Inl e)"
      using True parse plain c(1) by (auto simp: ResolveVersion_def Let_def)
    ultimately show ?thesis by (simp add: pool_def)
  next
    case False
    obtain r v where l: "last (srt (\<lambda>a b. Compare (snd a) (snd b) < 0) ?cands) = (r, v)" by force
    have res: "ResolveVersion srt constraint available = Some (Inr r)"
      using False parse plain c(1) l by (auto simp: ResolveVersion_def Let_def)
    moreover have "(r, v) \<in> pool" "\<forall>x \<in> pool. Compare (snd x) v \<le> 0"
      using sorts_last [OF srt False] l pool by auto
    moreover have "pool \<noteq> {}" using False pool by auto
    ultimately show ?thesis by (auto simp: Let_def pool_def)
  qed
qed

text \<open>An insertion sort meets the contract of \<^verbatim>\<open>sort.Slice\<close>.\<close>

fun insert_by :: "('a \<Rightarrow> 'a \<Rightarrow> bool) \<Rightarrow> 'a \<Rightarrow> 'a list \<Rightarrow> 'a list" where
  "insert_by lt x [] = [x]"
| "insert_by lt x (y # ys) = (if lt y x then y # insert_by lt x ys else x # y # ys)"

definition insertion_sort :: "('a \<Rightarrow> 'a \<Rightarrow> bool) \<Rightarrow> 'a list \<Rightarrow> 'a list" where
  "insertion_sort lt xs = foldr (insert_by lt) xs []"

lemma insert_by_set: "set (insert_by lt x ys) = insert x (set ys)"
  by (induction ys) auto

lemma insert_by_sorted:
  assumes asym: "\<And>x y. lt x y \<Longrightarrow> \<not> lt y x" and trans: "\<And>x y z. \<not> lt y x \<Longrightarrow> \<not> lt z y \<Longrightarrow> \<not> lt z x"
    and "sorted_wrt (\<lambda>a b. \<not> lt b a) ys"
  shows "sorted_wrt (\<lambda>a b. \<not> lt b a) (insert_by lt x ys)"
  using assms(3)
proof (induction ys)
  case (Cons y ys)
  show ?case
  proof (cases "lt y x")
    case True
    then show ?thesis using Cons asym [OF True] by (simp add: insert_by_set)
  next
    case False
    have "\<not> lt z x" if "z \<in> set ys" for z using trans [OF False] Cons.prems that by simp
    then show ?thesis using Cons False by simp
  qed
qed simp

lemma insertion_sort_sorts: "sorts insertion_sort"
  unfolding sorts_def
proof (intro allI conjI impI)
  fix lt :: "string \<times> version \<Rightarrow> string \<times> version \<Rightarrow> bool" and xs
  have len: "length (insert_by lt x ys) = Suc (length ys)" for x ys by (induction ys) auto
  show "set (insertion_sort lt xs) = set xs"
    by (induction xs) (auto simp: insertion_sort_def insert_by_set)
  show "length (insertion_sort lt xs) = length xs"
    by (induction xs) (auto simp: insertion_sort_def len)
  assume a: "\<forall>x y. \<not> (lt x y \<and> lt y x)" and t: "\<forall>x y z. \<not> lt y x \<longrightarrow> \<not> lt z y \<longrightarrow> \<not> lt z x"
  have ins: "sorted_wrt (\<lambda>a b. \<not> lt b a) (insert_by lt x ys)" if "sorted_wrt (\<lambda>a b. \<not> lt b a) ys" for x ys
  proof (rule insert_by_sorted [OF _ _ that])
    show "\<not> lt y x" if "lt x y" for x y using a that by blast
    show "\<not> lt z x" if "\<not> lt y x" "\<not> lt z y" for x y z using t that by blast
  qed
  show "sorted_wrt (\<lambda>a b. \<not> lt b a) (insertion_sort lt xs)"
  proof (induction xs)
    case (Cons x xs)
    then show ?case using ins [of "insertion_sort lt xs" x] by (simp add: insertion_sort_def)
  qed (simp add: insertion_sort_def)
qed

theorem resolve_version_highest_witness:
  "\<exists>r v. ResolveVersion insertion_sort ''>=1.1'' [''1.0'', ''1.10'', ''1.9'', ''2.0a1''] = Some (Inr r)
    \<and> ParseVersion r = Inr v \<and> r = ''1.10''"
proof -
  let ?av = "[''1.0'', ''1.10'', ''1.9'', ''2.0a1'']"
  have p: "\<not> isl (parseConstraint ''>=1.1'')" "snd (projr (parseConstraint ''>=1.1'')) = False"
    "map c_operator (fst (projr (parseConstraint ''>=1.1''))) = [''>='']"
    "ResolveVersion insertion_sort ''>=1.1'' ?av = Some (Inr ''1.10'')" by code_simp+
  define cs where "cs = fst (projr (parseConstraint ''>=1.1''))"
  have parse: "parseConstraint ''>=1.1'' = Inr (cs, False)"
    using p(1,2) by (cases "parseConstraint ''>=1.1''") (auto simp: cs_def)
  have "\<not> (length cs = 1 \<and> c_operator (hd cs) = ''==='')" using p(3) by (cases cs) (auto simp: cs_def [symmetric])
  from resolve_version_highest [OF insertion_sort_sorts parse this, of ?av] p(4)
  show ?thesis by (auto simp: Let_def candidate_pool_def accepted_def split: if_splits)
qed

section \<open>Normalization\<close>

text \<open>What a clause may start with.\<close>

lemma pattern_no_equals: "rx_match pythonVersionPattern (CHR ''='' # t) m = []"
  by (simp add: pythonVersionPattern_def RSeqs_def digits_def RPlus_def lower_def is_upper_def is_digit_def
      less_eq_char_def)

lemma ParseVersion_not_equals:
  assumes "ParseVersion t = Inr v" "trimmed t"
  shows "t \<noteq> [] \<and> hd t \<noteq> CHR ''=''"
proof -
  have f: "\<exists>m. FindStringSubmatch pythonVersionPattern t = Some m"
    using assms TrimSpace_id by (auto simp: ParseVersion_def Let_def split: option.splits)
  show ?thesis
  proof (cases t)
    case Nil
    have "rx_match pythonVersionPattern [] m = []" for m
      by (simp add: pythonVersionPattern_def RSeqs_def digits_def RPlus_def)
    with f Nil show ?thesis by (simp add: FindStringSubmatch_def)
  next
    case (Cons c s)
    then show ?thesis using f pattern_no_equals by (auto simp: FindStringSubmatch_def)
  qed
qed

lemma Atoi_not_equals: "snd (Atoi t) \<Longrightarrow> t \<noteq> [] \<and> hd t \<noteq> CHR ''=''"
  by (cases t) (auto simp: Atoi_def Let_def is_digit_def less_eq_char_def split: if_splits)

lemma hd_Split: "Split s sep = p # ps \<Longrightarrow> p \<noteq> [] \<Longrightarrow> s \<noteq> [] \<and> hd s = hd p"
  by (cases s) (auto split: if_splits list.splits)

lemma atoi_all_hd: "atoi_all (Split s sep) = Some ns \<Longrightarrow> s \<noteq> [] \<and> hd s \<noteq> CHR ''=''"
proof -
  assume a: "atoi_all (Split s sep) = Some ns"
  obtain p ps where p: "Split s sep = p # ps" by (cases "Split s sep") auto
  then have "snd (Atoi p)" using a by (auto simp: Let_def split: prod.splits if_splits)
  then show ?thesis using hd_Split [OF p] Atoi_not_equals [of p] by auto
qed

lemma parse_wildcard_hd:
  assumes "parse_wildcard t = Some w" "HasSuffix t ''.*''"
  shows "hd t \<noteq> CHR ''=''"
proof -
  let ?p = "TrimSuffix t ''.*''"
  have t: "t = ?p @ ''.*''" using assms(2) by (auto simp: TrimSuffix_def HasSuffix_def intro: append_take_drop_id [symmetric] dest: sym)
  obtain e es where sp: "Split ?p CHR ''!'' = e # es" by (cases "Split ?p CHR ''!''") auto
  have "?p \<noteq> [] \<and> hd ?p \<noteq> CHR ''=''"
  proof (cases "es = []")
    case True
    then have "atoi_all (Split ?p CHR ''.'') = Some (snd w)"
      using assms(1) sp by (auto simp: parse_wildcard_def Let_def split: option.splits)
    then show ?thesis by (rule atoi_all_hd)
  next
    case False
    then have "snd (Atoi e)"
      using assms(1) sp by (cases es) (auto simp: parse_wildcard_def Let_def split: option.splits prod.splits if_splits)
    then show ?thesis using hd_Split [OF sp] Atoi_not_equals [of e] by auto
  qed
  then show ?thesis using t by (metis hd_append2)
qed

lemma split_operator_cases:
  "split_operator part = (op, body) \<Longrightarrow> op \<in> set operators \<and> (trimmed part \<longrightarrow> trimmed body) \<and> set body \<subseteq> set part"
proof (cases "find (HasPrefix part) operators")
  case (Some x)
  assume s: "split_operator part = (op, body)"
  have "set (TrimPrefix part x) \<subseteq> set part" by (auto simp: TrimPrefix_def dest: in_set_dropD)
  then show ?thesis
    using s Some find_SomeD [OF Some] TrimSpace_subset [of "TrimPrefix part x"]
    by (auto simp: split_operator_def trimmed_TrimSpace)
qed (auto simp: split_operator_def operators_def)

text \<open>An operator followed by a body that does not start with an equals sign is read back.\<close>

lemma split_operator_again:
  assumes "op \<in> set operators" "trimmed body" "body \<noteq> []" "op = ''==='' \<or> hd body \<noteq> CHR ''=''"
  shows "split_operator (op @ body) = (op, body)"
proof -
  obtain c t where t: "body = c # t" using assms(3) by (cases body) auto
  have "find (HasPrefix (op @ body)) operators = Some op"
  proof -
    have "op = ''==='' \<or> op = ''~='' \<or> op = ''=='' \<or> op = ''!='' \<or> op = ''<='' \<or> op = ''>='' \<or> op = ''<'' \<or> op = ''>''"
      using assms(1) by (simp add: operators_def)
    then show ?thesis using assms(4) unfolding t by (elim disjE) (simp_all add: operators_def HasPrefix_def)
  qed
  then show ?thesis using TrimSpace_id [OF assms(2)] by (simp add: split_operator_def)
qed

text \<open>The part itself enters a clause only through its operator and value.\<close>

lemma parse_clause_cong:
  "split_operator (TrimSpace p) = split_operator (TrimSpace q) \<Longrightarrow> parse_clause n p = Inr x \<Longrightarrow> parse_clause n q = Inr x"
proof -
  assume eq: "split_operator (TrimSpace p) = split_operator (TrimSpace q)" and p: "parse_clause n p = Inr x"
  obtain op body where s: "split_operator (TrimSpace q) = (op, body)" by force
  have "parse_clause n p = Inr x \<longrightarrow> parse_clause n q = Inr x"
    unfolding parse_clause_def Let_def eq s prod.case
    by (simp split: if_split option.split sum.split prod.split)
  with p show ?thesis by blast
qed

lemma parse_clause_again:
  assumes "parse_clause n part = Inr (c, b)"
  shows "parse_clause n (c_operator c @ c_value c) = Inr (c, b)" "c_value c \<noteq> []" "trimmed (c_value c)"
    "c_operator c \<in> set operators" "set (c_value c) \<subseteq> set part"
proof -
  obtain op body where s: "split_operator (TrimSpace part) = (op, body)" by force
  note sc = split_operator_cases [OF s]
  have c: "c_operator c = op" "c_value c = body" and ne: "body \<noteq> []"
    using assms s by (auto simp: parse_clause_def Let_def split: if_splits option.splits sum.splits)
  have tr: "trimmed body" using sc trimmed_TrimSpace by blast
  have hd: "op = ''==='' \<or> hd body \<noteq> CHR ''=''"
  proof (cases "op = ''===''")
    case False
    show ?thesis
    proof (cases "HasSuffix body ''.*''")
      case True
      then obtain w where "parse_wildcard body = Some w"
        using assms s False by (auto simp: parse_clause_def Let_def split: if_splits option.splits)
      then show ?thesis using parse_wildcard_hd True by blast
    next
      case sfx: False
      then obtain v where "ParseVersion body = Inr v"
        using assms s False by (auto simp: parse_clause_def Let_def split: if_splits sum.splits)
      then show ?thesis using ParseVersion_not_equals [OF _ tr] by blast
    qed
  qed simp
  have op: "op \<noteq> []" "\<not> is_space (hd op)" using sc by (auto simp: operators_def is_space_def)
  have "TrimSpace (op @ body) = op @ body" by (rule TrimSpace_id [OF trimmed_append [OF op(1) ne op(2) tr]])
  moreover have "TrimSpace (TrimSpace part) = TrimSpace part" by (rule TrimSpace_id [OF trimmed_TrimSpace])
  moreover have "split_operator (op @ body) = (op, body)"
    using split_operator_again [OF _ tr ne hd] sc by blast
  ultimately show "parse_clause n (c_operator c @ c_value c) = Inr (c, b)"
    using parse_clause_cong [of part "op @ body" n "(c, b)"] assms s c by simp
  show "c_value c \<noteq> []" "trimmed (c_value c)" "c_operator c \<in> set operators" "set (c_value c) \<subseteq> set part"
    using c ne tr sc TrimSpace_subset [of part] by auto
qed

definition render :: "versionClause \<Rightarrow> string" where
  "render c = c_operator c @ c_value c"

lemma parse_clauses_again:
  assumes "parse_clauses n ps = Inr (cs, b)"
  shows "parse_clauses n (map render cs) = Inr (cs, b) \<and> length cs = length ps
    \<and> (\<forall>c \<in> set cs. c_value c \<noteq> [] \<and> trimmed (c_value c) \<and> c_operator c \<in> set operators \<and> (\<exists>p \<in> set ps. set (c_value c) \<subseteq> set p))"
  using assms
proof (induction ps arbitrary: cs b)
  case (Cons p ps)
  then obtain c b1 cs' b2 where p: "parse_clause n p = Inr (c, b1)" "parse_clauses n ps = Inr (cs', b2)"
    "cs = c # cs'" "b = (b1 \<or> b2)" by (auto split: sum.splits prod.splits)
  from Cons.IH [OF p(2)] parse_clause_again [OF p(1)] show ?case
    by (auto simp: p(3,4) render_def)
qed simp

lemma operator_ends: "op \<in> set operators \<Longrightarrow> op \<noteq> [] \<and> \<not> is_space (hd op) \<and> CHR '','' \<notin> set op \<and> hd op \<noteq> CHR ''*''"
  by (auto simp: operators_def is_space_def)

lemma normalize_again:
  assumes "NormalizeConstraint raw = Inr text'"
  shows "NormalizeConstraint text' = Inr text' \<and> parseConstraint text' = parseConstraint raw"
proof -
  obtain cs b where p: "parseConstraint raw = Inr (cs, b)" and t: "text' = Join (map render cs) '',''"
    using assms by (auto simp: NormalizeConstraint_def render_def [abs_def] split: sum.splits)
  have "parseConstraint text' = Inr (cs, b)"
  proof (cases "TrimSpace raw = [] \<or> TrimSpace raw = ''*''")
    case True
    then have "cs = []" "b = False" using p by (auto simp: parseConstraint_def Let_def)
    then show ?thesis by (simp add: t parseConstraint_def TrimSpace_id trimmed_def)
  next
    case False
    let ?ps = "Split (TrimSpace raw) CHR '',''"
    have pc: "parse_clauses (length ?ps) ?ps = Inr (cs, b)" using p False by (auto simp: parseConstraint_def Let_def)
    note again = parse_clauses_again [OF pc]
    have ne: "map render cs \<noteq> []" using again by auto
    have comma: "CHR '','' \<notin> set q" "q \<noteq> []" if "q \<in> set (map render cs)" for q
    proof -
      from that obtain c where c: "c \<in> set cs" "q = render c" by auto
      with again obtain part where "part \<in> set ?ps" "set (c_value c) \<subseteq> set part" "c_operator c \<in> set operators" by blast
      then show "CHR '','' \<notin> set q" "q \<noteq> []"
        using Split_no_sep [of part "TrimSpace raw" "CHR '',''"] operator_ends c(2) by (auto simp: render_def)
    qed
    have split: "Split text' CHR '','' = map render cs" unfolding t using Split_Join [OF ne] comma by blast
    have "hd (map render cs) \<in> set (map render cs)" "last (map render cs) \<in> set (map render cs)"
      using hd_in_set [OF ne] last_in_set [OF ne] .
    then obtain c d where c: "c \<in> set cs" "hd (map render cs) = render c" and d: "d \<in> set cs" "last (map render cs) = render d"
      by auto
    note ends = Join_ends [OF ne, of "'',''"]
    have hd: "\<not> is_space (hd text')" "hd text' \<noteq> CHR ''*''" "text' \<noteq> []"
      using ends(1,2) comma(2) c again operator_ends by (auto simp: t render_def hd_append)
    moreover have "\<not> is_space (last text')"
      using ends(3) comma(2) d again by (auto simp: t render_def trimmed_def)
    ultimately have tr: "TrimSpace text' = text'" by (intro TrimSpace_id) (simp add: trimmed_def)
    have "text' \<noteq> ''*''" using hd by auto
    then show ?thesis using tr hd split again by (simp add: parseConstraint_def Let_def)
  qed
  then show ?thesis using p t by (simp add: NormalizeConstraint_def render_def [abs_def])
qed

text \<open>
  Normalizing a constraint is idempotent: the normal form of a constraint that
  parses is itself accepted and is its own normal form, with the same clauses.
\<close>

theorem normalize_constraint_idempotent:
  assumes "NormalizeConstraint raw = Inr text'"
  shows "NormalizeConstraint text' = Inr text' \<and> parseConstraint text' = parseConstraint raw"
  using assms by (rule normalize_again)

theorem normalize_constraint_idempotent_witness:
  "NormalizeConstraint '' >= 1.0 , !=1.5.* '' = Inr ''>=1.0,!=1.5.*''
   \<and> NormalizeConstraint ''>=1.0,!=1.5.*'' = Inr ''>=1.0,!=1.5.*''"
proof -
  have "NormalizeConstraint '' >= 1.0 , !=1.5.* '' = Inr ''>=1.0,!=1.5.*''" by code_simp
  then show ?thesis using normalize_constraint_idempotent by blast
qed

text \<open>
  C30: PEP 440 reads \<^verbatim>\<open>1.0-1\<close> as the first post-release of 1.0. The pattern lets a
  dash separate release numbers, and that reading comes first, so the parser returns
  the release 1.0.1 without a post-release.
\<close>

theorem dash_post_release_misread:
  "map_sum id (\<lambda>v. (v_release v, v_hasPost v)) (ParseVersion ''1.0-1'') = Inr ([1, 0, 1], False)"
  by code_simp

end
