(* ===== verification/Pypi_Markers.thy ===== *)
theory Pypi_Markers
  imports Pypi_Requirement Pypi_Theorems
begin

text \<open>
  Correctness of the marker evaluator: it accepts exactly the expressions of a grammar in which
  \<^verbatim>\<open>and\<close> binds tighter than \<^verbatim>\<open>or\<close>, returns their truth value, and never panics.
  Then names, target environments and whole requirement lines.
\<close>

section \<open>The marker grammar\<close>

definition eof :: markerToken where "eof = token MarkerEOF []"

definition operand :: "target \<Rightarrow> markerToken \<Rightarrow> (string \<times> string) option" where
  "operand T t =
     (if mt_kind t = MarkerString then Some (mt_value t, [])
      else if mt_kind t = MarkerWord then map_option (\<lambda>v. (v, mt_value t)) (markerVariableValue (mt_value t) T)
      else None)"

fun operator_of :: "markerToken list \<Rightarrow> string option" where
  "operator_of [t] =
     (if mt_kind t = MarkerOperator then (if mt_value t \<in> set comparison_operators then Some (mt_value t) else None)
      else if EqualFold (mt_value t) ''in'' then Some ''in'' else None)"
| "operator_of [t, u] =
     (if mt_kind t \<noteq> MarkerOperator \<and> EqualFold (mt_value t) ''not'' \<and> EqualFold (mt_value u) ''in''
      then Some ''not in'' else None)"
| "operator_of _ = None"

inductive g_or :: "target \<Rightarrow> markerToken list \<Rightarrow> bool \<Rightarrow> bool"
  and g_and :: "target \<Rightarrow> markerToken list \<Rightarrow> bool \<Rightarrow> bool"
  and g_term :: "target \<Rightarrow> markerToken list \<Rightarrow> bool \<Rightarrow> bool"
  for T :: target where
  or_and: "g_and T ts b \<Longrightarrow> g_or T ts b"
| or_or: "g_or T ts b \<Longrightarrow> is_or t \<Longrightarrow> g_and T us c \<Longrightarrow> g_or T (ts @ t # us) (b \<or> c)"
| and_term: "g_term T ts b \<Longrightarrow> g_and T ts b"
| and_and: "g_and T ts b \<Longrightarrow> is_and t \<Longrightarrow> g_term T us c \<Longrightarrow> g_and T (ts @ t # us) (b \<and> c)"
| term_paren: "mt_kind p = MarkerLeftParen \<Longrightarrow> g_or T ts b \<Longrightarrow> mt_kind q = MarkerRightParen \<Longrightarrow> g_term T (p # ts @ [q]) b"
| term_compare: "operand T l = Some (lv, lvar) \<Longrightarrow> operator_of ops = Some op \<Longrightarrow> operand T r = Some (rv, rvar) \<Longrightarrow>
    compareMarkerValues lv rv op lvar rvar = Some b \<Longrightarrow> g_term T (l # ops @ [r]) b"

section \<open>The parts of a comparison\<close>

lemma parseOperand_iff:
  "parseOperand T ts = Accept x rest \<longleftrightarrow> (\<exists>t. ts = t # rest \<and> operand T t = Some x)"
  by (cases ts) (auto simp: operand_def split: option.splits)

lemma EqualFold_trans: "EqualFold a b \<Longrightarrow> EqualFold a c \<Longrightarrow> EqualFold b c"
  by (simp add: EqualFold_def)

lemma fold_words: "\<not> EqualFold ''in'' ''not''" "\<not> EqualFold ''or'' ''and''"
  by code_simp+

lemma not_in_both: "EqualFold v ''in'' \<Longrightarrow> \<not> EqualFold v ''not''"
  using EqualFold_trans fold_words by blast

lemma is_or_not_and: "is_or t \<Longrightarrow> \<not> is_and t"
  using EqualFold_trans fold_words unfolding is_or_def is_and_def by blast

lemma parseOperator_cases:
  assumes "parseOperator (t # us) = Accept op rest"
  obtains "operator_of [t] = Some op" "rest = us"
  | "EqualFold (mt_value t) ''not''" "EqualFold (mt_value (peek (t # us))) ''in''" "mt_kind t \<noteq> MarkerOperator"
    "op = ''not in''" "rest = drop 1 us"
proof (cases "mt_kind t = MarkerOperator")
  case True
  then show thesis using assms that(1) by (simp split: if_splits)
next
  case False
  show thesis
  proof (cases "EqualFold (mt_value t) ''in''")
    case True
    then show thesis using False assms that(1) by simp
  next
    case nin: False
    show thesis by (rule that(2)) (use False nin assms in \<open>simp_all split: if_splits\<close>)
  qed
qed

lemma parseOperator_sound:
  assumes "parseOperator ts = Accept op rest"
  shows "\<exists>ops. ts = ops @ rest \<and> operator_of ops = Some op"
proof (cases ts)
  case Nil
  then show ?thesis using assms by simp
next
  case (Cons t us)
  from assms [unfolded Cons] show ?thesis
  proof (cases rule: parseOperator_cases)
    case 1
    then show ?thesis using Cons by (intro exI [of _ "[t]"]) simp
  next
    case 2
    obtain u vs where us: "us = u # vs"
      using 2(2) by (cases us) (simp_all add: token_def EqualFold_def ToLower_def)
    then have "operator_of [t, u] = Some op" using 2 by simp
    then show ?thesis using 2 Cons us by (intro exI [of _ "[t, u]"]) simp
  qed
qed

lemma operator_of_cases:
  assumes "operator_of ops = Some op"
  obtains t where "ops = [t]" | t u where "ops = [t, u]" "EqualFold (mt_value t) ''not''"
    "EqualFold (mt_value u) ''in''" "mt_kind t \<noteq> MarkerOperator" "op = ''not in''"
  using assms by (cases ops rule: operator_of.cases) (auto split: if_splits)

lemma parseOperator_complete:
  assumes "operator_of ops = Some op"
  shows "parseOperator (ops @ rest) = Accept op rest"
  using assms
proof (cases rule: operator_of_cases)
  case (1 t)
  then show ?thesis using assms by (auto split: if_splits)
next
  case (2 t u)
  then show ?thesis using not_in_both [of "mt_value t"] by auto
qed

lemma parse_comparison_sound:
  assumes "parse_comparison T ts = Accept b rest"
  shows "\<exists>pre. ts = pre @ rest \<and> g_term T pre b"
proof -
  obtain l lvar ts1 where 1: "parseOperand T ts = Accept (l, lvar) ts1"
    using assms unfolding parse_comparison_def by (cases "parseOperand T ts") auto
  then obtain op ts2 where 2: "parseOperator ts1 = Accept op ts2"
    using assms unfolding parse_comparison_def by (cases "parseOperator ts1") auto
  then obtain r rvar ts3 where 3: "parseOperand T ts2 = Accept (r, rvar) ts3"
    using assms 1 unfolding parse_comparison_def by (cases "parseOperand T ts2") auto
  have b: "compareMarkerValues l r op lvar rvar = Some b" "rest = ts3"
    using assms 1 2 3 unfolding parse_comparison_def by (auto split: option.splits)
  obtain lt where lt: "ts = lt # ts1" "operand T lt = Some (l, lvar)" using 1 unfolding parseOperand_iff by blast
  obtain rt where rt: "ts2 = rt # ts3" "operand T rt = Some (r, rvar)" using 3 unfolding parseOperand_iff by blast
  obtain ops where ops: "ts1 = ops @ ts2" "operator_of ops = Some op" using parseOperator_sound [OF 2] by blast
  have "g_term T (lt # ops @ [rt]) b" using lt(2) ops(2) rt(2) b(1) by (rule term_compare)
  then show ?thesis using lt(1) ops(1) rt(1) b(2) by (intro exI [of _ "lt # ops @ [rt]"]) simp
qed

lemma parse_comparison_complete:
  assumes "operand T l = Some (lv, lvar)" "operator_of ops = Some op" "operand T r = Some (rv, rvar)"
    "compareMarkerValues lv rv op lvar rvar = Some b"
  shows "parse_comparison T (l # ops @ r # rest) = Accept b rest"
proof -
  have "parseOperand T (l # ops @ r # rest) = Accept (lv, lvar) (ops @ r # rest)"
    "parseOperand T (r # rest) = Accept (rv, rvar) rest"
    using assms by (simp_all only: parseOperand_iff) auto
  then show ?thesis using parseOperator_complete [OF assms(2), of "r # rest"] assms(4)
    by (simp add: parse_comparison_def)
qed

section \<open>What the parser accepts\<close>

lemma loop_extends:
  assumes "ts = us @ ts1" "\<And>pre. R pre l \<Longrightarrow> R (pre @ t # us) c"
    and "\<forall>pre. R pre c \<longrightarrow> (\<exists>mid. ts1 = mid @ rest \<and> R (pre @ mid) b)"
  shows "\<forall>pre. R pre l \<longrightarrow> (\<exists>mid. t # ts = mid @ rest \<and> R (pre @ mid) b)"
proof (intro allI impI)
  fix pre
  assume "R pre l"
  then obtain mid where "ts1 = mid @ rest" "R ((pre @ t # us) @ mid) b" using assms(2,3) by blast
  then show "\<exists>mid. t # ts = mid @ rest \<and> R (pre @ mid) b"
    using assms(1) by (intro exI [of _ "t # us @ mid"]) simp
qed

lemma loop_starts:
  assumes "ts = us @ ts1" "R us c" "\<forall>pre. R pre c \<longrightarrow> (\<exists>mid. ts1 = mid @ rest \<and> R (pre @ mid) b)"
  shows "\<exists>pre. ts = pre @ rest \<and> R pre b"
  using assms by fastforce

lemma parser_sound:
  "parseOr T ts = Accept b rest \<Longrightarrow> \<exists>pre. ts = pre @ rest \<and> g_or T pre b"
  "or_loop T left us = Accept b rest \<Longrightarrow> \<forall>pre. g_or T pre left \<longrightarrow> (\<exists>mid. us = mid @ rest \<and> g_or T (pre @ mid) b)"
  "parseAnd T vs = Accept b rest \<Longrightarrow> \<exists>pre. vs = pre @ rest \<and> g_and T pre b"
  "and_loop T left' ws = Accept b rest \<Longrightarrow> \<forall>pre. g_and T pre left' \<longrightarrow> (\<exists>mid. ws = mid @ rest \<and> g_and T (pre @ mid) b)"
  "parseTerm T xs = Accept b rest \<Longrightarrow> \<exists>pre. xs = pre @ rest \<and> g_term T pre b"
proof (induction T ts and T left us and T vs and T left' ws and T xs
    arbitrary: b rest and b rest and b rest and b rest and b rest
    rule: parseOr_or_loop_parseAnd_and_loop_parseTerm.induct)
  case (1 T ts)
  then obtain c ts1 where 11: "parseAnd T ts = Accept c ts1" "or_loop T c ts1 = Accept b rest" "length ts1 \<le> length ts"
    by (auto split: parsed.splits if_splits)
  obtain us where "ts = us @ ts1" "g_or T us c" using 1(1) [OF 11(1)] by (blast intro: or_and)
  then show ?case by (rule loop_starts) (rule 1(2) [OF 11(1,3) 11(2)])
next
  case (3 T left t ts)
  show ?case
  proof (cases "is_or t")
    case True
    then obtain c ts1 where 31: "parseAnd T ts = Accept c ts1" "or_loop T (left \<or> c) ts1 = Accept b rest" "length ts1 \<le> length ts"
      using "3.prems" by (auto split: parsed.splits if_splits)
    obtain us where us: "ts = us @ ts1" "g_and T us c" using 3(1) [OF True 31(1)] by blast
    from us(1) show ?thesis
      by (rule loop_extends) (use True us(2) in \<open>blast intro: or_or\<close>, rule 3(2) [OF True 31(1,3) 31(2)])
  qed (use "3.prems" in auto)
next
  case (4 T ts)
  then obtain c ts1 where 41: "parseTerm T ts = Accept c ts1" "and_loop T c ts1 = Accept b rest" "length ts1 \<le> length ts"
    by (auto split: parsed.splits if_splits)
  obtain us where "ts = us @ ts1" "g_and T us c" using 4(1) [OF 41(1)] by (blast intro: and_term)
  then show ?case by (rule loop_starts) (rule 4(2) [OF 41(1,3) 41(2)])
next
  case (6 T left t ts)
  show ?case
  proof (cases "is_and t")
    case True
    then obtain c ts1 where 61: "parseTerm T ts = Accept c ts1" "and_loop T (left \<and> c) ts1 = Accept b rest" "length ts1 \<le> length ts"
      using "6.prems" by (auto split: parsed.splits if_splits)
    obtain us where us: "ts = us @ ts1" "g_term T us c" using 6(1) [OF True 61(1)] by blast
    from us(1) show ?thesis
      by (rule loop_extends) (use True us(2) in \<open>blast intro: and_and\<close>, rule 6(2) [OF True 61(1,3) 61(2)])
  qed (use "6.prems" in auto)
next
  case (8 T t ts)
  show ?case
  proof (cases "mt_kind t = MarkerLeftParen")
    case True
    then obtain t1 where t1: "parseOr T ts = Accept b (t1 # rest)" "mt_kind t1 = MarkerRightParen"
      using "8.prems" by (auto split: parsed.splits list.splits if_splits)
    then obtain pre where "ts = pre @ t1 # rest" "g_or T pre b" using 8(1) [OF True t1(1)] by blast
    moreover from this have "g_term T (t # pre @ [t1]) b" using True t1(2) by (blast intro: term_paren)
    ultimately show ?thesis by (intro exI [of _ "t # pre @ [t1]"]) simp
  qed (use "8.prems" parse_comparison_sound in simp)
qed simp_all

text \<open>Tokens the tokenizer makes: a closing parenthesis carries its character, the end marker nothing.\<close>

definition lexed :: "markerToken \<Rightarrow> bool" where
  "lexed t \<longleftrightarrow> (mt_kind t = MarkerRightParen \<longrightarrow> mt_value t = '')'') \<and> (mt_kind t = MarkerEOF \<longrightarrow> mt_value t = [])"

definition stops :: "(markerToken \<Rightarrow> bool) \<Rightarrow> markerToken list \<Rightarrow> bool" where
  "stops p ts \<longleftrightarrow> (case ts of [] \<Rightarrow> False | t # _ \<Rightarrow> \<not> p t)"

lemma stops_Cons [simp]: "stops p (t # ts) \<longleftrightarrow> \<not> p t"
  by (simp add: stops_def)

lemma or_loop_stops: "stops is_or ts \<Longrightarrow> or_loop T b ts = Accept b ts"
  by (cases ts) (auto simp: stops_def)

lemma and_loop_stops: "stops is_and ts \<Longrightarrow> and_loop T b ts = Accept b ts"
  by (cases ts) (auto simp: stops_def)

lemma paren_stops: "mt_kind q = MarkerRightParen \<Longrightarrow> lexed q \<Longrightarrow> \<not> is_or q \<and> \<not> is_and q"
  by (auto simp: lexed_def is_or_def is_and_def EqualFold_def ToLower_def lower_def is_upper_def)

lemma operand_kind: "operand T t = Some x \<Longrightarrow> mt_kind t \<noteq> MarkerLeftParen"
  by (auto simp: operand_def split: if_splits)

lemma parser_complete:
  "g_or T ts b \<Longrightarrow> \<forall>t \<in> set ts. lexed t \<Longrightarrow> \<forall>rest. stops is_and rest \<longrightarrow> parseOr T (ts @ rest) = or_loop T b rest"
  "g_and T us c \<Longrightarrow> \<forall>t \<in> set us. lexed t \<Longrightarrow> \<forall>rest. parseAnd T (us @ rest) = and_loop T c rest"
  "g_term T vs d \<Longrightarrow> \<forall>t \<in> set vs. lexed t \<Longrightarrow> \<forall>rest. parseTerm T (vs @ rest) = Accept d rest"
proof (induction rule: g_or_g_and_g_term.inducts)
  case (or_and ts b)
  then show ?case using and_loop_stops by simp
next
  case (or_or ts b t us c)
  show ?case
  proof (intro allI impI)
    fix rest
    assume rest: "stops is_and rest"
    have "parseOr T (ts @ t # us @ rest) = or_loop T b (t # us @ rest)"
      using or_or.IH or_or.prems is_or_not_and [OF or_or.hyps] by (simp del: parseOr.simps or_loop.simps)
    also have "\<dots> = or_loop T (b \<or> c) rest"
      using or_or.IH or_or.prems or_or.hyps and_loop_stops [OF rest, of T c] by (simp del: parseAnd.simps)
    finally show "parseOr T ((ts @ t # us) @ rest) = or_loop T (b \<or> c) rest" by simp
  qed
next
  case (and_term ts b)
  then show ?case by simp
next
  case (and_and ts b t us c)
  show ?case
  proof
    fix rest
    have "parseAnd T (ts @ t # us @ rest) = and_loop T b (t # us @ rest)"
      using and_and.IH and_and.prems by (simp del: parseAnd.simps and_loop.simps)
    also have "\<dots> = and_loop T (b \<and> c) rest"
      using and_and.IH and_and.prems and_and.hyps by (simp del: parseTerm.simps)
    finally show "parseAnd T ((ts @ t # us) @ rest) = and_loop T (b \<and> c) rest" by simp
  qed
next
  case (term_paren p ts b q)
  then have q: "\<not> is_or q \<and> \<not> is_and q" using paren_stops by auto
  then have "parseOr T (ts @ q # rest) = or_loop T b (q # rest)" for rest
    using term_paren.IH term_paren.prems by (simp del: parseOr.simps)
  then show ?case using q term_paren.hyps by (simp del: parseOr.simps)
next
  case (term_compare l lv lvar ops op r rv rvar b)
  then show ?case using parse_comparison_complete [OF term_compare(1,3,2,4)] operand_kind by simp
qed

section \<open>The parser does not panic\<close>

definition ends_eof :: "markerToken list \<Rightarrow> bool" where
  "ends_eof ts \<longleftrightarrow> ts \<noteq> [] \<and> last ts = eof"

lemma ends_eof_Cons: "ends_eof (t # ts) \<longleftrightarrow> (ts = [] \<and> t = eof) \<or> ends_eof ts"
  by (auto simp: ends_eof_def)

lemma eof_simps: "mt_kind eof = MarkerEOF" "mt_value eof = []" "\<not> is_or eof" "\<not> is_and eof"
  "\<not> EqualFold (mt_value eof) ''in''" "\<not> EqualFold (mt_value eof) ''not''"
  by (simp_all add: eof_def token_def is_or_def is_and_def EqualFold_def ToLower_def)

text \<open>An outcome that is not a panic and leaves the end marker ahead.\<close>

fun safe :: "'a parsed \<Rightarrow> bool" where
  "safe Crash = False"
| "safe (Reject e) = True"
| "safe (Accept x ts) = ends_eof ts"

lemma safe_bind: "safe p \<Longrightarrow> (\<And>x ts. p = Accept x ts \<Longrightarrow> ends_eof ts \<Longrightarrow> safe (f x ts)) \<Longrightarrow> safe (bind_parsed p f)"
  by (cases p) auto

lemma safe_parseOperand: "ends_eof ts \<Longrightarrow> safe (parseOperand T ts)"
  by (cases ts) (auto simp: ends_eof_Cons eof_simps ends_eof_def [of "[]"] split: option.splits)

lemma safe_parseOperator: "ends_eof ts \<Longrightarrow> safe (parseOperator ts)"
proof (cases ts)
  case (Cons t us)
  assume e: "ends_eof ts"
  show ?thesis
  proof (cases "parseOperator ts")
    case Crash
    then show ?thesis using Cons by (auto split: if_splits)
  next
    case (Accept op rest)
    from Accept [unfolded Cons] show ?thesis
    proof (cases rule: parseOperator_cases)
      case 1
      then have "t \<noteq> eof" using eof_simps by auto
      then show ?thesis using e Cons Accept 1 by (simp add: ends_eof_Cons)
    next
      case 2
      then have "t \<noteq> eof" using eof_simps by auto
      then have us: "ends_eof us" using e Cons by (simp add: ends_eof_Cons)
      moreover have "hd us \<noteq> eof"
        using 2(2) eof_simps us by (cases us) (auto simp: ends_eof_def)
      ultimately have "ends_eof (drop 1 us)" by (cases us) (auto simp: ends_eof_Cons)
      then show ?thesis using Accept 2 by simp
    qed
  qed simp
qed (simp add: ends_eof_def)

lemma compareMarkerValues_total: "compareMarkerValues l r op lvar rvar \<noteq> None"
proof -
  have "compatiblePrefix lv rv \<noteq> None" if "ParseVersion r = Inr rv" for lv rv
    using compatiblePrefix_total [OF parsed_release [OF that], of lv] by auto
  then show ?thesis
    unfolding compareMarkerValues_def Let_def by (auto split: sum.splits if_splits)
qed

lemma safe_parse_comparison: "ends_eof ts \<Longrightarrow> safe (parse_comparison T ts)"
  unfolding parse_comparison_def
proof (intro safe_bind safe_parseOperand, goal_cases)
  case (2 x ts1)
  show ?case
  proof (cases x)
    case (Pair l lvar)
    have "safe (case compareMarkerValues l r op lvar rvar of None \<Rightarrow> Crash | Some b \<Rightarrow> Accept b ts3)"
      if "ends_eof ts3" for r op rvar and ts3
      using that compareMarkerValues_total [of l r op lvar rvar] by (auto split: option.splits)
    then show ?thesis unfolding Pair prod.case
      by (intro safe_bind safe_parseOperator safe_parseOperand 2) (auto split: prod.splits)
  qed
qed

lemma parser_safe:
  "ends_eof ts \<Longrightarrow> safe (parseOr T ts)"
  "ends_eof us \<Longrightarrow> safe (or_loop T left us)"
  "ends_eof vs \<Longrightarrow> safe (parseAnd T vs)"
  "ends_eof ws \<Longrightarrow> safe (and_loop T left' ws)"
  "ends_eof xs \<Longrightarrow> safe (parseTerm T xs)"
proof (induction T ts and T left us and T vs and T left' ws and T xs
    rule: parseOr_or_loop_parseAnd_and_loop_parseTerm.induct)
  case (1 T ts)
  then show ?case by (cases "parseAnd T ts") auto
next
  case (3 T left t ts)
  then have "is_or t \<Longrightarrow> ends_eof ts" using eof_simps by (auto simp: ends_eof_Cons)
  with 3 show ?case by (cases "parseAnd T ts") auto
next
  case (4 T ts)
  then show ?case by (cases "parseTerm T ts") auto
next
  case (6 T left t ts)
  then have "is_and t \<Longrightarrow> ends_eof ts" using eof_simps by (auto simp: ends_eof_Cons)
  with 6 show ?case by (cases "parseTerm T ts") auto
next
  case (8 T t ts)
  show ?case
  proof (cases "mt_kind t = MarkerLeftParen")
    case False
    then show ?thesis using "8.prems" safe_parse_comparison by simp
  next
    case True
    then have "ends_eof ts" using "8.prems" eof_simps by (auto simp: ends_eof_Cons)
    then have sf: "safe (parseOr T ts)" using 8(1) [OF True] by blast
    show ?thesis
    proof (cases "parseOr T ts")
      case (Accept b rest)
      then have "ends_eof rest" using sf by simp
      then show ?thesis using True Accept eof_simps by (cases rest) (auto simp: ends_eof_Cons ends_eof_def [of "[]"])
    qed (use True sf in auto)
  qed
qed (auto simp: ends_eof_def)

section \<open>Tokens\<close>

definition well_lexed :: "markerToken list \<Rightarrow> bool" where
  "well_lexed ts \<longleftrightarrow> (\<exists>body. ts = body @ [eof] \<and> (\<forall>t \<in> set body. lexed t \<and> mt_kind t \<noteq> MarkerEOF))"

lemma well_lexed_token:
  assumes "map_sum id ((#) t) p = Inr ts" "lexed t" "mt_kind t \<noteq> MarkerEOF" "\<And>us. p = Inr us \<Longrightarrow> well_lexed us"
  shows "well_lexed ts"
proof -
  obtain us where us: "p = Inr us" "ts = t # us" using assms(1) by (cases p) auto
  obtain body where "us = body @ [eof]" "\<forall>t \<in> set body. lexed t \<and> mt_kind t \<noteq> MarkerEOF"
    using assms(4) [OF us(1)] unfolding well_lexed_def by blast
  then have "ts = (t # body) @ [eof]" "\<forall>u \<in> set (t # body). lexed u \<and> mt_kind u \<noteq> MarkerEOF"
    using us(2) assms(2,3) by auto
  then show ?thesis unfolding well_lexed_def by blast
qed

lemma token_lexed:
  "lexed (token MarkerLeftParen v)" "lexed (token MarkerRightParen '')'')"
  "lexed (token MarkerString v)" "lexed (token MarkerOperator v)" "lexed (token MarkerWord v)" "mt_kind (token k v) = k"
  by (simp_all add: lexed_def token_def)

lemma operator_lexed:
  assumes op: "\<not> marker_space c" "c \<noteq> CHR ''(''" "c \<noteq> CHR '')''" "\<not> (c = CHR 0x27 \<or> c = CHR 0x22)" "operator_char c"
    and ts: "tokenize (c # s) = Inr ts"
    and nil: "\<And>us. s = [] \<Longrightarrow> tokenize [] = Inr us \<Longrightarrow> well_lexed us"
    and eq: "\<And>d rest us. s = d # rest \<Longrightarrow> d = CHR ''='' \<Longrightarrow> tokenize rest = Inr us \<Longrightarrow> well_lexed us"
    and single: "\<And>d rest us. s = d # rest \<Longrightarrow> d \<noteq> CHR ''='' \<Longrightarrow> tokenize s = Inr us \<Longrightarrow> well_lexed us"
  shows "well_lexed ts"
proof (cases s)
  case Nil
  then have "map_sum id ((#) (token MarkerOperator [c])) (tokenize []) = Inr ts" using ts op by simp
  then show ?thesis by (rule well_lexed_token) (use token_lexed nil op Nil in \<open>auto simp del: tokenize.simps\<close>)
next
  case (Cons d rest)
  show ?thesis
  proof (cases "d = CHR ''=''")
    case True
    then have "map_sum id ((#) (token MarkerOperator [c, d])) (tokenize rest) = Inr ts"
      using ts op Cons by simp
    then show ?thesis by (rule well_lexed_token) (use token_lexed eq [OF Cons True] op in auto)
  next
    case False
    then have "map_sum id ((#) (token MarkerOperator [c])) (tokenize s) = Inr ts"
      using ts op Cons by simp
    then show ?thesis by (rule well_lexed_token) (use token_lexed single [OF Cons False] op in auto)
  qed
qed

lemma tokenize_shape: "tokenize s = Inr ts \<Longrightarrow> well_lexed ts"
proof (induction s arbitrary: ts rule: tokenize.induct)
  case 1
  then show ?case by (simp add: eof_def well_lexed_def)
next
  case (2 c s)
  note simps = tokenize.simps(2) if_True if_False
  consider (space) "marker_space c" | (lparen) "\<not> marker_space c" "c = CHR ''(''"
    | (rparen) "\<not> marker_space c" "c \<noteq> CHR ''(''" "c = CHR '')''"
    | (quoted) "\<not> marker_space c" "c \<noteq> CHR ''(''" "c \<noteq> CHR '')''" "c = CHR 0x27 \<or> c = CHR 0x22"
    | (operator) "\<not> marker_space c" "c \<noteq> CHR ''(''" "c \<noteq> CHR '')''" "\<not> (c = CHR 0x27 \<or> c = CHR 0x22)" "operator_char c"
    | (word) "\<not> marker_space c" "c \<noteq> CHR ''(''" "c \<noteq> CHR '')''" "\<not> (c = CHR 0x27 \<or> c = CHR 0x22)" "\<not> operator_char c"
    by blast
  then show ?case
  proof cases
    case space
    then show ?thesis using "2.IH"(1) "2.prems" by simp
  next
    case lparen
    have "map_sum id ((#) (token MarkerLeftParen ''('')) (tokenize s) = Inr ts" using "2.prems" lparen by simp
    then show ?thesis by (rule well_lexed_token) (use token_lexed "2.IH"(2) lparen in auto)
  next
    case rparen
    have "map_sum id ((#) (token MarkerRightParen '')'')) (tokenize s) = Inr ts" using "2.prems" rparen by simp
    then show ?thesis by (rule well_lexed_token) (use token_lexed "2.IH"(3) rparen in auto)
  next
    case quoted
    then obtain d rest where d: "dropWhile (\<lambda>x. x \<noteq> c) s = d # rest"
      "map_sum id ((#) (token MarkerString (takeWhile (\<lambda>x. x \<noteq> c) s))) (tokenize rest) = Inr ts"
      using "2.prems" by (auto split: list.splits)
    from d(2) show ?thesis
      by (rule well_lexed_token) (use token_lexed "2.IH"(4) [OF quoted d(1)] in auto)
  next
    case operator
    show ?thesis
      by (rule operator_lexed [OF operator "2.prems"]) (use "2.IH"(5-7) [OF operator] in blast)+
  next
    case word
    let ?w = "takeWhile (\<lambda>x. \<not> word_end x) (c # s)"
    have w: "?w \<noteq> []" and m: "map_sum id ((#) (token MarkerWord ?w)) (tokenize (dropWhile (\<lambda>x. \<not> word_end x) (c # s))) = Inr ts"
      using "2.prems" word by (simp_all only: simps) (simp_all split: if_splits)
    from m show ?thesis by (rule well_lexed_token) (use token_lexed "2.IH"(8) [OF word w] in auto)
  qed
qed

section \<open>The evaluator\<close>

lemma well_lexed_ends: "well_lexed ts \<Longrightarrow> ends_eof ts"
  by (auto simp: well_lexed_def ends_eof_def)

lemma accepted_body:
  assumes "well_lexed ts" "ts = pre @ t # rest" "mt_kind t = MarkerEOF"
  shows "ts = pre @ [eof]"
proof -
  obtain body where body: "ts = body @ [eof]" "\<forall>t \<in> set body. mt_kind t \<noteq> MarkerEOF"
    using assms(1) unfolding well_lexed_def by blast
  show ?thesis
  proof (cases rest rule: rev_cases)
    case Nil
    then show ?thesis using assms(2) body(1) by simp
  next
    case (snoc us u)
    then have "body = pre @ t # us" using assms(2) body(1) by simp
    then show ?thesis using body(2) assms(3) by auto
  qed
qed

lemma EvaluateMarker_cases:
  obtains (lex_error) e where "tokenizeMarker expression = Inl e" "EvaluateMarker expression T = Some (Inl e)"
  | (rejected) ts e where "tokenizeMarker expression = Inr ts" "parseOr T ts = Reject e" "EvaluateMarker expression T = Some (Inl e)"
  | (accepted) ts b t rest where "tokenizeMarker expression = Inr ts" "well_lexed ts" "parseOr T ts = Accept b (t # rest)"
      "EvaluateMarker expression T = (if mt_kind t = MarkerEOF then Some (Inr b) else Some (Inl ''unexpected marker token''))"
proof (cases "tokenizeMarker expression")
  case (Inl e)
  then show thesis using lex_error by (simp add: EvaluateMarker_def)
next
  case (Inr ts)
  then have wl: "well_lexed ts" using tokenize_shape by (simp add: tokenizeMarker_def)
  then have sf: "safe (parseOr T ts)" using parser_safe(1) well_lexed_ends by blast
  show thesis
  proof (cases "parseOr T ts")
    case Crash
    then show thesis using sf by simp
  next
    case (Reject e)
    then show thesis using rejected Inr by (simp add: EvaluateMarker_def)
  next
    case (Accept b rest)
    then obtain t us where "rest = t # us" using sf by (cases rest) (auto simp: ends_eof_def)
    then show thesis using accepted [OF Inr wl] Accept Inr by (simp add: EvaluateMarker_def)
  qed
qed

text \<open>
  C26: The marker evaluator is exact. It never panics, and it returns a truth value exactly for the
  expressions whose tokens the marker grammar derives, the value of the derivation:
  comparisons and parenthesized expressions, joined by \<^verbatim>\<open>and\<close>, joined by
  \<^verbatim>\<open>or\<close>, both associating to the left. Everything else is an error.
\<close>

theorem marker_evaluation_exact:
  "EvaluateMarker expression T \<noteq> None \<and>
   (EvaluateMarker expression T = Some (Inr b) \<longleftrightarrow>
      (\<exists>body. tokenizeMarker expression = Inr (body @ [eof]) \<and> g_or T body b))"
proof (cases rule: EvaluateMarker_cases [of expression T])
  case (lex_error e)
  then show ?thesis by simp
next
  case (rejected ts e)
  have "\<not> g_or T body b" if "ts = body @ [eof]" for body
  proof
    assume g: "g_or T body b"
    have "\<forall>t \<in> set body. lexed t"
      using tokenize_shape [of expression ts] rejected(1) that by (auto simp: tokenizeMarker_def well_lexed_def)
    then have "parseOr T ts = or_loop T b [eof]" using parser_complete(1) [OF g] that eof_simps by simp
    then show False using rejected(2) eof_simps by simp
  qed
  then show ?thesis using rejected by auto
next
  case (accepted ts c t rest)
  have "g_or T body b \<Longrightarrow> mt_kind t = MarkerEOF \<and> c = b" if "ts = body @ [eof]" for body
  proof -
    assume g: "g_or T body b"
    have "\<forall>t \<in> set body. lexed t" using accepted(2) that by (auto simp: well_lexed_def)
    then have "parseOr T ts = or_loop T b [eof]" using parser_complete(1) [OF g] that eof_simps by simp
    then show ?thesis using accepted(3) eof_simps by auto
  qed
  moreover have "\<exists>body. ts = body @ [eof] \<and> g_or T body c" if "mt_kind t = MarkerEOF"
    using parser_sound(1) [OF accepted(3)] accepted_body [OF accepted(2) _ that] by blast
  ultimately show ?thesis using accepted(1,4) by auto
qed

text \<open>
  C1: The evaluator tells tokens apart by their text where the grammar wants a keyword, so a
  quoted string is taken for the operator it spells: the malformed marker below is accepted,
  and true, instead of being rejected.
\<close>

theorem quoted_or_accepted:
  "map_sum id (map (\<lambda>t. (mt_kind t, mt_value t))) (tokenizeMarker ''os_name == \"nt\" \"or\" os_name == \"posix\"'')
     = Inr [(MarkerWord, ''os_name''), (MarkerOperator, ''==''), (MarkerString, ''nt''), (MarkerString, ''or''),
            (MarkerWord, ''os_name''), (MarkerOperator, ''==''), (MarkerString, ''posix''), (MarkerEOF, [])]
   \<and> map_option (\<lambda>_. ()) (case NewTarget ''3.12'' ''linux'' of Inl _ \<Rightarrow> None | Inr T \<Rightarrow> Some T) = Some ()
   \<and> (case NewTarget ''3.12'' ''linux'' of Inl _ \<Rightarrow> None
      | Inr T \<Rightarrow> EvaluateMarker ''os_name == \"nt\" \"or\" os_name == \"posix\"'' T) = Some (Inr True)"
  by code_simp

section \<open>Names\<close>

text \<open>A normalized name: no upper case, no underscore or dot, no two dashes in a row.\<close>

fun canonical_name :: "string \<Rightarrow> bool" where
  "canonical_name [] = True"
| "canonical_name (c # s) \<longleftrightarrow> \<not> is_upper c \<and> (dot_sep c \<longrightarrow> c = CHR ''-'' \<and> (s = [] \<or> \<not> dot_sep (hd s))) \<and> canonical_name s"

lemma lower_not_upper: "\<not> is_upper (lower c)"
proof (cases "is_upper c")
  case True
  then have "of_char c \<in> {65..<91::nat}" by (auto simp: is_upper_def less_eq_char_def)
  then have "(of_char c + 32 :: nat) < 256" "\<not> (of_char c + 32 :: nat) \<le> 90" by auto
  then show ?thesis using True
    by (simp add: lower_def is_upper_def less_eq_char_def of_char_of)
qed (simp add: lower_def)

lemma lower_id: "\<not> is_upper c \<Longrightarrow> lower c = c"
  by (simp add: lower_def)

lemma dot_sep_lower: "dot_sep (lower c) \<longleftrightarrow> dot_sep c"
proof (cases "is_upper c")
  case True
  then have r: "of_char c \<in> {65..<91::nat}" by (auto simp: is_upper_def less_eq_char_def)
  then have "(of_char c + 32 :: nat) < 256" by auto
  then have "(of_char (lower c) :: nat) = of_char c + 32" using True by (simp add: lower_def of_char_of)
  then show ?thesis using r by (auto simp: dot_sep_def)
qed (simp add: lower_def)

lemma collapse_canonical: "canonical_name (map lower (collapse run s)) \<and> (run \<longrightarrow> collapse run s = [] \<or> \<not> dot_sep (hd (collapse run s)))"
proof (induction run s rule: collapse.induct)
  case (2 run c s)
  have hd: "map lower t = [] \<or> \<not> dot_sep (hd (map lower t))" if "t = [] \<or> \<not> dot_sep (hd t)" for t
    using that by (cases t) (auto simp: dot_sep_lower)
  show ?case
  proof (cases "dot_sep c")
    case True
    moreover have "lower (CHR ''-'') = CHR ''-''" "\<not> is_upper (CHR ''-'')"
      by (simp_all add: lower_def is_upper_def)
    ultimately show ?thesis using 2 hd [of "collapse True s"] by auto
  next
    case False
    then show ?thesis using 2 by (auto simp: lower_not_upper dot_sep_lower)
  qed
qed simp

lemma collapse_id: "canonical_name s \<Longrightarrow> run \<longrightarrow> s = [] \<or> \<not> dot_sep (hd s) \<Longrightarrow> collapse run s = s"
  by (induction run s rule: collapse.induct) auto

lemma ToLower_canonical: "canonical_name s \<Longrightarrow> ToLower s = s"
  by (induction s) (auto simp: ToLower_def lower_id)

lemma normalize_name_facts: "canonical_name (NormalizeName n)" "NormalizeName (NormalizeName n) = NormalizeName n"
proof -
  show c: "canonical_name (NormalizeName n)"
    using collapse_canonical [of False n] by (simp add: NormalizeName_def ToLower_def)
  have "collapse False (NormalizeName n) = NormalizeName n" by (rule collapse_id [OF c]) simp
  then show "NormalizeName (NormalizeName n) = NormalizeName n"
    using ToLower_canonical [OF c] by (simp add: NormalizeName_def [of "NormalizeName n"])
qed

text \<open>
  C1: Name normalization is a normal form: the result has no upper-case letter, no underscore,
  no dot and no two dashes in a row, names already of that form stay as they are, and so
  normalizing twice is normalizing once.
\<close>

theorem normalize_name_normal_form:
  "canonical_name (NormalizeName n) \<and> NormalizeName (NormalizeName n) = NormalizeName n
   \<and> (NormalizeName n = n \<longleftrightarrow> canonical_name n)"
proof -
  have "canonical_name n \<Longrightarrow> NormalizeName n = n"
    using collapse_id [of n False] ToLower_canonical [of n] by (simp add: NormalizeName_def)
  then show ?thesis using normalize_name_facts by metis
qed

section \<open>Requirement lines\<close>

lemma EvaluateMarker_total: "EvaluateMarker m T \<noteq> None"
  by (cases rule: EvaluateMarker_cases [of m T]) (auto split: if_splits)

lemma NormalizeName_not_Nil: "n \<noteq> [] \<Longrightarrow> NormalizeName n \<noteq> []"
  by (cases n) (auto simp: NormalizeName_def ToLower_def)

text \<open>The three ways a requirement line can end.\<close>

lemma ParseRequirement_cases:
  obtains (error) e where "ParseRequirement raw T = Some (Inl e)"
  | (plain) n c where "n \<noteq> []" "\<exists>c0. NormalizeConstraint c0 = Inr c"
      "ParseRequirement raw T = Some (Inr \<lparr>pr_Name = NormalizeName n, pr_Constraint = c, pr_Marker = [], pr_Active = True\<rparr>)"
  | (marked) n c m b where "n \<noteq> []" "\<exists>c0. NormalizeConstraint c0 = Inr c" "m \<noteq> []" "EvaluateMarker m T = Some (Inr b)"
      "ParseRequirement raw T = Some (Inr \<lparr>pr_Name = NormalizeName n, pr_Constraint = c, pr_Marker = m, pr_Active = b\<rparr>)"
proof (cases "requirement_head (TrimSpace raw)")
  case (Inl e)
  then show thesis using error [of e] by (simp add: ParseRequirement_def)
next
  case (Inr p)
  obtain n remainder where p: "p = (n, remainder)" by force
  have n: "n \<noteq> []" using Inr p by (auto simp: requirement_head_def Let_def split: if_splits)
  obtain c0 m where sm: "split_marker remainder = (c0, m)" by force
  note unfolded = ParseRequirement_def [of raw T] Inr p sm
  show thesis
  proof (cases "NormalizeConstraint (strip_parens c0)")
    case (Inl e)
    then show thesis using error by (simp add: unfolded)
  next
    case c: (Inr c)
    show thesis
    proof (cases "m = []")
      case True
      then show thesis using plain [of n c] n c by (auto simp: unfolded)
    next
      case False
      obtain res where res: "EvaluateMarker m T = Some res" using EvaluateMarker_total by blast
      show thesis
      proof (cases res)
        case (Inl e)
        then show thesis using error res False c by (simp add: unfolded)
      next
        case (Inr b)
        then show thesis using marked [of n c m b] n c res False by (auto simp: unfolded)
      qed
    qed
  qed
qed

text \<open>
  C27: A requirement line never makes the parser panic. If it is accepted, the name and the
  constraint are in normal form (normalizing them again changes nothing), the
  marker is empty or evaluates, and the requirement is active exactly if it has no marker or
  its marker is true in the target environment.
\<close>

theorem requirement_well_formed:
  "\<exists>res. ParseRequirement raw T = Some res \<and>
     (\<forall>q. res = Inr q \<longrightarrow>
        canonical_name (pr_Name q) \<and> pr_Name q \<noteq> [] \<and> NormalizeConstraint (pr_Constraint q) = Inr (pr_Constraint q) \<and>
        (pr_Marker q \<noteq> [] \<longrightarrow> EvaluateMarker (pr_Marker q) T = Some (Inr (pr_Active q))) \<and>
        (pr_Marker q = [] \<longrightarrow> pr_Active q))"
proof (cases rule: ParseRequirement_cases [of raw T])
  case (error e)
  then show ?thesis by simp
next
  case (plain n c)
  then show ?thesis using normalize_name_facts(1) [of n] NormalizeName_not_Nil normalize_again by auto
next
  case (marked n c m b)
  then show ?thesis using normalize_name_facts(1) [of n] NormalizeName_not_Nil normalize_again by auto
qed

definition demo_target :: target where
  "demo_target = \<lparr>t_PythonVersion = ''3.12'', t_PythonFullVersion = ''3.12.0'', t_Platform = ''linux'',
     t_SysPlatform = ''linux'', t_OSName = ''posix'', t_PlatformSystem = ''Linux'', t_Implementation = ''cpython''\<rparr>"

theorem requirement_well_formed_witness:
  "NormalizeConstraint ''>=2.0,<3'' = Inr ''>=2.0,<3'' \<and> EvaluateMarker ''python_version < \"3.9\"'' demo_target = Some (Inr False)"
proof -
  have "ParseRequirement ''Foo_Bar (>=2.0, <3) ; python_version < \"3.9\"'' demo_target
    = Some (Inr \<lparr>pr_Name = ''foo-bar'', pr_Constraint = ''>=2.0,<3'', pr_Marker = ''python_version < \"3.9\"'', pr_Active = False\<rparr>)"
    by code_simp
  then show ?thesis
    using requirement_well_formed [of "''Foo_Bar (>=2.0, <3) ; python_version < \"3.9\"''" demo_target] by auto
qed

end
