(* ===== verification/Gomod_Selection.thy ===== *)
theory Gomod_Selection
  imports Go_Strings
begin

text \<open>
  Minimal version selection of \<^verbatim>\<open>internal/gomod/selection.go\<close> with the version checks of
  \<^verbatim>\<open>version.go\<close>. The functions of \<^verbatim>\<open>golang.org/x/mod\<close> are a record of arguments. A Go
  map that is only looked up is a function, a map that is iterated is the list of its
  entries; every iteration of the source sorts first. Error texts keep their fixed part.
\<close>

section \<open>The module library\<close>

record modlib =
  ml_CheckPath :: "string \<Rightarrow> bool"
  ml_Check :: "string \<Rightarrow> string \<Rightarrow> bool"
  ml_IsValid :: "string \<Rightarrow> bool"
  ml_CanonicalVersion :: "string \<Rightarrow> string"
  ml_IsPseudoVersion :: "string \<Rightarrow> bool"
  ml_PseudoVersionTime :: "string \<Rightarrow> bool"
  ml_PseudoVersionBase :: "string \<Rightarrow> bool"
  ml_Compare :: "string \<Rightarrow> string \<Rightarrow> int"

definition ValidateVersion :: "modlib \<Rightarrow> string \<Rightarrow> bool" where
  "ValidateVersion L version \<longleftrightarrow>
     ml_IsValid L version \<and> ml_CanonicalVersion L version = version
     \<and> (ml_IsPseudoVersion L version \<longrightarrow> ml_PseudoVersionTime L version \<and> ml_PseudoVersionBase L version)"

definition ValidateCoordinate :: "modlib \<Rightarrow> string \<Rightarrow> string \<Rightarrow> bool" where
  "ValidateCoordinate L modulePath version \<longleftrightarrow> ValidateVersion L version \<and> ml_Check L modulePath version"

definition compareCanonicalVersions :: "modlib \<Rightarrow> string \<Rightarrow> string \<Rightarrow> int" where
  "compareCanonicalVersions L = ml_Compare L"

definition CompareVersions :: "modlib \<Rightarrow> string \<Rightarrow> string \<Rightarrow> string + int" where
  "CompareVersions L l r =
     (if \<not> ValidateVersion L l then Inl ''left version''
      else if \<not> ValidateVersion L r then Inl ''right version''
      else Inr (compareCanonicalVersions L l r))"

section \<open>Data\<close>

record coordinate =
  co_path :: string
  co_version :: string

record requirement =
  rq_path :: string
  rq_version :: string
  rq_indirect :: bool

record metadata =
  md_path :: string
  md_go :: string
  md_requirements :: "requirement list"

record selected_edge =
  se_from :: coordinate
  se_to :: coordinate

record selection =
  sel_modules :: "coordinate list"
  sel_edges :: "selected_edge list"

datatype load_mode = LoadNone | LoadDirect | LoadFull

fun mode_rank :: "load_mode \<Rightarrow> nat" where
  "mode_rank LoadNone = 0"
| "mode_rank LoadDirect = 1"
| "mode_rank LoadFull = 2"

type_synonym cache = "(coordinate \<times> metadata) list"
type_synonym load_modes = "coordinate \<Rightarrow> load_mode"
type_synonym selected = "(string \<times> string) list"

definition coord_of :: "requirement \<Rightarrow> coordinate" where
  "coord_of r = \<lparr>co_path = rq_path r, co_version = rq_version r\<rparr>"

section \<open>Ordering\<close>

definition compareCoordinates :: "modlib \<Rightarrow> coordinate \<Rightarrow> coordinate \<Rightarrow> int" where
  "compareCoordinates L a b =
     (if co_path a < co_path b then - 1
      else if co_path a > co_path b then 1
      else let c = compareCanonicalVersions L (co_version a) (co_version b)
           in if c \<noteq> 0 then c
              else if co_version a < co_version b then - 1
              else if co_version a > co_version b then 1 else 0)"

text \<open>
  \<^verbatim>\<open>sort.Slice\<close>. The orders the source sorts by tell distinct elements apart and the
  sorted lists have no duplicates, so the result does not depend on the algorithm.
\<close>

fun insert_cmp :: "('a \<Rightarrow> 'a \<Rightarrow> int) \<Rightarrow> 'a \<Rightarrow> 'a list \<Rightarrow> 'a list" where
  "insert_cmp c x [] = [x]"
| "insert_cmp c x (y # ys) = (if c y x < 0 then y # insert_cmp c x ys else x # y # ys)"

definition sort_cmp :: "('a \<Rightarrow> 'a \<Rightarrow> int) \<Rightarrow> 'a list \<Rightarrow> 'a list" where
  "sort_cmp c xs = foldr (insert_cmp c) xs []"

definition sortCoordinates :: "modlib \<Rightarrow> coordinate list \<Rightarrow> coordinate list" where
  "sortCoordinates L = sort_cmp (compareCoordinates L)"

definition sortedMetadataCoordinates :: "modlib \<Rightarrow> cache \<Rightarrow> coordinate list" where
  "sortedMetadataCoordinates L cache = sortCoordinates L (map fst cache)"

section \<open>Graph pruning\<close>

definition pruningEnabled :: "modlib \<Rightarrow> string \<Rightarrow> bool" where
  "pruningEnabled L goVersion \<longleftrightarrow> TrimSpace goVersion \<noteq> [] \<and> ml_Compare L (''v'' @ goVersion) ''v1.17'' \<ge> 0"

definition validateGoDirective :: "modlib \<Rightarrow> string \<Rightarrow> bool" where
  "validateGoDirective L goVersion \<longleftrightarrow> \<not> (TrimSpace goVersion = [] \<or> \<not> ml_IsValid L (''v'' @ goVersion))"

definition promoteLoadMode :: "load_modes \<Rightarrow> coordinate \<Rightarrow> load_mode \<Rightarrow> bool \<times> load_modes" where
  "promoteLoadMode modes c mode =
     (if mode_rank (modes c) \<ge> mode_rank mode then (False, modes) else (True, modes(c := mode)))"

fun promote_all :: "coordinate list \<Rightarrow> bool \<Rightarrow> load_modes \<Rightarrow> bool \<times> load_modes" where
  "promote_all [] changed modes = (changed, modes)"
| "promote_all (c # cs) changed modes =
     (let (up, modes1) = promoteLoadMode modes c LoadFull in promote_all cs (changed \<or> up) modes1)"

text \<open>The body of the inner loop for one cached module.\<close>

definition expand :: "modlib \<Rightarrow> coordinate \<Rightarrow> metadata \<Rightarrow> bool \<Rightarrow> load_modes \<Rightarrow> bool \<times> load_modes" where
  "expand L c md changed0 modes0 =
     (let mode0 = modes0 c;
          lift = (mode0 = LoadNone \<and> \<not> pruningEnabled L (md_go md));
          (up, modes) = (if lift then promoteLoadMode modes0 c LoadFull else (False, modes0));
          changed = (changed0 \<or> up);
          mode = (if lift then LoadFull else mode0)
      in if mode = LoadNone then (changed, modes)
         else if \<not> (mode = LoadFull \<or> \<not> pruningEnabled L (md_go md)) then (changed, modes)
         else promote_all (map coord_of (md_requirements md)) changed modes)"

fun propagate_pass :: "modlib \<Rightarrow> cache \<Rightarrow> coordinate list \<Rightarrow> bool \<Rightarrow> load_modes \<Rightarrow> bool \<times> load_modes" where
  "propagate_pass L cache [] changed modes = (changed, modes)"
| "propagate_pass L cache (c # cs) changed modes =
     (case map_of cache c of
        None \<Rightarrow> propagate_pass L cache cs changed modes
      | Some md \<Rightarrow> let (ch, modes1) = expand L c md changed modes in propagate_pass L cache cs ch modes1)"

text \<open>The outer loop, with a bound on its rounds; \<open>None\<close> when the bound is used up.\<close>

fun propagate_rounds :: "nat \<Rightarrow> modlib \<Rightarrow> cache \<Rightarrow> load_modes \<Rightarrow> load_modes option" where
  "propagate_rounds 0 L cache modes = None"
| "propagate_rounds (Suc n) L cache modes =
     (case propagate_pass L cache (sortedMetadataCoordinates L cache) False modes of
        (changed, modes1) \<Rightarrow> if changed then propagate_rounds n L cache modes1 else Some modes1)"

text \<open>Each round but the last raises the mode of a cached or a required module.\<close>

definition mentioned :: "cache \<Rightarrow> coordinate list" where
  "mentioned cache = remdups (map fst cache @ concat (map (\<lambda>(c, md). map coord_of (md_requirements md)) cache))"

definition propagateLoadModes :: "modlib \<Rightarrow> cache \<Rightarrow> load_modes \<Rightarrow> load_modes option" where
  "propagateLoadModes L cache modes = propagate_rounds (Suc (2 * length (mentioned cache))) L cache modes"

section \<open>Selection\<close>

fun put :: "'k \<Rightarrow> 'v \<Rightarrow> ('k \<times> 'v) list \<Rightarrow> ('k \<times> 'v) list" where
  "put k v [] = [(k, v)]"
| "put k v ((k', v') # kvs) = (if k' = k then (k, v) # kvs else (k', v') # put k v kvs)"

definition selectHigher :: "modlib \<Rightarrow> selected \<Rightarrow> requirement \<Rightarrow> string + selected" where
  "selectHigher L selected r =
     (case map_of selected (rq_path r) of
        None \<Rightarrow> Inr (put (rq_path r) (rq_version r) selected)
      | Some current \<Rightarrow>
          (case CompareVersions L (rq_version r) current of
             Inl e \<Rightarrow> Inl (''MVS compare versions: '' @ e)
           | Inr c \<Rightarrow> if c > 0 \<or> (c = 0 \<and> rq_version r > current)
                      then Inr (put (rq_path r) (rq_version r) selected) else Inr selected))"

fun select_all :: "modlib \<Rightarrow> requirement list \<Rightarrow> selected \<Rightarrow> string + selected" where
  "select_all L [] selected = Inr selected"
| "select_all L (r # rs) selected =
     (case selectHigher L selected r of Inl e \<Rightarrow> Inl e | Inr s \<Rightarrow> select_all L rs s)"

text \<open>The requirements the selection looks at: the root's, then those of the loaded modules.\<close>

definition loaded_requirements :: "modlib \<Rightarrow> cache \<Rightarrow> load_modes \<Rightarrow> requirement list" where
  "loaded_requirements L cache modes =
     concat (map (\<lambda>c. case map_of cache c of None \<Rightarrow> [] | Some md \<Rightarrow> md_requirements md)
       (filter (\<lambda>c. modes c \<noteq> LoadNone) (sortedMetadataCoordinates L cache)))"

definition computeSelected :: "modlib \<Rightarrow> requirement list \<Rightarrow> cache \<Rightarrow> load_modes \<Rightarrow> string + selected" where
  "computeSelected L rootReqs cache modes = select_all L (rootReqs @ loaded_requirements L cache modes) []"

definition missingCoordinates :: "modlib \<Rightarrow> selected \<Rightarrow> cache \<Rightarrow> coordinate list" where
  "missingCoordinates L selected cache =
     sortCoordinates L (filter (\<lambda>c. map_of cache c = None)
       (map (\<lambda>(p, v). \<lparr>co_path = p, co_version = v\<rparr>) selected))"

definition validateRequirements :: "modlib \<Rightarrow> requirement list \<Rightarrow> bool" where
  "validateRequirements L rs \<longleftrightarrow> list_all (\<lambda>r. ValidateCoordinate L (rq_path r) (rq_version r)) rs"

fun check_fetched :: "modlib \<Rightarrow> coordinate list \<Rightarrow> cache \<Rightarrow> coordinate list \<Rightarrow> string option" where
  "check_fetched L requested fetched [] = None"
| "check_fetched L requested fetched (c # cs) =
     (if c \<notin> set requested then Some ''MVS fetch round returned unexpected metadata''
      else case map_of fetched c of
          None \<Rightarrow> check_fetched L requested fetched cs
        | Some md \<Rightarrow>
            if md_path md \<noteq> co_path c then Some ''MVS metadata declares another module''
            else if \<not> validateRequirements L (md_requirements md) then Some ''MVS requirement''
            else check_fetched L requested fetched cs)"

fun store_fetched :: "coordinate list \<Rightarrow> cache \<Rightarrow> cache \<Rightarrow> string + cache" where
  "store_fetched [] fetched cache = Inr cache"
| "store_fetched (c # cs) fetched cache =
     (case map_of fetched c of
        None \<Rightarrow> Inl ''MVS fetch round did not return metadata''
      | Some md \<Rightarrow> store_fetched cs fetched (put c md cache))"

definition addFetchRound :: "modlib \<Rightarrow> coordinate list \<Rightarrow> cache \<Rightarrow> cache \<Rightarrow> string + cache" where
  "addFetchRound L requested fetched cache =
     (case check_fetched L requested fetched (sortCoordinates L (remdups (map fst fetched))) of
        Some e \<Rightarrow> Inl e
      | None \<Rightarrow> store_fetched requested fetched cache)"

section \<open>The result\<close>

definition selected_edges :: "coordinate \<Rightarrow> requirement list \<Rightarrow> selected \<Rightarrow> selected_edge list" where
  "selected_edges from reqs selected =
     map (\<lambda>r. \<lparr>se_from = from, se_to = \<lparr>co_path = rq_path r,
        co_version = (case map_of selected (rq_path r) of None \<Rightarrow> [] | Some v \<Rightarrow> v)\<rparr>\<rparr>) reqs"

definition compareEdges :: "modlib \<Rightarrow> coordinate \<Rightarrow> selected_edge \<Rightarrow> selected_edge \<Rightarrow> int" where
  "compareEdges L root a b =
     (if (se_from a = root) \<noteq> (se_from b = root) then (if se_from a = root then - 1 else 1)
      else let c = compareCoordinates L (se_from a) (se_from b)
           in if c \<noteq> 0 then c else compareCoordinates L (se_to a) (se_to b))"

definition buildSelection :: "modlib \<Rightarrow> string \<Rightarrow> requirement list \<Rightarrow> selected \<Rightarrow> cache \<Rightarrow> load_modes \<Rightarrow> selection" where
  "buildSelection L rootPath rootReqs selected cache modes =
     (let modules = sortCoordinates L (map (\<lambda>(p, v). \<lparr>co_path = p, co_version = v\<rparr>) selected);
          root = \<lparr>co_path = rootPath, co_version = []\<rparr>;
          edges = selected_edges root rootReqs selected
            @ concat (map (\<lambda>c. if modes c = LoadNone then []
                 else case map_of cache c of None \<Rightarrow> [] | Some md \<Rightarrow> selected_edges c (md_requirements md) selected) modules)
      in \<lparr>sel_modules = modules, sel_edges = sort_cmp (compareEdges L root) (remdups edges)\<rparr>)"

text \<open>A fetcher answers the coordinates of a round; it may answer differently in every round.\<close>

type_synonym fetcher = "nat \<Rightarrow> coordinate list \<Rightarrow> string + cache"

text \<open>
  The loop of \<^verbatim>\<open>Select\<close> from round \<open>k\<close> with at most \<open>n\<close> rounds; \<open>None\<close> when
  they are used up.
\<close>

fun select_loop :: "nat \<Rightarrow> modlib \<Rightarrow> string \<Rightarrow> requirement list \<Rightarrow> fetcher option \<Rightarrow> nat \<Rightarrow> cache \<Rightarrow> load_modes \<Rightarrow> (string + selection) option" where
  "select_loop 0 L rootPath rootReqs fetch k cache modes = None"
| "select_loop (Suc n) L rootPath rootReqs fetch k cache modes =
     (case propagateLoadModes L cache modes of
        None \<Rightarrow> None
      | Some modes1 \<Rightarrow>
          (case computeSelected L rootReqs cache modes1 of
             Inl e \<Rightarrow> Some (Inl e)
           | Inr selected \<Rightarrow>
               let missing = missingCoordinates L selected cache
               in if missing = [] then Some (Inr (buildSelection L rootPath rootReqs selected cache modes1))
                  else case fetch of
                      None \<Rightarrow> Some (Inl ''MVS metadata fetcher is required'')
                    | Some f \<Rightarrow>
                        (case f k missing of
                           Inl e \<Rightarrow> Some (Inl (''MVS fetch round: '' @ e))
                         | Inr fetched \<Rightarrow>
                             (case addFetchRound L missing fetched cache of
                                Inl e \<Rightarrow> Some (Inl e)
                              | Inr cache1 \<Rightarrow> select_loop n L rootPath rootReqs fetch (Suc k) cache1 modes1))))"

definition Select :: "nat \<Rightarrow> modlib \<Rightarrow> string \<Rightarrow> string \<Rightarrow> requirement list \<Rightarrow> fetcher option \<Rightarrow> (string + selection) option" where
  "Select n L rootPath rootGo rootReqs fetch =
     (if \<not> ml_CheckPath L rootPath then Some (Inl ''MVS root module'')
      else if \<not> validateGoDirective L rootGo then Some (Inl ''MVS root go directive'')
      else if \<not> validateRequirements L rootReqs then Some (Inl ''MVS root requirement'')
      else
        let rootMode = (if pruningEnabled L rootGo then LoadDirect else LoadFull);
            modes = fold (\<lambda>r m. snd (promoteLoadMode m (coord_of r) rootMode)) rootReqs (\<lambda>_. LoadNone)
        in select_loop n L rootPath rootReqs fetch 0 [] modes)"

end
