(* ===== verification/Gomod_Theorems.thy ===== *)
theory Gomod_Theorems
  imports Gomod_Selection
begin

text \<open>
  Theorems on minimal version selection: propagation of load modes ends within its bound and
  computes exactly the modules that must be loaded in full; the selected version of a module
  is the highest requirement that was considered; the selection loop ends when the modules
  that metadata mention are finitely many, and a returned selection meets every requirement
  it shows.
\<close>

section \<open>Sorting and association lists\<close>

lemma set_insert_cmp [simp]: "set (insert_cmp c x ys) = insert x (set ys)"
  by (induction ys) auto

lemma set_sort_cmp [simp]: "set (sort_cmp c xs) = set xs"
  unfolding sort_cmp_def by (induction xs) auto

lemma length_insert_cmp [simp]: "length (insert_cmp c x ys) = Suc (length ys)"
  by (induction ys) auto

lemma length_sort_cmp [simp]: "length (sort_cmp c xs) = length xs"
  unfolding sort_cmp_def by (induction xs) auto

lemma distinct_insert_cmp [simp]: "distinct (insert_cmp c x ys) \<longleftrightarrow> x \<notin> set ys \<and> distinct ys"
  by (induction ys) auto

lemma distinct_sort_cmp [simp]: "distinct (sort_cmp c xs) \<longleftrightarrow> distinct xs"
proof -
  have "set (foldr (insert_cmp c) xs []) = set xs" for xs :: "'a list"
    by (induction xs) auto
  then show ?thesis unfolding sort_cmp_def by (induction xs) auto
qed

lemma set_sortCoordinates [simp]: "set (sortCoordinates L cs) = set cs"
  by (simp add: sortCoordinates_def)

lemma set_sortedMetadata [simp]: "set (sortedMetadataCoordinates L cache) = fst ` set cache"
  by (simp add: sortedMetadataCoordinates_def)

lemma map_of_put [simp]: "map_of (put k v kvs) = (map_of kvs)(k \<mapsto> v)"
  by (induction k v kvs rule: put.induct) auto

lemma keys_put: "fst ` set (put k v kvs) = insert k (fst ` set kvs)"
  by (induction k v kvs rule: put.induct) auto

lemma distinct_put: "distinct (map fst kvs) \<Longrightarrow> distinct (map fst (put k v kvs))"
proof (induction k v kvs rule: put.induct)
  case (2 k v k' v' kvs)
  then show ?case by (auto simp: keys_put)
qed simp

section \<open>Load modes\<close>

text \<open>The modules that pruning does not keep from being loaded in full.\<close>

inductive full :: "modlib \<Rightarrow> cache \<Rightarrow> load_modes \<Rightarrow> coordinate \<Rightarrow> bool"
  for L :: modlib and cache :: cache and modes :: load_modes where
  given: "modes c = LoadFull \<Longrightarrow> full L cache modes c"
| unpruned: "map_of cache c = Some md \<Longrightarrow> modes c = LoadNone \<Longrightarrow> \<not> pruningEnabled L (md_go md) \<Longrightarrow> full L cache modes c"
| direct: "map_of cache c = Some md \<Longrightarrow> modes c = LoadDirect \<Longrightarrow> \<not> pruningEnabled L (md_go md) \<Longrightarrow>
    r \<in> set (md_requirements md) \<Longrightarrow> full L cache modes (coord_of r)"
| child: "full L cache modes c \<Longrightarrow> map_of cache c = Some md \<Longrightarrow> r \<in> set (md_requirements md) \<Longrightarrow>
    full L cache modes (coord_of r)"

text \<open>Modes between the given ones and the final ones.\<close>

definition within :: "modlib \<Rightarrow> cache \<Rightarrow> load_modes \<Rightarrow> load_modes \<Rightarrow> bool" where
  "within L cache modes m \<longleftrightarrow> (\<forall>c. m c = modes c \<or> m c = LoadFull \<and> full L cache modes c)"

definition settled_modes :: "modlib \<Rightarrow> load_modes \<Rightarrow> coordinate \<Rightarrow> metadata \<Rightarrow> bool" where
  "settled_modes L m c md \<longleftrightarrow>
     (m c = LoadNone \<longrightarrow> pruningEnabled L (md_go md)) \<and>
     (m c = LoadFull \<or> m c = LoadDirect \<and> \<not> pruningEnabled L (md_go md) \<longrightarrow>
        (\<forall>r \<in> set (md_requirements md). m (coord_of r) = LoadFull))"

lemma mode_rank_le_2 [simp]: "mode_rank m \<le> 2"
  by (cases m) auto

lemma mode_rank_2 [simp]: "2 \<le> mode_rank m \<longleftrightarrow> m = LoadFull"
  by (cases m) auto

text \<open>A pass only raises modes, and says so exactly when it raised one.\<close>

definition raises :: "coordinate set \<Rightarrow> bool \<Rightarrow> load_modes \<Rightarrow> bool \<Rightarrow> load_modes \<Rightarrow> bool" where
  "raises A ch m ch' m' \<longleftrightarrow>
     (\<forall>c. mode_rank (m c) \<le> mode_rank (m' c)) \<and> (\<forall>c. m' c \<noteq> m c \<longrightarrow> c \<in> A) \<and> (ch' \<longleftrightarrow> ch \<or> m' \<noteq> m)"

lemma raises_refl [simp]: "raises A ch m ch m"
  by (simp add: raises_def)

lemma mode_rank_inj: "mode_rank a = mode_rank b \<Longrightarrow> a = b"
  by (cases a; cases b) auto

lemma raises_antisym: "raises A ch m ch' m' \<Longrightarrow> raises B ch' m' ch'' m'' \<Longrightarrow> m'' = m \<Longrightarrow> m' = m"
  unfolding raises_def by (metis antisym ext mode_rank_inj)

lemma raises_trans:
  assumes "raises A ch m ch' m'" "raises A ch' m' ch'' m''"
  shows "raises A ch m ch'' m''"
proof -
  have "m'' = m \<Longrightarrow> m' = m" using raises_antisym [OF assms] .
  then have "(ch'' \<longleftrightarrow> ch \<or> m'' \<noteq> m)" using assms unfolding raises_def by auto
  moreover have "\<forall>c. mode_rank (m c) \<le> mode_rank (m'' c)"
    using assms unfolding raises_def by (meson order_trans)
  moreover have "\<forall>c. m'' c \<noteq> m c \<longrightarrow> c \<in> A" using assms unfolding raises_def by metis
  ultimately show ?thesis unfolding raises_def by simp
qed

lemma promoteLoadMode_raises:
  assumes "promoteLoadMode m c LoadFull = (up, m')" "c \<in> A"
  shows "raises A ch m (ch \<or> up) m'"
proof (cases "m c = LoadFull")
  case True
  with assms show ?thesis by (simp add: promoteLoadMode_def)
next
  case False
  then have "m' = m(c := LoadFull)" "up" using assms(1) by (auto simp: promoteLoadMode_def)
  moreover have "m(c := LoadFull) \<noteq> m" using False by (metis fun_upd_same)
  ultimately show ?thesis using assms(2) by (auto simp: raises_def split: if_splits)
qed

lemma promote_all_raises: "promote_all cs ch m = (ch', m') \<Longrightarrow> set cs \<subseteq> A \<Longrightarrow> raises A ch m ch' m'"
proof (induction cs ch m rule: promote_all.induct)
  case (2 c cs ch m)
  obtain up m1 where up: "promoteLoadMode m c LoadFull = (up, m1)" by force
  have "raises A ch m (ch \<or> up) m1" using promoteLoadMode_raises [OF up] "2.prems" by auto
  moreover have "raises A (ch \<or> up) m1 ch' m'" using 2 up by auto
  ultimately show ?case by (rule raises_trans)
qed simp

lemma promote_all_mode: "promote_all cs ch m = (ch', m') \<Longrightarrow> m' c = (if c \<in> set cs then LoadFull else m c)"
proof (induction cs arbitrary: ch m)
  case (Cons d cs)
  obtain up m1 where up: "promoteLoadMode m d LoadFull = (up, m1)" by force
  then have m1: "m1 = m(d := LoadFull)" by (auto simp: promoteLoadMode_def split: if_splits)
  have "promote_all cs (ch \<or> up) m1 = (ch', m')" using Cons.prems up by simp
  from Cons.IH [OF this] m1 show ?case by simp
qed simp

lemma expand_raises:
  assumes "expand L c md ch m = (ch', m')" "c \<in> A" "coord_of ` set (md_requirements md) \<subseteq> A"
  shows "raises A ch m ch' m'"
proof (cases "m c = LoadNone \<and> \<not> pruningEnabled L (md_go md)")
  case True
  obtain up m1 where up: "promoteLoadMode m c LoadFull = (up, m1)" by force
  have "raises A ch m (ch \<or> up) m1" by (rule promoteLoadMode_raises [OF up assms(2)])
  moreover have "raises A (ch \<or> up) m1 ch' m'"
    using promote_all_raises [of "map coord_of (md_requirements md)"] assms(1,3) True up by (auto simp: expand_def)
  ultimately show ?thesis by (rule raises_trans)
next
  case False
  then show ?thesis
    using assms promote_all_raises [of "map coord_of (md_requirements md)" ch m ch' m' A]
    by (auto simp: expand_def Let_def split: if_splits)
qed

lemma expand_within:
  assumes "expand L c md ch m = (ch', m')" "map_of cache c = Some md" "within L cache modes m"
  shows "within L cache modes m'"
proof -
  have full_c: "full L cache modes c" if "m c = LoadFull \<or> m c = LoadNone \<and> \<not> pruningEnabled L (md_go md)"
    using that assms(2,3) full.given full.unpruned unfolding within_def by (metis load_mode.distinct(3))
  have reqs: "full L cache modes (coord_of r)"
    if "r \<in> set (md_requirements md)" "m c = LoadFull \<or> m c \<noteq> LoadNone \<and> \<not> pruningEnabled L (md_go md) \<or> m c = LoadNone \<and> \<not> pruningEnabled L (md_go md)" for r
  proof (cases "m c = LoadDirect")
    case True
    then have "modes c = LoadDirect" using assms(3) unfolding within_def by (metis load_mode.distinct(5))
    then show ?thesis using full.direct assms(2) that True by auto
  next
    case False
    then have "full L cache modes c" using that full_c load_mode.exhaust by blast
    then show ?thesis by (rule full.child [OF _ assms(2) that(1)])
  qed
  show ?thesis
  proof (cases "m c = LoadNone \<and> \<not> pruningEnabled L (md_go md)")
    case True
    then have "m' d = (if d \<in> coord_of ` set (md_requirements md) then LoadFull else (m(c := LoadFull)) d)" for d
      using assms(1) promote_all_mode [of "map coord_of (md_requirements md)" "True" "m(c := LoadFull)" ch' m' d]
      by (auto simp: expand_def promoteLoadMode_def split: if_splits)
    then show ?thesis using assms(3) full_c reqs True unfolding within_def by auto
  next
    case False
    show ?thesis
    proof (cases "m c = LoadFull \<or> m c \<noteq> LoadNone \<and> \<not> pruningEnabled L (md_go md)")
      case True
      then have "m' d = (if d \<in> coord_of ` set (md_requirements md) then LoadFull else m d)" for d
        using assms(1) False promote_all_mode [of "map coord_of (md_requirements md)" ch m ch' m' d]
        by (auto simp: expand_def)
      then show ?thesis using assms(3) reqs True unfolding within_def by auto
    next
      case none: False
      then have "m' = m" using assms(1) False by (auto simp: expand_def Let_def split: if_splits)
      then show ?thesis using assms(3) by simp
    qed
  qed
qed

lemma expand_settled:
  assumes "expand L c md ch m = (ch', m)"
  shows "settled_modes L m c md"
proof (cases "m c = LoadNone \<and> \<not> pruningEnabled L (md_go md)")
  case True
  then have "m c = (if c \<in> coord_of ` set (md_requirements md) then LoadFull else (m(c := LoadFull)) c)"
    using assms promote_all_mode [of "map coord_of (md_requirements md)" "True" "m(c := LoadFull)" ch' m c]
    by (auto simp: expand_def promoteLoadMode_def split: if_splits)
  with True show ?thesis by (auto split: if_splits)
next
  case False
  show ?thesis
  proof (cases "m c = LoadFull \<or> m c \<noteq> LoadNone \<and> \<not> pruningEnabled L (md_go md)")
    case True
    then have "m d = (if d \<in> coord_of ` set (md_requirements md) then LoadFull else m d)" for d
      using assms False promote_all_mode [of "map coord_of (md_requirements md)" ch m ch' m d]
      by (auto simp: expand_def)
    then have "m (coord_of r) = LoadFull" if "r \<in> set (md_requirements md)" for r
      using that by (metis imageI)
    then show ?thesis using False by (auto simp: settled_modes_def)
  next
    case none: False
    then show ?thesis using False by (auto simp: settled_modes_def)
  qed
qed

lemma mentioned_key: "map_of cache c = Some md \<Longrightarrow> c \<in> set (mentioned cache)"
  by (force simp: mentioned_def dest: map_of_SomeD)

lemma mentioned_req: "map_of cache c = Some md \<Longrightarrow> coord_of ` set (md_requirements md) \<subseteq> set (mentioned cache)"
  by (force simp: mentioned_def dest: map_of_SomeD)

lemma propagate_pass_spec:
  assumes "propagate_pass L cache cs ch m = (ch', m')" "within L cache modes m"
  shows "raises (set (mentioned cache)) ch m ch' m' \<and> within L cache modes m'
    \<and> (m' = m \<longrightarrow> (\<forall>c \<in> set cs. \<forall>md. map_of cache c = Some md \<longrightarrow> settled_modes L m c md))"
  using assms
proof (induction L cache cs ch m rule: propagate_pass.induct)
  case (2 L cache c cs ch m)
  show ?case
  proof (cases "map_of cache c")
    case None
    then show ?thesis using 2 by auto
  next
    case (Some md)
    obtain ch1 m1 where e: "expand L c md ch m = (ch1, m1)" by force
    have r1: "raises (set (mentioned cache)) ch m ch1 m1"
      by (rule expand_raises [OF e mentioned_key [OF Some] mentioned_req [OF Some]])
    have w1: "within L cache modes m1" by (rule expand_within [OF e Some "2.prems"(2)])
    have IH: "raises (set (mentioned cache)) ch1 m1 ch' m' \<and> within L cache modes m'
      \<and> (m' = m1 \<longrightarrow> (\<forall>c \<in> set cs. \<forall>md. map_of cache c = Some md \<longrightarrow> settled_modes L m1 c md))"
      using "2.IH"(2) [OF Some e [symmetric]] "2.prems"(1) e Some w1 by simp
    have "m' = m \<Longrightarrow> m1 = m" using raises_antisym [OF r1] IH by blast
    moreover have "m1 = m \<Longrightarrow> settled_modes L m c md" using expand_settled e by blast
    ultimately have "m' = m \<longrightarrow> (\<forall>d \<in> set (c # cs). \<forall>md. map_of cache d = Some md \<longrightarrow> settled_modes L m d md)"
      using IH Some by auto
    then show ?thesis using IH raises_trans [OF r1] by blast
  qed
qed simp

text \<open>Each changing round uses up room that is bounded at the start.\<close>

fun mode_gap :: "load_mode \<Rightarrow> nat" where
  "mode_gap LoadNone = 2"
| "mode_gap LoadDirect = 1"
| "mode_gap LoadFull = 0"

definition room :: "coordinate list \<Rightarrow> load_modes \<Rightarrow> nat" where
  "room cs m = (\<Sum>c \<leftarrow> cs. mode_gap (m c))"

lemma mode_gap_le: "mode_rank a \<le> mode_rank b \<Longrightarrow> mode_gap b \<le> mode_gap a"
  by (cases a; cases b) auto

lemma mode_gap_less: "mode_rank a \<le> mode_rank b \<Longrightarrow> b \<noteq> a \<Longrightarrow> mode_gap b < mode_gap a"
  by (cases a; cases b) auto

lemma room_le: "room cs m \<le> 2 * length cs"
proof (induction cs)
  case (Cons c cs)
  moreover have "mode_gap (m c) \<le> 2" by (cases "m c") auto
  ultimately show ?case by (simp add: room_def)
qed (simp add: room_def)

lemma room_mono: "(\<And>c. mode_rank (m c) \<le> mode_rank (m' c)) \<Longrightarrow> room cs m' \<le> room cs m"
  unfolding room_def by (rule sum_list_mono) (simp add: mode_gap_le)

lemma room_less:
  assumes le: "\<And>c. mode_rank (m c) \<le> mode_rank (m' c)" and "c \<in> set cs" "m' c \<noteq> m c"
  shows "room cs m' < room cs m"
  using assms(2)
proof (induction cs)
  case (Cons d cs)
  show ?case
  proof (cases "c = d")
    case True
    have "mode_gap (m' c) + room cs m' < mode_gap (m c) + room cs m"
      using mode_gap_less [OF le assms(3)] room_mono [of m m' cs, OF le] by linarith
    then show ?thesis using True by (simp add: room_def)
  next
    case False
    then have "mode_gap (m' d) + room cs m' < mode_gap (m d) + room cs m"
      using Cons mode_gap_le [OF le, of d] by auto
    then show ?thesis by (simp add: room_def)
  qed
qed simp

lemma raises_room: "raises (set cs) False m True m' \<Longrightarrow> room cs m' < room cs m"
  unfolding raises_def using room_less [of m m'] by (metis ext)

lemma propagate_rounds_spec:
  assumes "room (mentioned cache) m < n" "within L cache modes m"
  shows "\<exists>m'. propagate_rounds n L cache m = Some m' \<and> within L cache modes m'
    \<and> (\<forall>c. mode_rank (m c) \<le> mode_rank (m' c)) \<and> (\<forall>c md. map_of cache c = Some md \<longrightarrow> settled_modes L m' c md)"
  using assms
proof (induction n arbitrary: m)
  case (Suc n)
  obtain ch m1 where p: "propagate_pass L cache (sortedMetadataCoordinates L cache) False m = (ch, m1)" by force
  note spec = propagate_pass_spec [OF p Suc.prems(2)]
  show ?case
  proof (cases ch)
    case True
    then have "room (mentioned cache) m1 < n" using raises_room [of "mentioned cache" m m1] spec Suc.prems(1) by auto
    then obtain m' where m': "propagate_rounds n L cache m1 = Some m'" "within L cache modes m'"
      "\<forall>c. mode_rank (m1 c) \<le> mode_rank (m' c)" "\<forall>c md. map_of cache c = Some md \<longrightarrow> settled_modes L m' c md"
      using Suc.IH spec by blast
    then show ?thesis using p True spec unfolding raises_def by (auto intro: order_trans)
  next
    case False
    then have "m1 = m" using spec unfolding raises_def by simp
    moreover have "c \<in> fst ` set cache" if "map_of cache c = Some md" for c md
      using map_of_SomeD [OF that] by force
    ultimately show ?thesis using p False spec by auto
  qed
qed simp

lemma settled_full:
  assumes "\<And>c md. map_of cache c = Some md \<Longrightarrow> settled_modes L m c md" "within L cache modes m"
    "\<And>c. mode_rank (modes c) \<le> mode_rank (m c)" "full L cache modes c"
  shows "m c = LoadFull"
  using assms(4)
proof (induction rule: full.induct)
  case (given c)
  then show ?case using assms(3) [of c] by (cases "m c") auto
next
  case (unpruned c md)
  then have "m c \<noteq> LoadNone" using assms(1) unfolding settled_modes_def by blast
  then show ?case using assms(2) unpruned unfolding within_def by metis
next
  case (direct c md r)
  then have "m c \<noteq> LoadNone" using assms(1) unfolding settled_modes_def by blast
  then have "m c = LoadFull \<or> m c = LoadDirect" by (cases "m c") auto
  then show ?case using assms(1) direct unfolding settled_modes_def by blast
next
  case (child c md r)
  then show ?case using assms(1) unfolding settled_modes_def by blast
qed

text \<open>The final modes.\<close>

definition load_all :: "modlib \<Rightarrow> cache \<Rightarrow> load_modes \<Rightarrow> load_modes" where
  "load_all L cache modes = (\<lambda>c. if full L cache modes c then LoadFull else modes c)"

lemma propagate_ends: "propagateLoadModes L cache modes = Some (load_all L cache modes)"
proof -
  have "within L cache modes modes" by (simp add: within_def)
  moreover have "room (mentioned cache) modes < Suc (2 * length (mentioned cache))"
    using room_le [of "mentioned cache" modes] by simp
  ultimately obtain m' where m': "propagateLoadModes L cache modes = Some m'" "within L cache modes m'"
    "\<forall>c. mode_rank (modes c) \<le> mode_rank (m' c)" "\<forall>c md. map_of cache c = Some md \<longrightarrow> settled_modes L m' c md"
    using propagate_rounds_spec unfolding propagateLoadModes_def by blast
  have "m' c = (if full L cache modes c then LoadFull else modes c)" for c
    using settled_full [of cache L m' modes c] m' unfolding within_def by auto
  then show ?thesis using m'(1) by (auto simp: load_all_def)
qed

text \<open>
  C16: Propagation of load modes always ends within the bound of the model, whatever the cache
  and the modes. It raises to full loading exactly the modules that are loaded in full
  already, the cached modules below Go 1.17 that nothing loads, the requirements of
  directly loaded modules below Go 1.17, and the requirements of all these in turn; every
  other mode is kept. So the result does not depend on the order of the passes.
\<close>

theorem propagate_exact:
  "propagateLoadModes L cache modes = Some (\<lambda>c. if full L cache modes c then LoadFull else modes c)"
  using propagate_ends [of L cache modes] unfolding load_all_def .

section \<open>The selected versions\<close>

definition str_cmp :: "string \<Rightarrow> string \<Rightarrow> int" where
  "str_cmp a b = (if a < b then - 1 else if a > b then 1 else 0)"

text \<open>The order the selection takes maxima in: semantic versions first, then the texts.\<close>

definition ver_cmp :: "modlib \<Rightarrow> string \<Rightarrow> string \<Rightarrow> int" where
  "ver_cmp L = lex_cmp (ml_Compare L) str_cmp"

lemma str_cmp_comparison: "comparison str_cmp"
  by unfold_locales (auto simp: str_cmp_def split: if_splits)

lemma ver_cmp_comparison: "comparison (ml_Compare L) \<Longrightarrow> comparison (ver_cmp L)"
  unfolding ver_cmp_def by (rule lex_cmp_comparison [OF _ str_cmp_comparison])

lemma ver_cmp_0: "comparison (ml_Compare L) \<Longrightarrow> ver_cmp L v w = 0 \<longleftrightarrow> v = w"
  by (auto simp: ver_cmp_def lex_cmp_def str_cmp_def comparison.cmp_refl split: if_splits)

lemma ver_cmp_pos: "ver_cmp L v w > 0 \<longleftrightarrow> ml_Compare L v w > 0 \<or> ml_Compare L v w = 0 \<and> v > w"
  by (auto simp: ver_cmp_def lex_cmp_def str_cmp_def)

lemma ver_cmp_neg: "ver_cmp L v w < 0 \<longleftrightarrow> ml_Compare L v w < 0 \<or> ml_Compare L v w = 0 \<and> v < w"
  by (auto simp: ver_cmp_def lex_cmp_def str_cmp_def)

definition highest_required :: "modlib \<Rightarrow> requirement set \<Rightarrow> string \<Rightarrow> string \<Rightarrow> bool" where
  "highest_required L R p v \<longleftrightarrow> (\<exists>r \<in> R. rq_path r = p \<and> rq_version r = v)
     \<and> (\<forall>r \<in> R. rq_path r = p \<longrightarrow> ver_cmp L (rq_version r) v \<le> 0)"

lemma highest_unique:
  assumes L: "comparison (ml_Compare L)" and "highest_required L R p v" "highest_required L R p w"
  shows "v = w"
proof -
  have "ver_cmp L v w \<le> 0" "ver_cmp L w v \<le> 0" using assms(2,3) unfolding highest_required_def by auto
  then have "ver_cmp L v w = 0"
    using comparison.cmp_flip [OF ver_cmp_comparison [OF L], of v w] by linarith
  then show ?thesis by (simp add: ver_cmp_0 [OF L])
qed

definition picked :: "modlib \<Rightarrow> requirement set \<Rightarrow> selected \<Rightarrow> bool" where
  "picked L R sel \<longleftrightarrow> distinct (map fst sel)
     \<and> (\<forall>p. map_of sel p = None \<longrightarrow> (\<forall>r \<in> R. rq_path r \<noteq> p))
     \<and> (\<forall>p v. map_of sel p = Some v \<longrightarrow> highest_required L R p v)"

lemma picked_none: "picked L R sel \<Longrightarrow> map_of sel p = None \<Longrightarrow> r \<in> R \<Longrightarrow> rq_path r \<noteq> p"
  by (simp add: picked_def)

lemma picked_some: "picked L R sel \<Longrightarrow> map_of sel p = Some v \<Longrightarrow> highest_required L R p v"
  by (simp add: picked_def)

definition valid_req :: "modlib \<Rightarrow> requirement \<Rightarrow> bool" where
  "valid_req L r \<longleftrightarrow> ValidateVersion L (rq_version r)"

lemma validateRequirements_valid: "validateRequirements L rs \<Longrightarrow> r \<in> set rs \<Longrightarrow> valid_req L r"
  by (auto simp: validateRequirements_def list_all_iff ValidateCoordinate_def valid_req_def)

lemma selectHigher_picked:
  assumes L: "comparison (ml_Compare L)" and R: "\<forall>r \<in> R. valid_req L r" and r: "valid_req L r"
    and p: "picked L R sel"
  shows "\<exists>sel'. selectHigher L sel r = Inr sel' \<and> picked L (insert r R) sel'"
proof (cases "map_of sel (rq_path r)")
  case None
  then have "\<forall>s \<in> R. rq_path s \<noteq> rq_path r" using p picked_none by blast
  then have "highest_required L (insert r R) (rq_path r) (rq_version r)"
    using comparison.cmp_refl [OF ver_cmp_comparison [OF L]] by (auto simp: highest_required_def)
  moreover have "highest_required L (insert r R) q v \<longleftrightarrow> highest_required L R q v" if "q \<noteq> rq_path r" for q v
    using that by (auto simp: highest_required_def)
  ultimately have "picked L (insert r R) (put (rq_path r) (rq_version r) sel)"
    using p by (auto simp: picked_def distinct_put)
  with None show ?thesis by (simp add: selectHigher_def)
next
  case (Some v)
  then have hi: "highest_required L R (rq_path r) v" by (rule picked_some [OF p])
  then have v: "ValidateVersion L v" using R unfolding highest_required_def valid_req_def by auto
  have other: "highest_required L (insert r R) q w \<longleftrightarrow> highest_required L R q w" if "q \<noteq> rq_path r" for q w
    using that by (auto simp: highest_required_def)
  note VC = ver_cmp_comparison [OF L]
  show ?thesis
  proof (cases "ver_cmp L (rq_version r) v > 0")
    case True
    have "highest_required L (insert r R) (rq_path r) (rq_version r)"
      using hi True comparison.cmp_trans [OF VC, of _ v "rq_version r"] comparison.cmp_gt [OF VC, of "rq_version r" v] comparison.cmp_refl [OF VC]
      by (auto simp: highest_required_def)
    moreover have "selectHigher L sel r = Inr (put (rq_path r) (rq_version r) sel)"
      using True Some v r by (auto simp: selectHigher_def CompareVersions_def compareCanonicalVersions_def valid_req_def ver_cmp_pos)
    moreover have "picked L (insert r R) (put (rq_path r) (rq_version r) sel)"
      if "highest_required L (insert r R) (rq_path r) (rq_version r)"
      using p other that by (auto simp: picked_def distinct_put)
    ultimately show ?thesis by simp
  next
    case False
    then have "highest_required L (insert r R) (rq_path r) v" using hi by (auto simp: highest_required_def)
    moreover have "selectHigher L sel r = Inr sel"
      using False Some v r by (auto simp: selectHigher_def CompareVersions_def compareCanonicalVersions_def valid_req_def ver_cmp_pos)
    moreover have "picked L (insert r R) sel" if "highest_required L (insert r R) (rq_path r) v"
    proof -
      have "highest_required L (insert r R) q w" if "map_of sel q = Some w" for q w
        using picked_some [OF p that] other Some that \<open>highest_required L (insert r R) (rq_path r) v\<close>
        by (cases "q = rq_path r") auto
      then show ?thesis using p Some by (auto simp: picked_def)
    qed
    ultimately show ?thesis by simp
  qed
qed

lemma select_all_picked:
  assumes L: "comparison (ml_Compare L)"
  shows "\<forall>r \<in> R \<union> set rs. valid_req L r \<Longrightarrow> picked L R sel \<Longrightarrow>
    \<exists>sel'. select_all L rs sel = Inr sel' \<and> picked L (R \<union> set rs) sel'"
proof (induction rs arbitrary: R sel)
  case (Cons r rs)
  obtain s where s: "selectHigher L sel r = Inr s" "picked L (insert r R) s"
    using selectHigher_picked [OF L, of R r sel] Cons.prems by auto
  then obtain s' where "select_all L rs s = Inr s'" "picked L (insert r R \<union> set rs) s'"
    using Cons.IH [of "insert r R" s] Cons.prems(1) by auto
  with s show ?case by auto
qed simp

text \<open>The requirements a selection round considers.\<close>

definition considered :: "requirement list \<Rightarrow> cache \<Rightarrow> load_modes \<Rightarrow> requirement set" where
  "considered rootReqs cache modes = set rootReqs
     \<union> {r. \<exists>c md. map_of cache c = Some md \<and> modes c \<noteq> LoadNone \<and> r \<in> set (md_requirements md)}"

lemma set_loaded_requirements:
  "set rootReqs \<union> set (loaded_requirements L cache modes) = considered rootReqs cache modes"
proof -
  have "r \<in> set (loaded_requirements L cache modes)
    \<longleftrightarrow> (\<exists>c md. map_of cache c = Some md \<and> modes c \<noteq> LoadNone \<and> r \<in> set (md_requirements md))" (is "_ \<longleftrightarrow> ?ex") for r
  proof
    assume "r \<in> set (loaded_requirements L cache modes)"
    then obtain c where "modes c \<noteq> LoadNone"
      "r \<in> set (case map_of cache c of None \<Rightarrow> [] | Some md \<Rightarrow> md_requirements md)"
      unfolding loaded_requirements_def by auto
    then show ?ex by (cases "map_of cache c") auto
  next
    assume ?ex
    then obtain c md where c: "map_of cache c = Some md" "modes c \<noteq> LoadNone" "r \<in> set (md_requirements md)" by blast
    let ?reqs = "\<lambda>c. case map_of cache c of None \<Rightarrow> [] | Some md \<Rightarrow> md_requirements md"
    have "c \<in> set (filter (\<lambda>c. modes c \<noteq> LoadNone) (sortedMetadataCoordinates L cache))" "r \<in> set (?reqs c)"
      using c map_of_SomeD [OF c(1)] by force+
    then have "r \<in> (\<Union>c \<in> set (filter (\<lambda>c. modes c \<noteq> LoadNone) (sortedMetadataCoordinates L cache)). set (?reqs c))"
      by (rule UN_I)
    then show "r \<in> set (loaded_requirements L cache modes)"
      by (simp add: loaded_requirements_def image_image)
  qed
  then show ?thesis by (auto simp: considered_def)
qed

definition valid_cache :: "modlib \<Rightarrow> cache \<Rightarrow> bool" where
  "valid_cache L cache \<longleftrightarrow> (\<forall>c md. map_of cache c = Some md \<longrightarrow> validateRequirements L (md_requirements md))"

lemma considered_valid:
  "validateRequirements L rootReqs \<Longrightarrow> valid_cache L cache \<Longrightarrow> \<forall>r \<in> considered rootReqs cache modes. valid_req L r"
  by (auto simp: considered_def valid_cache_def intro: validateRequirements_valid)

lemma computeSelected_picked:
  assumes "comparison (ml_Compare L)" "validateRequirements L rootReqs" "valid_cache L cache"
  shows "\<exists>sel. computeSelected L rootReqs cache modes = Inr sel \<and> picked L (considered rootReqs cache modes) sel"
  using select_all_picked [OF assms(1), of "{}" "rootReqs @ loaded_requirements L cache modes" "[]"]
    considered_valid [OF assms(2,3), of modes]
  by (simp add: computeSelected_def set_loaded_requirements picked_def)

text \<open>
  C17: A selection round never fails on validated requirements, and it selects, for every
  module path that the root or a loaded module requires, exactly the highest version
  required: one that is required by somebody, and that no other considered requirement
  exceeds in semantic order (or, between versions of equal precedence, in their text).
\<close>

theorem mvs_selects_highest:
  assumes "comparison (ml_Compare L)" "validateRequirements L rootReqs" "valid_cache L cache"
  shows "\<exists>sel. computeSelected L rootReqs cache modes = Inr sel \<and> distinct (map fst sel) \<and>
    (\<forall>p v. map_of sel p = Some v \<longleftrightarrow>
       (\<exists>r \<in> considered rootReqs cache modes. rq_path r = p \<and> rq_version r = v) \<and>
       (\<forall>r \<in> considered rootReqs cache modes. rq_path r = p \<longrightarrow> rq_version r = v
          \<or> ml_Compare L (rq_version r) v < 0 \<or> ml_Compare L (rq_version r) v = 0 \<and> rq_version r < v))"
proof -
  let ?R = "considered rootReqs cache modes"
  obtain sel where sel: "computeSelected L rootReqs cache modes = Inr sel" "picked L ?R sel"
    using computeSelected_picked [OF assms] by blast
  have "map_of sel p = Some v \<longleftrightarrow> highest_required L ?R p v" for p v
  proof (cases "map_of sel p")
    case None
    then have "\<forall>r \<in> ?R. rq_path r \<noteq> p" using picked_none [OF sel(2)] by blast
    then show ?thesis using None by (auto simp: highest_required_def)
  next
    case (Some w)
    then have "highest_required L ?R p w" by (rule picked_some [OF sel(2)])
    then show ?thesis using Some highest_unique [OF assms(1)] by auto
  qed
  moreover have "ver_cmp L w v \<le> 0 \<longleftrightarrow> w = v \<or> ml_Compare L w v < 0 \<or> ml_Compare L w v = 0 \<and> w < v" for w v
    using ver_cmp_0 [OF assms(1), of w v] ver_cmp_neg [of L w v] by linarith
  moreover have "distinct (map fst sel)" using sel(2) by (simp add: picked_def)
  ultimately show ?thesis using sel(1) unfolding highest_required_def by simp
qed

section \<open>The selection loop\<close>

lemma selectHigher_keys:
  "selectHigher L sel r = Inr sel' \<Longrightarrow> set sel' \<subseteq> insert (rq_path r, rq_version r) (set sel)"
proof -
  have "set (put k v kvs) \<subseteq> insert (k, v) (set kvs)" for k v and kvs :: selected
    by (induction k v kvs rule: put.induct) auto
  then show "selectHigher L sel r = Inr sel' \<Longrightarrow> set sel' \<subseteq> insert (rq_path r, rq_version r) (set sel)"
    by (fastforce simp: selectHigher_def split: option.splits sum.splits if_splits)
qed

lemma select_all_source:
  "select_all L rs sel = Inr sel' \<Longrightarrow> set sel' \<subseteq> set sel \<union> (\<lambda>r. (rq_path r, rq_version r)) ` set rs"
proof (induction rs arbitrary: sel)
  case (Cons r rs)
  then obtain s where s: "selectHigher L sel r = Inr s" "select_all L rs s = Inr sel'"
    by (auto split: sum.splits)
  from Cons.IH [OF s(2)] selectHigher_keys [OF s(1)] show ?case by auto
qed simp

definition coord :: "string \<times> string \<Rightarrow> coordinate" where
  "coord = (\<lambda>(p, v). \<lparr>co_path = p, co_version = v\<rparr>)"

lemma coord_inj: "inj coord"
  by (auto simp: inj_def coord_def)

lemma coord_of_coord: "coord_of r = coord (rq_path r, rq_version r)"
  by (simp add: coord_def coord_of_def)

lemma computeSelected_source:
  assumes "computeSelected L rootReqs cache modes = Inr sel"
  shows "coord ` set sel \<subseteq> coord_of ` considered rootReqs cache modes"
proof -
  have "set sel \<subseteq> (\<lambda>r. (rq_path r, rq_version r)) ` considered rootReqs cache modes"
    using select_all_source [of L "rootReqs @ loaded_requirements L cache modes" "[]" sel] assms
    by (simp add: computeSelected_def set_loaded_requirements)
  then have "coord ` set sel \<subseteq> coord ` (\<lambda>r. (rq_path r, rq_version r)) ` considered rootReqs cache modes"
    by (rule image_mono)
  then show ?thesis by (simp add: image_image coord_of_coord)
qed

lemma set_missing: "set (missingCoordinates L sel cache) = {c \<in> coord ` set sel. map_of cache c = None}"
  by (auto simp: missingCoordinates_def coord_def)

lemma check_fetched_ok:
  assumes "check_fetched L requested fetched cs = None" "c \<in> set cs" "map_of fetched c = Some md"
  shows "c \<in> set requested \<and> md_path md = co_path c \<and> validateRequirements L (md_requirements md)"
  using assms by (induction L requested fetched cs rule: check_fetched.induct)
    (auto split: if_splits option.splits)

lemma store_fetched_ok:
  "store_fetched cs fetched cache = Inr cache' \<Longrightarrow>
     map_of cache' c = (if c \<in> set cs then map_of fetched c else map_of cache c)
     \<and> (\<forall>d \<in> set cs. map_of fetched d \<noteq> None)"
proof (induction cs arbitrary: cache)
  case (Cons d cs)
  then obtain md where md: "map_of fetched d = Some md" "store_fetched cs fetched (put d md cache) = Inr cache'"
    by (auto split: option.splits)
  from Cons.IH [OF md(2)] md(1) show ?case by auto
qed simp

lemma addFetchRound_ok:
  assumes "addFetchRound L requested fetched cache = Inr cache'"
  shows "map_of cache' c = (if c \<in> set requested then map_of fetched c else map_of cache c)"
    and "c \<in> set requested \<Longrightarrow> \<exists>md. map_of fetched c = Some md \<and> md_path md = co_path c \<and> validateRequirements L (md_requirements md)"
proof -
  have ch: "check_fetched L requested fetched (sortCoordinates L (remdups (map fst fetched))) = None"
    and st: "store_fetched requested fetched cache = Inr cache'"
    using assms by (auto simp: addFetchRound_def split: option.splits)
  show "map_of cache' c = (if c \<in> set requested then map_of fetched c else map_of cache c)"
    using store_fetched_ok [OF st] by blast
  assume c: "c \<in> set requested"
  then obtain md where md: "map_of fetched c = Some md" using store_fetched_ok [OF st] by blast
  then have "c \<in> set (sortCoordinates L (remdups (map fst fetched)))" using map_of_SomeD [OF md] by force
  from check_fetched_ok [OF ch this md] md
  show "\<exists>md. map_of fetched c = Some md \<and> md_path md = co_path c \<and> validateRequirements L (md_requirements md)"
    by blast
qed

text \<open>A fetcher whose metadata mention only modules of \<open>U\<close>.\<close>

definition fetches_within :: "coordinate set \<Rightarrow> fetcher option \<Rightarrow> bool" where
  "fetches_within U fetch \<longleftrightarrow> (\<forall>f k cs fetched c md r. fetch = Some f \<longrightarrow> f k cs = Inr fetched \<longrightarrow>
     map_of fetched c = Some md \<longrightarrow> r \<in> set (md_requirements md) \<longrightarrow> coord_of r \<in> U)"

lemma considered_within:
  assumes "coord_of ` set rootReqs \<subseteq> U" "\<And>c md. map_of cache c = Some md \<Longrightarrow> coord_of ` set (md_requirements md) \<subseteq> U"
  shows "coord_of ` considered rootReqs cache modes \<subseteq> U"
  using assms unfolding considered_def by blast

text \<open>One turn of the loop: it returns, or it goes on with the round's metadata added.\<close>

definition loop_step :: "modlib \<Rightarrow> requirement list \<Rightarrow> fetcher option \<Rightarrow> nat \<Rightarrow> cache \<Rightarrow> load_modes \<Rightarrow> selected \<Rightarrow> cache \<Rightarrow> bool" where
  "loop_step L rootReqs fetch k cache modes sel cache1 \<longleftrightarrow>
     computeSelected L rootReqs cache (load_all L cache modes) = Inr sel \<and> missingCoordinates L sel cache \<noteq> []
     \<and> (\<exists>f fetched. fetch = Some f \<and> f k (missingCoordinates L sel cache) = Inr fetched
          \<and> addFetchRound L (missingCoordinates L sel cache) fetched cache = Inr cache1)"

lemma select_loop_cases:
  fixes L rootPath rootReqs fetch k cache modes n
  defines "m \<equiv> load_all L cache modes"
  obtains
    (error) e where "select_loop (Suc n) L rootPath rootReqs fetch k cache modes = Some (Inl e)"
  | (finished) sel where "computeSelected L rootReqs cache m = Inr sel" "missingCoordinates L sel cache = []"
      "select_loop (Suc n) L rootPath rootReqs fetch k cache modes = Some (Inr (buildSelection L rootPath rootReqs sel cache m))"
  | (next_round) sel cache1 where "loop_step L rootReqs fetch k cache modes sel cache1"
      "select_loop (Suc n) L rootPath rootReqs fetch k cache modes = select_loop n L rootPath rootReqs fetch (Suc k) cache1 m"
proof (cases "computeSelected L rootReqs cache m")
  case (Inl e)
  then show thesis using error [of e] by (simp add: propagate_ends m_def)
next
  case sel: (Inr sel)
  let ?missing = "missingCoordinates L sel cache"
  show thesis
  proof (cases "?missing = []")
    case True
    then show thesis using finished [OF sel True] sel by (simp add: propagate_ends m_def)
  next
    case False
    note pm = propagate_ends [of L cache modes, folded m_def]
    show thesis
    proof (cases fetch)
      case None
      then show thesis using error sel False by (simp add: pm)
    next
      case f: (Some f)
      show thesis
      proof (cases "f k ?missing")
        case (Inl e)
        then show thesis using error sel False f by (simp add: pm)
      next
        case fetched: (Inr fetched)
        show thesis
        proof (cases "addFetchRound L ?missing fetched cache")
          case (Inl e)
          then show thesis using error sel False f fetched by (simp add: pm)
        next
          case (Inr cache1)
          then have "loop_step L rootReqs fetch k cache modes sel cache1"
            using sel False f fetched by (auto simp: loop_step_def m_def)
          then show thesis using next_round [of sel cache1] sel False f fetched Inr by (simp add: pm)
        qed
      qed
    qed
  qed
qed

lemma loop_step_cache:
  assumes "loop_step L rootReqs fetch k cache modes sel cache1"
  shows "dom (map_of cache1) = dom (map_of cache) \<union> set (missingCoordinates L sel cache)"
    and "map_of cache1 c = Some md \<Longrightarrow> map_of cache c = Some md \<or>
      (\<exists>f cs fetched. fetch = Some f \<and> f k cs = Inr fetched \<and> map_of fetched c = Some md
         \<and> validateRequirements L (md_requirements md))"
proof -
  let ?missing = "missingCoordinates L sel cache"
  obtain f fetched where f: "fetch = Some f" "f k ?missing = Inr fetched"
    and add: "addFetchRound L ?missing fetched cache = Inr cache1"
    using assms unfolding loop_step_def by blast
  note ok = addFetchRound_ok [OF add]
  show "dom (map_of cache1) = dom (map_of cache) \<union> set ?missing"
    using ok by (auto simp: dom_def split: if_splits)
  assume c: "map_of cache1 c = Some md"
  show "map_of cache c = Some md \<or> (\<exists>f cs fetched. fetch = Some f \<and> f k cs = Inr fetched
    \<and> map_of fetched c = Some md \<and> validateRequirements L (md_requirements md))"
  proof (cases "c \<in> set ?missing")
    case True
    then have "map_of fetched c = Some md" using c ok(1) [of c] by simp
    moreover then have "validateRequirements L (md_requirements md)" using ok(2) [OF True] by auto
    ultimately show ?thesis using f by blast
  next
    case False
    then show ?thesis using c ok(1) [of c] by simp
  qed
qed

lemma select_loop_ends:
  assumes U: "finite U" and root: "coord_of ` set rootReqs \<subseteq> U" and F: "fetches_within U fetch"
  shows "card (U - dom (map_of cache)) < n \<Longrightarrow>
    (\<And>c md. map_of cache c = Some md \<Longrightarrow> coord_of ` set (md_requirements md) \<subseteq> U) \<Longrightarrow>
    select_loop n L rootPath rootReqs fetch k cache modes \<noteq> None"
proof (induction n arbitrary: k cache modes)
  case (Suc n)
  show ?case
  proof (cases rule: select_loop_cases [of n L rootPath rootReqs fetch k cache modes])
    case (next_round sel cache1)
    let ?missing = "missingCoordinates L sel cache"
    note st = next_round(1)
    have sel: "computeSelected L rootReqs cache (load_all L cache modes) = Inr sel" "?missing \<noteq> []"
      using st unfolding loop_step_def by auto
    then obtain c where c: "c \<in> set ?missing" by (cases ?missing) auto
    have "c \<in> coord ` set sel" "c \<notin> dom (map_of cache)" using c by (auto simp: set_missing)
    have "coord_of ` considered rootReqs cache (load_all L cache modes) \<subseteq> U"
      by (rule considered_within [OF root]) (rule Suc.prems(2))
    then have "c \<in> U" using computeSelected_source [OF sel(1)] \<open>c \<in> coord ` set sel\<close> by (meson subsetD)
    then have "U - dom (map_of cache1) \<subset> U - dom (map_of cache)"
      using c \<open>c \<notin> dom (map_of cache)\<close> loop_step_cache(1) [OF st] by blast
    then have "card (U - dom (map_of cache1)) < card (U - dom (map_of cache))"
      using U by (intro psubset_card_mono) auto
    then have "card (U - dom (map_of cache1)) < n" using Suc.prems(1) by linarith
    moreover have "coord_of ` set (md_requirements md) \<subseteq> U" if "map_of cache1 d = Some md" for d md
      using loop_step_cache(2) [OF st that] Suc.prems(2) [of d md] F unfolding fetches_within_def by blast
    ultimately have "select_loop n L rootPath rootReqs fetch (Suc k) cache1 (load_all L cache modes) \<noteq> None"
      by (rule Suc.IH)
    then show ?thesis using next_round(2) by simp
  qed simp_all
qed simp

section \<open>A module library and a fetcher\<close>

text \<open>
  An instance of the library's contract: versions are the texts that start with
  \<^verbatim>\<open>v\<close>, ordered as texts. The fetcher knows three modules.
\<close>

definition demo_lib :: modlib where
  "demo_lib = \<lparr>ml_CheckPath = (\<lambda>p. p \<noteq> []), ml_Check = (\<lambda>p v. p \<noteq> []), ml_IsValid = (\<lambda>v. take 1 v = ''v''),
     ml_CanonicalVersion = (\<lambda>v. v), ml_IsPseudoVersion = (\<lambda>v. False), ml_PseudoVersionTime = (\<lambda>v. True),
     ml_PseudoVersionBase = (\<lambda>v. True), ml_Compare = str_cmp\<rparr>"

lemma demo_lib_comparison: "comparison (ml_Compare demo_lib)"
  by (simp add: demo_lib_def str_cmp_comparison)

definition demo_req :: "string \<Rightarrow> string \<Rightarrow> requirement" where
  "demo_req p v = \<lparr>rq_path = p, rq_version = v, rq_indirect = False\<rparr>"

definition demo_meta :: "coordinate \<Rightarrow> metadata" where
  "demo_meta c = \<lparr>md_path = co_path c, md_go = ''1.20'', md_requirements =
     (if co_path c = ''a'' then [demo_req ''c'' ''v1.1''] else if co_path c = ''b'' then [demo_req ''c'' ''v1.2''] else [])\<rparr>"

definition demo_fetch :: fetcher where
  "demo_fetch k cs = Inr (map (\<lambda>c. (c, demo_meta c)) cs)"

definition demo_roots :: "requirement list" where
  "demo_roots = [demo_req ''a'' ''v1.0'', demo_req ''b'' ''v1.0'']"

definition demo_selection :: selection where
  "demo_selection = \<lparr>sel_modules = [coord (''a'', ''v1.0''), coord (''b'', ''v1.0''), coord (''c'', ''v1.2'')],
     sel_edges = [\<lparr>se_from = coord (''app'', []), se_to = coord (''a'', ''v1.0'')\<rparr>,
       \<lparr>se_from = coord (''app'', []), se_to = coord (''b'', ''v1.0'')\<rparr>,
       \<lparr>se_from = coord (''a'', ''v1.0''), se_to = coord (''c'', ''v1.2'')\<rparr>,
       \<lparr>se_from = coord (''b'', ''v1.0''), se_to = coord (''c'', ''v1.2'')\<rparr>]\<rparr>"

lemma demo_select: "Select 5 demo_lib ''app'' ''1.20'' demo_roots (Some demo_fetch) = Some (Inr demo_selection)"
  by code_simp

definition demo_universe :: "coordinate set" where
  "demo_universe = {coord (''a'', ''v1.0''), coord (''b'', ''v1.0''), coord (''c'', ''v1.1''), coord (''c'', ''v1.2'')}"

lemma demo_fetch_map_of: "map_of (map (\<lambda>c. (c, demo_meta c)) cs) c = Some md \<Longrightarrow> md = demo_meta c"
  by (induction cs) (auto split: if_splits)

lemma demo_meta_within: "r \<in> set (md_requirements (demo_meta c)) \<Longrightarrow> coord_of r \<in> demo_universe"
  by (auto simp: demo_meta_def demo_universe_def demo_req_def coord_of_def coord_def split: if_splits)

lemma demo_fetches_within: "fetches_within demo_universe (Some demo_fetch)"
  unfolding fetches_within_def by (auto simp: demo_fetch_def dest!: demo_fetch_map_of intro: demo_meta_within)

text \<open>
  C15: Selection terminates. When the root and all metadata the fetcher ever returns require
  only modules of a finite set \<open>U\<close>, the loop of the selection returns, with a build list or
  with an error, after at most one round more than \<open>U\<close> has members, whatever else the
  fetcher does.
\<close>

theorem mvs_select_terminates:
  assumes "finite U" "coord_of ` set rootReqs \<subseteq> U" "fetches_within U fetch" "card U < n"
  shows "\<exists>res. Select n L rootPath rootGo rootReqs fetch = Some res"
proof -
  have "card (U - dom (map_of ([] :: cache))) < n" using assms(4) by simp
  then show ?thesis
    using select_loop_ends [OF assms(1-3), of "[]" n L rootPath 0] by (auto simp: Select_def Let_def)
qed

theorem mvs_select_terminates_witness:
  "finite demo_universe \<and> card demo_universe < 5
    \<and> (\<exists>res. Select 5 demo_lib ''app'' ''1.20'' demo_roots (Some demo_fetch) = Some res)"
proof -
  have c: "finite demo_universe" "card demo_universe < 5"
    by (simp_all add: demo_universe_def coord_def)
  moreover have "coord_of ` set demo_roots \<subseteq> demo_universe"
    by (simp add: demo_roots_def demo_universe_def demo_req_def coord_of_def coord_def)
  ultimately show ?thesis
    using mvs_select_terminates [OF c(1) _ demo_fetches_within c(2), of demo_roots] by simp
qed

theorem mvs_selects_highest_witness:
  "\<exists>sel. computeSelected demo_lib demo_roots [(coord (''a'', ''v1.0''), demo_meta (coord (''a'', ''v1.0'')))] (\<lambda>_. LoadDirect) = Inr sel
    \<and> map_of sel ''c'' = Some ''v1.1''"
proof -
  let ?cache = "[(coord (''a'', ''v1.0''), demo_meta (coord (''a'', ''v1.0'')))]"
  have "validateRequirements demo_lib demo_roots" by code_simp
  moreover have "valid_cache demo_lib ?cache"
    by (simp add: valid_cache_def demo_meta_def coord_def demo_req_def validateRequirements_def
        ValidateCoordinate_def ValidateVersion_def demo_lib_def)
  ultimately obtain sel where sel: "computeSelected demo_lib demo_roots ?cache (\<lambda>_. LoadDirect) = Inr sel"
    "\<forall>p v. map_of sel p = Some v \<longleftrightarrow>
       (\<exists>r \<in> considered demo_roots ?cache (\<lambda>_. LoadDirect). rq_path r = p \<and> rq_version r = v) \<and>
       (\<forall>r \<in> considered demo_roots ?cache (\<lambda>_. LoadDirect). rq_path r = p \<longrightarrow> rq_version r = v
          \<or> ml_Compare demo_lib (rq_version r) v < 0 \<or> ml_Compare demo_lib (rq_version r) v = 0 \<and> rq_version r < v)"
    using mvs_selects_highest [OF demo_lib_comparison] by blast
  have "considered demo_roots ?cache (\<lambda>_. LoadDirect) = set demo_roots \<union> {demo_req ''c'' ''v1.1''}"
    by (auto simp: considered_def demo_meta_def coord_def)
  then have "map_of sel ''c'' = Some ''v1.1''"
    using sel(2) by (simp add: demo_roots_def demo_req_def)
  with sel(1) show ?thesis by blast
qed

section \<open>The build list\<close>

text \<open>Metadata that the fetcher returned for a module in some round.\<close>

definition served :: "fetcher option \<Rightarrow> coordinate \<Rightarrow> metadata \<Rightarrow> bool" where
  "served fetch c md \<longleftrightarrow> (\<exists>f k cs fetched. fetch = Some f \<and> f k cs = Inr fetched \<and> map_of fetched c = Some md)"

text \<open>What every turn of the loop keeps.\<close>

definition loop_inv :: "modlib \<Rightarrow> bool \<Rightarrow> requirement list \<Rightarrow> fetcher option \<Rightarrow> cache \<Rightarrow> load_modes \<Rightarrow> bool" where
  "loop_inv L pruned rootReqs fetch cache modes \<longleftrightarrow>
     valid_cache L cache \<and> (\<forall>c md. map_of cache c = Some md \<longrightarrow> served fetch c md)
     \<and> (\<forall>r \<in> set rootReqs. modes (coord_of r) \<noteq> LoadNone \<and> (\<not> pruned \<longrightarrow> modes (coord_of r) = LoadFull))
     \<and> (\<not> pruned \<longrightarrow> (\<forall>c. modes c \<noteq> LoadDirect))"

lemma loop_inv_load_all:
  "loop_inv L pruned rootReqs fetch cache modes \<Longrightarrow> loop_inv L pruned rootReqs fetch cache (load_all L cache modes)"
  by (auto simp: loop_inv_def load_all_def intro: full.given)

lemma loop_inv_step:
  assumes "loop_inv L pruned rootReqs fetch cache modes" "loop_step L rootReqs fetch k cache modes sel cache1"
  shows "loop_inv L pruned rootReqs fetch cache1 (load_all L cache modes)"
proof -
  note inv = loop_inv_load_all [OF assms(1)]
  have "validateRequirements L (md_requirements md) \<and> served fetch c md" if c: "map_of cache1 c = Some md" for c md
  proof (cases "map_of cache c = Some md")
    case True
    then show ?thesis using inv unfolding loop_inv_def valid_cache_def by blast
  next
    case False
    then obtain f cs fetched where "fetch = Some f" "f k cs = Inr fetched" "map_of fetched c = Some md"
      "validateRequirements L (md_requirements md)" using loop_step_cache(2) [OF assms(2) c] by blast
    then show ?thesis unfolding served_def by blast
  qed
  with inv show ?thesis unfolding loop_inv_def valid_cache_def by blast
qed

lemma load_all_idem: "load_all L cache (load_all L cache modes) c = load_all L cache modes c"
proof -
  let ?m = "load_all L cache modes"
  have "full L cache modes c" if "full L cache ?m c" for c
    using that
  proof (induction rule: full.induct)
    case (given c)
    then show ?case by (auto simp: load_all_def intro: full.given split: if_splits)
  next
    case (unpruned c md)
    then show ?case by (auto simp: load_all_def intro: full.unpruned split: if_splits)
  next
    case (direct c md r)
    then have "modes c = LoadDirect" by (auto simp: load_all_def split: if_splits)
    with direct show ?case by (blast intro: full.direct)
  qed (rule full.child)
  then show ?thesis by (auto simp: load_all_def)
qed

lemma load_all_child:
  assumes "load_all L cache modes c = LoadFull" "map_of cache c = Some md" "r \<in> set (md_requirements md)"
  shows "load_all L cache modes (coord_of r) = LoadFull"
proof -
  have "full L cache modes c" using assms(1) by (auto simp: load_all_def intro: full.given split: if_splits)
  then show ?thesis using full.child [OF _ assms(2,3)] by (simp add: load_all_def)
qed

text \<open>A build list comes from a state of the loop in which nothing is missing.\<close>

definition settled_at :: "modlib \<Rightarrow> requirement list \<Rightarrow> cache \<Rightarrow> load_modes \<Rightarrow> selected \<Rightarrow> bool" where
  "settled_at L rootReqs cache modes sel \<longleftrightarrow> computeSelected L rootReqs cache (load_all L cache modes) = Inr sel
     \<and> missingCoordinates L sel cache = []"

lemma select_loop_result:
  assumes "select_loop n L rootPath rootReqs fetch k cache modes = Some (Inr s)"
    "loop_inv L pruned rootReqs fetch cache modes"
  shows "\<exists>cache' modes' sel. loop_inv L pruned rootReqs fetch cache' modes' \<and> settled_at L rootReqs cache' modes' sel
    \<and> s = buildSelection L rootPath rootReqs sel cache' (load_all L cache' modes')"
  using assms
proof (induction n arbitrary: k cache modes)
  case (Suc n)
  show ?case
  proof (cases rule: select_loop_cases [of n L rootPath rootReqs fetch k cache modes])
    case (error e)
    then show ?thesis using Suc.prems(1) by simp
  next
    case (finished sel)
    then show ?thesis using Suc.prems unfolding settled_at_def by auto
  next
    case (next_round sel cache1)
    then show ?thesis using Suc.IH loop_inv_step [OF Suc.prems(2) next_round(1)] Suc.prems(1) by simp
  qed
qed simp

lemma promote_start:
  assumes "rm \<noteq> LoadNone" "\<And>c. m c = LoadNone \<or> m c = rm"
  shows "fold (\<lambda>r m. snd (promoteLoadMode m (coord_of r) rm)) rs m c = (if c \<in> coord_of ` set rs then rm else m c)"
  using assms(2)
proof (induction rs arbitrary: m)
  case (Cons r rs)
  have up: "snd (promoteLoadMode m (coord_of r) rm) = m(coord_of r := rm)"
    using Cons.prems [of "coord_of r"] assms(1) by (cases rm) (auto simp: promoteLoadMode_def)
  have "fold (\<lambda>r m. snd (promoteLoadMode m (coord_of r) rm)) rs (m(coord_of r := rm)) c
      = (if c \<in> coord_of ` set rs then rm else (m(coord_of r := rm)) c)"
    by (rule Cons.IH) (use Cons.prems in simp)
  then show ?case by (simp add: up)
qed simp

lemma Select_result:
  assumes "Select n L rootPath rootGo rootReqs fetch = Some (Inr s)"
  shows "validateRequirements L rootReqs \<and> (\<exists>cache modes sel. loop_inv L (pruningEnabled L rootGo) rootReqs fetch cache modes
    \<and> settled_at L rootReqs cache modes sel
    \<and> s = buildSelection L rootPath rootReqs sel cache (load_all L cache modes))"
proof -
  define rm where "rm = (if pruningEnabled L rootGo then LoadDirect else LoadFull)"
  define modes where "modes = fold (\<lambda>r m. snd (promoteLoadMode m (coord_of r) rm)) rootReqs (\<lambda>_. LoadNone)"
  have valid: "validateRequirements L rootReqs"
    and loop: "select_loop n L rootPath rootReqs fetch 0 [] modes = Some (Inr s)"
    using assms unfolding Select_def modes_def rm_def Let_def by (simp_all split: if_splits)
  have "modes c = (if c \<in> coord_of ` set rootReqs then rm else LoadNone)" for c
    unfolding modes_def by (rule promote_start) (auto simp: rm_def)
  then have "loop_inv L (pruningEnabled L rootGo) rootReqs fetch [] modes"
    by (auto simp: loop_inv_def valid_cache_def rm_def)
  from select_loop_result [OF loop this] valid show ?thesis by blast
qed

lemma settled_cached:
  assumes "settled_at L rootReqs cache modes sel" "(p, v) \<in> set sel"
  shows "\<exists>md. map_of cache (coord (p, v)) = Some md"
proof -
  have "set (missingCoordinates L sel cache) = {}" using assms(1) by (simp add: settled_at_def)
  moreover have "coord (p, v) \<in> coord ` set sel" using assms(2) by (rule imageI)
  ultimately have "map_of cache (coord (p, v)) \<noteq> None" unfolding set_missing by simp
  then show ?thesis by simp
qed

lemma settled_meets:
  assumes L: "comparison (ml_Compare L)" and inv: "loop_inv L pruned rootReqs fetch cache modes"
    and valid: "validateRequirements L rootReqs" and sel: "settled_at L rootReqs cache modes sel"
    and r: "r \<in> considered rootReqs cache (load_all L cache modes)"
  shows "\<exists>v. map_of sel (rq_path r) = Some v \<and> ver_cmp L (rq_version r) v \<le> 0"
proof -
  have p: "picked L (considered rootReqs cache (load_all L cache modes)) sel"
    using computeSelected_picked [OF L valid, of cache "load_all L cache modes"] inv sel
    unfolding loop_inv_def settled_at_def by auto
  then obtain v where v: "map_of sel (rq_path r) = Some v" using picked_none [OF p _ r] by blast
  with picked_some [OF p v] r show ?thesis unfolding highest_required_def by blast
qed

lemma settled_distinct:
  assumes L: "comparison (ml_Compare L)" and inv: "loop_inv L pruned rootReqs fetch cache modes"
    and valid: "validateRequirements L rootReqs" and sel: "settled_at L rootReqs cache modes sel"
  shows "distinct (map fst sel)"
  using computeSelected_picked [OF L valid, of cache "load_all L cache modes"] inv sel
  unfolding loop_inv_def settled_at_def picked_def by auto

lemma modules_buildSelection:
  "sel_modules (buildSelection L rootPath rootReqs sel cache m) = sortCoordinates L (map coord sel)"
  by (simp add: buildSelection_def coord_def Let_def)

definition edge :: "selected \<Rightarrow> coordinate \<Rightarrow> requirement \<Rightarrow> selected_edge" where
  "edge sel from r = \<lparr>se_from = from, se_to = coord (rq_path r, (case map_of sel (rq_path r) of None \<Rightarrow> [] | Some v \<Rightarrow> v))\<rparr>"

lemma selected_edges_edge: "selected_edges from reqs sel = map (edge sel from) reqs"
  by (simp add: selected_edges_def edge_def coord_def)

definition module_edges :: "selected \<Rightarrow> cache \<Rightarrow> load_modes \<Rightarrow> coordinate \<Rightarrow> selected_edge list" where
  "module_edges sel cache m c = (if m c = LoadNone then []
     else case map_of cache c of None \<Rightarrow> [] | Some md \<Rightarrow> selected_edges c (md_requirements md) sel)"

lemma set_module_edges:
  "set (module_edges sel cache m c) =
     {edge sel c r | md r. m c \<noteq> LoadNone \<and> map_of cache c = Some md \<and> r \<in> set (md_requirements md)}"
  by (cases "map_of cache c") (auto simp: module_edges_def selected_edges_edge)

lemma edges_buildSelection:
  "set (sel_edges (buildSelection L rootPath rootReqs sel cache m)) =
     edge sel (coord (rootPath, [])) ` set rootReqs \<union> (\<Union>c \<in> coord ` set sel. set (module_edges sel cache m c))"
  by (simp add: buildSelection_def Let_def selected_edges_edge [symmetric] module_edges_def [symmetric]
      coord_def [symmetric]) (simp add: selected_edges_edge coord_def)

text \<open>
  The selection shows that \<open>r\<close> is met for \<open>from\<close>: the build list has the module in a version
  at least as high, and the edge to it.
\<close>

definition met :: "modlib \<Rightarrow> selection \<Rightarrow> coordinate \<Rightarrow> requirement \<Rightarrow> bool" where
  "met L s from r \<longleftrightarrow> (\<exists>c \<in> set (sel_modules s). co_path c = rq_path r \<and> ver_cmp L (rq_version r) (co_version c) \<le> 0
     \<and> \<lparr>se_from = from, se_to = c\<rparr> \<in> set (sel_edges s))"

lemma settled_met:
  assumes "comparison (ml_Compare L)" "loop_inv L pruned rootReqs fetch cache modes"
    "validateRequirements L rootReqs" "settled_at L rootReqs cache modes sel"
    and r: "r \<in> considered rootReqs cache (load_all L cache modes)"
    and e: "edge sel from r \<in> set (sel_edges (buildSelection L rootPath rootReqs sel cache (load_all L cache modes)))"
  shows "met L (buildSelection L rootPath rootReqs sel cache (load_all L cache modes)) from r"
proof -
  obtain v where v: "map_of sel (rq_path r) = Some v" "ver_cmp L (rq_version r) v \<le> 0"
    using settled_meets [OF assms(1-5)] by blast
  let ?c = "coord (rq_path r, v)"
  have "?c \<in> set (sel_modules (buildSelection L rootPath rootReqs sel cache (load_all L cache modes)))"
    using map_of_SomeD [OF v(1)] by (simp add: modules_buildSelection)
  moreover have "edge sel from r = \<lparr>se_from = from, se_to = ?c\<rparr>" using v(1) by (simp add: edge_def)
  moreover have "co_path ?c = rq_path r" "co_version ?c = v" by (simp_all add: coord_def)
  ultimately show ?thesis using e v(2) unfolding met_def by metis
qed

lemma considered_root: "r \<in> set rootReqs \<Longrightarrow> r \<in> considered rootReqs cache modes"
  by (simp add: considered_def)

lemma settled_edges_met:
  assumes "comparison (ml_Compare L)" "loop_inv L pruned rootReqs fetch cache modes"
    "validateRequirements L rootReqs" "settled_at L rootReqs cache modes sel"
    and s_def: "s = buildSelection L rootPath rootReqs sel cache (load_all L cache modes)"
  shows "r \<in> set rootReqs \<Longrightarrow> met L s (coord (rootPath, [])) r"
    and "c \<in> set (sel_modules s) \<Longrightarrow> load_all L cache modes c \<noteq> LoadNone \<Longrightarrow> map_of cache c = Some md \<Longrightarrow>
      r \<in> set (md_requirements md) \<Longrightarrow> met L s c r"
proof -
  assume r: "r \<in> set rootReqs"
  show "met L s (coord (rootPath, [])) r" unfolding s_def
    by (rule settled_met [OF assms(1-4) considered_root [OF r]]) (use r in \<open>auto simp: edges_buildSelection\<close>)
next
  assume c: "c \<in> set (sel_modules s)" "load_all L cache modes c \<noteq> LoadNone" "map_of cache c = Some md"
    and r: "r \<in> set (md_requirements md)"
  have "c \<in> coord ` set sel" using c(1) by (auto simp: s_def modules_buildSelection)
  then have "edge sel c r \<in> set (sel_edges s)" using c r unfolding s_def edges_buildSelection set_module_edges by blast
  moreover have "r \<in> considered rootReqs cache (load_all L cache modes)"
    using c r by (auto simp: considered_def)
  ultimately show "met L s c r" unfolding s_def by (intro settled_met [OF assms(1-4)])
qed

lemma build_list_parts:
  assumes "comparison (ml_Compare L)" "Select n L rootPath rootGo rootReqs fetch = Some (Inr s)"
  shows "distinct (map co_path (sel_modules s))"
    and "\<forall>c \<in> set (sel_modules s). \<exists>r. coord_of r = c \<and>
      (r \<in> set rootReqs \<or> (\<exists>d md. served fetch d md \<and> r \<in> set (md_requirements md)))"
    and "\<forall>e \<in> set (sel_edges s). se_to e \<in> set (sel_modules s) \<and>
      (se_from e = coord (rootPath, []) \<or> se_from e \<in> set (sel_modules s))"
    and "\<forall>r \<in> set rootReqs. met L s (coord (rootPath, [])) r"
proof -
  obtain cache modes sel where v: "validateRequirements L rootReqs"
    and inv: "loop_inv L (pruningEnabled L rootGo) rootReqs fetch cache modes"
    and st: "settled_at L rootReqs cache modes sel"
    and s: "s = buildSelection L rootPath rootReqs sel cache (load_all L cache modes)"
    using Select_result [OF assms(2)] by blast
  let ?m = "load_all L cache modes"
  have co: "co_path \<circ> coord = fst" by (auto simp: coord_def)
  have dist: "distinct (map fst sel)" by (rule settled_distinct [OF assms(1) inv v st])
  have "set (map co_path (sel_modules s)) = fst ` set sel" "length (map co_path (sel_modules s)) = length sel"
    by (force simp: s modules_buildSelection coord_def sortCoordinates_def)+
  then show "distinct (map co_path (sel_modules s))"
    using dist by (metis card_distinct distinct_card length_map set_map)
  have src: "coord ` set sel \<subseteq> coord_of ` considered rootReqs cache ?m"
    using st computeSelected_source unfolding settled_at_def by blast
  have "r \<in> set rootReqs \<or> (\<exists>d md. served fetch d md \<and> r \<in> set (md_requirements md))"
    if "r \<in> considered rootReqs cache ?m" for r
    using that inv unfolding considered_def loop_inv_def by blast
  moreover have "\<forall>c \<in> set (sel_modules s). \<exists>r. coord_of r = c \<and> r \<in> considered rootReqs cache ?m"
    using src unfolding s modules_buildSelection by (simp add: subset_iff image_iff) metis
  ultimately show "\<forall>c \<in> set (sel_modules s). \<exists>r. coord_of r = c \<and>
      (r \<in> set rootReqs \<or> (\<exists>d md. served fetch d md \<and> r \<in> set (md_requirements md)))" by blast
  have tgt: "se_to (edge sel d r) \<in> set (sel_modules s)" if "r \<in> considered rootReqs cache ?m" for d r
    using settled_meets [OF assms(1) inv v st that] by (auto simp: s modules_buildSelection edge_def dest: map_of_SomeD)
  show "\<forall>e \<in> set (sel_edges s). se_to e \<in> set (sel_modules s) \<and>
      (se_from e = coord (rootPath, []) \<or> se_from e \<in> set (sel_modules s))"
  proof
    fix e
    assume "e \<in> set (sel_edges s)"
    then consider (root) r where "r \<in> set rootReqs" "e = edge sel (coord (rootPath, [])) r"
      | (module) c md r where "e = edge sel c r" "c \<in> coord ` set sel" "?m c \<noteq> LoadNone" "map_of cache c = Some md" "r \<in> set (md_requirements md)"
      unfolding s edges_buildSelection set_module_edges by blast
    then show "se_to e \<in> set (sel_modules s) \<and> (se_from e = coord (rootPath, []) \<or> se_from e \<in> set (sel_modules s))"
    proof cases
      case root
      then show ?thesis using tgt [OF considered_root] by (auto simp: edge_def)
    next
      case module
      then have "se_from e \<in> set (sel_modules s)" by (auto simp: s modules_buildSelection edge_def)
      moreover have "r \<in> considered rootReqs cache ?m" using module by (auto simp: considered_def)
      ultimately show ?thesis using module(1) tgt by auto
    qed
  qed
  show "\<forall>r \<in> set rootReqs. met L s (coord (rootPath, [])) r"
    using settled_edges_met(1) [OF assms(1) inv v st s] by blast
qed

text \<open>
  C4: A returned build list names every module path once; every version in it is one that
  the root or served metadata require; every edge leads to a member of the list, from
  the root or from a member of the list; and every requirement of the root is met, by an
  edge to a version at least as high.
\<close>

theorem mvs_build_list:
  assumes "comparison (ml_Compare L)" "Select n L rootPath rootGo rootReqs fetch = Some (Inr s)"
  shows "distinct (map co_path (sel_modules s))
    \<and> (\<forall>c \<in> set (sel_modules s). \<exists>r. coord_of r = c \<and>
         (r \<in> set rootReqs \<or> (\<exists>d md. served fetch d md \<and> r \<in> set (md_requirements md))))
    \<and> (\<forall>e \<in> set (sel_edges s). se_to e \<in> set (sel_modules s) \<and>
         (se_from e = coord (rootPath, []) \<or> se_from e \<in> set (sel_modules s)))
    \<and> (\<forall>r \<in> set rootReqs. met L s (coord (rootPath, [])) r)"
  using build_list_parts [OF assms] by blast

text \<open>
  C11: The build list is closed under requirements as far as pruning lets it look. Every
  member that the root requires directly, and every member at all when the root is below
  Go 1.17, had its metadata served, and each of its requirements is met in the list.
\<close>

theorem mvs_requirements_met:
  assumes "comparison (ml_Compare L)" "Select n L rootPath rootGo rootReqs fetch = Some (Inr s)"
    "c \<in> set (sel_modules s)" "\<not> pruningEnabled L rootGo \<or> c \<in> coord_of ` set rootReqs"
  shows "\<exists>md. served fetch c md \<and> (\<forall>r \<in> set (md_requirements md). met L s c r)"
proof -
  obtain cache modes sel where v: "validateRequirements L rootReqs"
    and inv: "loop_inv L (pruningEnabled L rootGo) rootReqs fetch cache modes"
    and st: "settled_at L rootReqs cache modes sel"
    and s: "s = buildSelection L rootPath rootReqs sel cache (load_all L cache modes)"
    using Select_result [OF assms(2)] by blast
  let ?m = "load_all L cache modes"
  note inv' = loop_inv_load_all [OF inv]
  obtain p v' where pv: "c = coord (p, v')" "(p, v') \<in> set sel"
    using assms(3) by (auto simp: s modules_buildSelection)
  then obtain md where md: "map_of cache c = Some md" using settled_cached [OF st] by blast
  have "c \<in> coord_of ` considered rootReqs cache ?m"
    using computeSelected_source [of L rootReqs cache ?m sel] st pv unfolding settled_at_def by (meson image_eqI subsetD)
  then obtain r where r: "coord_of r = c" "r \<in> considered rootReqs cache ?m" by blast
  have "?m c \<noteq> LoadNone"
  proof (cases "pruningEnabled L rootGo")
    case True
    then show ?thesis using assms(4) inv' unfolding loop_inv_def by blast
  next
    case False
    have "?m d = LoadFull" if "?m d \<noteq> LoadNone" for d
      using that inv' False unfolding loop_inv_def by (cases "?m d") auto
    then have "?m c = LoadFull"
      using r False inv' load_all_child unfolding considered_def loop_inv_def by blast
    then show ?thesis by simp
  qed
  then have "\<forall>r \<in> set (md_requirements md). met L s c r"
    using settled_edges_met(2) [OF assms(1) inv v st s assms(3) _ md] by blast
  moreover have "served fetch c md" using inv md unfolding loop_inv_def by blast
  ultimately show ?thesis by blast
qed

theorem mvs_build_list_witness:
  "Select 5 demo_lib ''app'' ''1.20'' demo_roots (Some demo_fetch) = Some (Inr demo_selection)
    \<and> met demo_lib demo_selection (coord (''app'', [])) (demo_req ''b'' ''v1.0'')"
  using mvs_build_list [OF demo_lib_comparison demo_select] demo_select by (simp add: demo_roots_def)

theorem mvs_requirements_met_witness:
  "\<exists>md. served (Some demo_fetch) (coord (''a'', ''v1.0'')) md
    \<and> (\<forall>r \<in> set (md_requirements md). met demo_lib demo_selection (coord (''a'', ''v1.0'')) r)"
proof -
  have "coord (''a'', ''v1.0'') \<in> set (sel_modules demo_selection)" by (simp add: demo_selection_def)
  moreover have "coord (''a'', ''v1.0'') \<in> coord_of ` set demo_roots"
    by (simp add: demo_roots_def demo_req_def coord_of_def coord_def)
  ultimately show ?thesis using mvs_requirements_met [OF demo_lib_comparison demo_select] by blast
qed

end
