(* ===== verification/Auditor_Graph.thy ===== *)
theory Auditor_Graph
  imports Gomod_Selection Job
begin

text \<open>
  The audited dependency graph of \<^verbatim>\<open>internal/auditor\<close>: the license policy
  (\<^verbatim>\<open>policy.go\<close>), the package and edge stores (\<^verbatim>\<open>store.go\<close>), the handler that
  resolves and audits one package (\<^verbatim>\<open>handler.go\<close>), the report with its breadth-first path
  search (\<^verbatim>\<open>report.go\<close>), and the mapping of a Go build list into the stores
  (\<^verbatim>\<open>gomod/graph.go\<close>). The package store is the list of its map entries; Go iterates
  a map in any order, so what iterates it takes the enumeration as an argument. Every
  store method holds the store's mutex, so it is one step.
\<close>

section \<open>Policy\<close>

datatype verdict = VerdictPass | VerdictPolicyViolation

record package_metadata =
  pm_Name :: string
  pm_Version :: string
  pm_License :: string
  pm_Dependencies :: "(string \<times> string) list"

definition allowedLicenses :: "string list" where
  "allowedLicenses = [''MIT'', ''Apache-2.0'', ''ISC'', ''BSD-2-Clause'', ''BSD-3-Clause'']"

definition license_check :: "package_metadata \<Rightarrow> verdict" where
  "license_check m = (if pm_License m \<in> set allowedLicenses then VerdictPass else VerdictPolicyViolation)"

section \<open>Stores\<close>

record package =
  pk_Name :: string
  pk_Version :: string
  pk_License :: string
  pk_Verdict :: verdict

record dependency_edge =
  de_FromName :: string
  de_FromVersion :: string
  de_ToName :: string
  de_ToVersion :: string

type_synonym package_store = "(string \<times> package) list"
type_synonym edge_store = "dependency_edge list"

definition key :: "string \<Rightarrow> string \<Rightarrow> string" where
  "key name version = name @ ''@'' @ version"

definition store_add :: "package \<Rightarrow> package_store \<Rightarrow> bool \<times> package_store" where
  "store_add p s =
     (let k = key (pk_Name p) (pk_Version p)
      in if map_of s k \<noteq> None then (False, s) else (True, s @ [(k, p)]))"

definition store_exists :: "string \<Rightarrow> string \<Rightarrow> package_store \<Rightarrow> bool" where
  "store_exists name version s \<longleftrightarrow> map_of s (key name version) \<noteq> None"

definition all_packages :: "package_store \<Rightarrow> package list" where
  "all_packages s = map snd s"

definition edge_add :: "dependency_edge \<Rightarrow> edge_store \<Rightarrow> edge_store" where
  "edge_add e s = s @ [e]"

section \<open>The audit handler\<close>

record audit_payload =
  ap_Name :: string
  ap_Version :: string
  ap_ParentName :: string
  ap_ParentVersion :: string

record audit_state =
  as_packages :: package_store
  as_edges :: edge_store

text \<open>
  What the handler does once the registry answered: the first part writes the edge, the second the
  node; another worker may act between them. The payloads of the new jobs are returned.
\<close>

definition record_edge :: "audit_payload \<Rightarrow> package_metadata \<Rightarrow> audit_state \<Rightarrow> audit_state" where
  "record_edge p m s =
     (if ap_ParentName p \<noteq> []
      then s\<lparr>as_edges := edge_add \<lparr>de_FromName = ap_ParentName p, de_FromVersion = ap_ParentVersion p,
             de_ToName = pm_Name m, de_ToVersion = pm_Version m\<rparr> (as_edges s)\<rparr>
      else s)"

definition child_payloads :: "package_metadata \<Rightarrow> audit_payload list" where
  "child_payloads m = map (\<lambda>(n, v). \<lparr>ap_Name = n, ap_Version = v, ap_ParentName = pm_Name m, ap_ParentVersion = pm_Version m\<rparr>) (pm_Dependencies m)"

definition record_node :: "(package_metadata \<Rightarrow> verdict) \<Rightarrow> package_metadata \<Rightarrow> audit_state \<Rightarrow> audit_payload list \<times> audit_state" where
  "record_node policy m s =
     (let pkg = \<lparr>pk_Name = pm_Name m, pk_Version = pm_Version m, pk_License = pm_License m, pk_Verdict = policy m\<rparr>;
          (new, packages) = store_add pkg (as_packages s)
      in if \<not> new then ([], s) else (child_payloads m, s\<lparr>as_packages := packages\<rparr>))"

text \<open>The JSON of a payload: decoding, and encoding with \<^verbatim>\<open>omitempty\<close> on the parent.\<close>

definition audit_payload_of :: "raw_message \<Rightarrow> audit_payload option" where
  "audit_payload_of raw =
     (case unmarshal_strings [''name'', ''version'', ''parent_name'', ''parent_version''] raw of
        None \<Rightarrow> None
      | Some f \<Rightarrow> Some \<lparr>ap_Name = f ''name'', ap_Version = f ''version'', ap_ParentName = f ''parent_name'', ap_ParentVersion = f ''parent_version''\<rparr>)"

definition omit_empty :: "string \<Rightarrow> string \<Rightarrow> (string \<times> json) list" where
  "omit_empty k v = (if v = [] then [] else [(k, JStr v)])"

definition audit_payload_json :: "audit_payload \<Rightarrow> json" where
  "audit_payload_json p = JObj ([(''name'', JStr (ap_Name p)), (''version'', JStr (ap_Version p))]
     @ omit_empty ''parent_name'' (ap_ParentName p) @ omit_empty ''parent_version'' (ap_ParentVersion p))"

text \<open>The jobs of the children, with the identifiers \<^verbatim>\<open>NewJobID\<close> draws.\<close>

definition child_jobs :: "(nat \<Rightarrow> id) \<Rightarrow> audit_payload list \<Rightarrow> job list" where
  "child_jobs ids ps = map (\<lambda>(k, p). zero_job\<lparr>ID := ids k, Type := ''audit_package'',
     Payload := Some (audit_payload_json p), Status := StatusPending\<rparr>) (enumerate 0 ps)"

text \<open>A whole call without interruption; the registry is a parameter and may answer with an error.\<close>

definition audit_handle ::
  "(string \<Rightarrow> string \<Rightarrow> go_error + package_metadata) \<Rightarrow> (package_metadata \<Rightarrow> verdict) \<Rightarrow> (nat \<Rightarrow> id) \<Rightarrow> job \<Rightarrow> audit_state \<Rightarrow> (go_error + job list) \<times> audit_state"
where
  "audit_handle registry policy ids j s =
     (case audit_payload_of (Payload j) of
        None \<Rightarrow> (Inl (WrapError (''auditor: unmarshal payload for job '' @ ID j) (PlainError ''json'')), s)
      | Some p \<Rightarrow>
          (case registry (ap_Name p) (ap_Version p) of
             Inl e \<Rightarrow> (Inl (WrapError (''auditor: fetch '' @ ap_Name p @ ''@'' @ ap_Version p) e), s)
           | Inr m \<Rightarrow> let (ps, s2) = record_node policy m (record_edge p m s) in (Inr (child_jobs ids ps), s2)))"

section \<open>Paths to the root\<close>

definition edge_child :: "dependency_edge \<Rightarrow> string" where
  "edge_child e = key (de_ToName e) (de_ToVersion e)"

definition edge_parent :: "dependency_edge \<Rightarrow> string" where
  "edge_parent e = key (de_FromName e) (de_FromVersion e)"

definition parents_of :: "dependency_edge list \<Rightarrow> string \<Rightarrow> string list" where
  "parents_of es = fold (\<lambda>e m. m(edge_child e := m (edge_child e) @ [edge_parent e])) es (\<lambda>_. [])"

definition is_root :: "string \<Rightarrow> string \<Rightarrow> bool" where
  "is_root root p \<longleftrightarrow> p = root \<or> p = root @ ''@''"

text \<open>The loop over the parents of one node: the path to the root, or the grown search state.\<close>

fun visit :: "string \<Rightarrow> string list \<Rightarrow> string list \<Rightarrow> string set \<Rightarrow> (string \<times> string list) list \<Rightarrow> string list + string set \<times> (string \<times> string list) list" where
  "visit root path [] visited queue = Inr (visited, queue)"
| "visit root path (p # ps) visited queue =
     (if is_root root p then Inl (root # rev path)
      else if p \<in> visited then visit root path ps visited queue
      else visit root path ps (insert p visited) (queue @ [(p, path @ [p])]))"

text \<open>The loop over the queue, with a bound on its turns; \<open>None\<close> when they are used up.\<close>

fun search :: "nat \<Rightarrow> string \<Rightarrow> string \<Rightarrow> (string \<Rightarrow> string list) \<Rightarrow> string set \<Rightarrow> (string \<times> string list) list \<Rightarrow> string list option" where
  "search fuel node root parents visited [] = Some [node]"
| "search 0 node root parents visited (c # queue) = None"
| "search (Suc fuel) node root parents visited ((cur, path) # queue) =
     (case visit root path (parents cur) visited queue of
        Inl full \<Rightarrow> Some full
      | Inr (visited1, queue1) \<Rightarrow> search fuel node root parents visited1 queue1)"

text \<open>A turn takes a node that was not taken before, so one turn more than there are edges is enough.\<close>

definition findPath :: "string \<Rightarrow> string \<Rightarrow> dependency_edge list \<Rightarrow> string list option" where
  "findPath node root es = search (Suc (length es)) node root (parents_of es) {node} [(node, [node])]"

section \<open>The report\<close>

record package_violation =
  pv_Package :: package
  pv_Path :: "string list"

record report =
  rp_TotalPackages :: nat
  rp_PolicyViolations :: "package_violation list"
  rp_DependencyPaths :: "string \<Rightarrow> string list option"
  rp_Summary :: string

definition licenseViolationReason :: "string \<Rightarrow> string" where
  "licenseViolationReason license = (if license = [] then ''no license declared'' else ''license not in allowlist'')"

text \<open>The bytes of the characters outside ASCII in the report, and a newline.\<close>

definition cross_mark :: string where "cross_mark = [CHR 0xE2, CHR 0x9C, CHR 0x97]"
definition em_dash :: string where "em_dash = [CHR 0xE2, CHR 0x80, CHR 0x94]"
definition arrow :: string where "arrow = [CHR 0xE2, CHR 0x86, CHR 0x92]"
definition nl :: string where "nl = [CHR 0x0A]"

definition violation_text :: "package_violation \<Rightarrow> string" where
  "violation_text v =
     (let p = pv_Package v
      in ''  '' @ cross_mark @ '' '' @ pk_Name p @ ''@'' @ pk_Version p @ '' '' @ em_dash @ '' '' @ pk_License p
         @ '' ('' @ licenseViolationReason (pk_License p) @ '')'' @ nl
         @ ''    Path: '' @ Join (pv_Path v) ('' '' @ arrow @ '' '') @ nl)"

definition buildSummary :: "string \<Rightarrow> package list \<Rightarrow> package_violation list \<Rightarrow> int \<Rightarrow> string" where
  "buildSummary root allPkgs violations clean =
     ''=== Dependency Audit Report ==='' @ nl @ nl
     @ ''Root: '' @ root @ nl @ nl
     @ ''Packages scanned: '' @ Itoa (int (length allPkgs)) @ nl
     @ ''Policy violations: '' @ Itoa (int (length violations)) @ nl
     @ concat (map violation_text violations)
     @ nl @ ''Clean: '' @ Itoa clean @ '' packages passed all checks.'' @ nl"

definition violations_of :: "package list \<Rightarrow> dependency_edge list \<Rightarrow> string \<Rightarrow> package_violation list" where
  "violations_of allPkgs es root =
     map (\<lambda>p. \<lparr>pv_Package = p, pv_Path = (case findPath (key (pk_Name p) (pk_Version p)) root es of Some w \<Rightarrow> w | None \<Rightarrow> [])\<rparr>)
       (filter (\<lambda>p. pk_Verdict p = VerdictPolicyViolation) allPkgs)"

text \<open>\<open>allPkgs\<close> enumerates the package store.\<close>

definition GenerateReport :: "package list \<Rightarrow> edge_store \<Rightarrow> string \<Rightarrow> report" where
  "GenerateReport allPkgs es root =
     (let violations = violations_of allPkgs es root
      in \<lparr>rp_TotalPackages = length allPkgs, rp_PolicyViolations = violations,
          rp_DependencyPaths = map_of (rev (map (\<lambda>v. (key (pk_Name (pv_Package v)) (pk_Version (pv_Package v)), pv_Path v)) violations)),
          rp_Summary = buildSummary root allPkgs violations (int (length allPkgs) - int (length violations))\<rparr>)"

section \<open>Go build lists\<close>

definition UnknownLicense :: string where "UnknownLicense = ''UNKNOWN''"

definition map_modules :: "(package_metadata \<Rightarrow> verdict) \<Rightarrow> coordinate list \<Rightarrow> package_store \<Rightarrow> package_store" where
  "map_modules policy cs packages = fold (\<lambda>c s.
     let m = \<lparr>pm_Name = co_path c, pm_Version = co_version c, pm_License = UnknownLicense, pm_Dependencies = []\<rparr>
     in snd (store_add \<lparr>pk_Name = pm_Name m, pk_Version = pm_Version m, pk_License = pm_License m, pk_Verdict = policy m\<rparr> s)) cs packages"

definition compareMapped :: "modlib \<Rightarrow> selected_edge \<Rightarrow> selected_edge \<Rightarrow> int" where
  "compareMapped L a b =
     (if (co_version (se_from a) = []) \<noteq> (co_version (se_from b) = []) then (if co_version (se_from a) = [] then - 1 else 1)
      else let c = compareCoordinates L (se_from a) (se_from b)
           in if c \<noteq> 0 then c else compareCoordinates L (se_to a) (se_to b))"

definition MapSelection ::
  "modlib \<Rightarrow> (package_metadata \<Rightarrow> verdict) \<Rightarrow> selection \<Rightarrow> audit_state \<Rightarrow> audit_state"
where
  "MapSelection L policy sel s =
     s\<lparr>as_packages := map_modules policy (sortCoordinates L (sel_modules sel)) (as_packages s),
       as_edges := fold (\<lambda>e. edge_add \<lparr>de_FromName = co_path (se_from e), de_FromVersion = co_version (se_from e),
           de_ToName = co_path (se_to e), de_ToVersion = co_version (se_to e)\<rparr>)
         (sort_cmp (compareMapped L) (remdups (sel_edges sel))) (as_edges s)\<rparr>"

end
