(* ===== verification/Auditor_Theorems.thy ===== *)
theory Auditor_Theorems
  imports Auditor_Graph Gomod_Theorems
begin

text \<open>
  The path search of the report finds a shortest chain of dependents from a package up to the
  root, or says that there is none, and always ends. The stores keep one node per package,
  and expand it once.
\<close>

section \<open>Chains of parents\<close>

text \<open>A list of nodes in which each is a parent of the one before.\<close>

fun chain :: "(string \<Rightarrow> string list) \<Rightarrow> string list \<Rightarrow> bool" where
  "chain P [] = False"
| "chain P [x] = True"
| "chain P (x # y # w) \<longleftrightarrow> y \<in> set (P x) \<and> chain P (y # w)"

definition to_root :: "(string \<Rightarrow> string list) \<Rightarrow> string \<Rightarrow> string list \<Rightarrow> bool" where
  "to_root P root w \<longleftrightarrow> chain P w \<and> (\<exists>p \<in> set (P (last w)). is_root root p)"

inductive reach :: "(string \<Rightarrow> string list) \<Rightarrow> string \<Rightarrow> string \<Rightarrow> nat \<Rightarrow> bool"
  for P :: "string \<Rightarrow> string list" and node :: string where
  start: "reach P node node 0"
| up: "reach P node m k \<Longrightarrow> p \<in> set (P m) \<Longrightarrow> reach P node p (Suc k)"

inductive_cases reach_SucE: "reach P node p (Suc k)"
inductive_simps reach_0 [simp]: "reach P node p 0"

lemma chain_snoc: "chain P (w @ [p]) \<longleftrightarrow> w = [] \<or> chain P w \<and> p \<in> set (P (last w))"
proof (induction P w rule: chain.induct)
  case (3 P x y w)
  then show ?case by auto
qed simp_all

lemma chain_reach: "chain P w \<Longrightarrow> reach P (hd w) (last w) (length w - 1)"
proof (induction w rule: rev_induct)
  case (snoc p w)
  show ?case
  proof (cases "w = []")
    case True
    then show ?thesis by simp
  next
    case False
    then have "reach P (hd w) (last w) (length w - 1)" "p \<in> set (P (last w))"
      using snoc by (auto simp: chain_snoc)
    then have "reach P (hd w) p (Suc (length w - 1))" by (rule up)
    then show ?thesis using False by simp
  qed
qed simp

section \<open>The search\<close>

text \<open>
  The invariant of the search: \<open>seen\<close> are the nodes already taken. The queue holds, with
  shortest chains, the visited nodes not yet taken, nearest first and at most one level
  apart; the parents of every taken node were visited and are not the root.
\<close>

definition entry_ok :: "(string \<Rightarrow> string list) \<Rightarrow> string \<Rightarrow> string \<times> string list \<Rightarrow> bool" where
  "entry_ok P node e \<longleftrightarrow> chain P (snd e) \<and> hd (snd e) = node \<and> last (snd e) = fst e
     \<and> (\<forall>k. reach P node (fst e) k \<longrightarrow> length (snd e) \<le> Suc k)"

definition levels_ok :: "(string \<times> string list) list \<Rightarrow> bool" where
  "levels_ok queue \<longleftrightarrow> sorted (map (length \<circ> snd) queue)
     \<and> (\<forall>e \<in> set queue. length (snd e) \<le> Suc (length (snd (hd queue))))"

definition search_inv ::
  "(string \<Rightarrow> string list) \<Rightarrow> string \<Rightarrow> string \<Rightarrow> string set \<Rightarrow> string set \<Rightarrow> (string \<times> string list) list \<Rightarrow> bool"
where
  "search_inv P node root seen visited queue \<longleftrightarrow>
     node \<in> visited \<and> visited = seen \<union> fst ` set queue \<and> distinct (map fst queue) \<and> seen \<inter> fst ` set queue = {}
     \<and> (\<forall>m \<in> seen. \<forall>p \<in> set (P m). \<not> is_root root p \<and> p \<in> visited)
     \<and> (\<forall>e \<in> set queue. entry_ok P node e) \<and> levels_ok queue
     \<and> (queue \<noteq> [] \<longrightarrow> (\<forall>m k. reach P node m k \<longrightarrow> Suc k < length (snd (hd queue)) \<longrightarrow> m \<in> seen))"

lemma visit_found:
  "visit root path ps visited queue = Inl res \<Longrightarrow> res = root # rev path \<and> (\<exists>p \<in> set ps. is_root root p)"
  by (induction root path ps visited queue rule: visit.induct) (auto split: if_splits)

lemma sorted_head_le:
  assumes "sorted (map (length \<circ> snd) q)" "e \<in> set q"
  shows "length (snd (hd q)) \<le> length (snd e)"
  using assms by (cases q) auto

text \<open>What the loop over the parents adds to the queue.\<close>

lemma visit_grown:
  "visit root path ps visited queue = Inr (visited', queue') \<Longrightarrow>
     (\<forall>p \<in> set ps. \<not> is_root root p) \<and> visited' = visited \<union> set ps
     \<and> (\<exists>new. queue' = queue @ map (\<lambda>p. (p, path @ [p])) new \<and> distinct new \<and> set new = set ps - visited)"
proof (induction root path ps visited queue rule: visit.induct)
  case (1 root path visited queue)
  then show ?case by simp
next
  case (2 root path p ps visited queue)
  have nr: "\<not> is_root root p" using "2.prems" by (cases "is_root root p") simp_all
  show ?case
  proof (cases "p \<in> visited")
    case True
    then have "visit root path ps visited queue = Inr (visited', queue')" using "2.prems" nr by simp
    then show ?thesis using "2.IH"(1) [OF nr True] True nr by auto
  next
    case False
    then have v: "visit root path ps (insert p visited) (queue @ [(p, path @ [p])]) = Inr (visited', queue')"
      using "2.prems" nr by simp
    obtain new where new: "queue' = (queue @ [(p, path @ [p])]) @ map (\<lambda>p. (p, path @ [p])) new"
      "distinct new" "set new = set ps - insert p visited"
      "\<forall>p \<in> set ps. \<not> is_root root p" "visited' = insert p visited \<union> set ps"
      using "2.IH"(2) [OF nr False v] by blast
    have "queue' = queue @ map (\<lambda>p. (p, path @ [p])) (p # new)" "distinct (p # new)" "set (p # new) = set (p # ps) - visited"
      using new False by auto
    moreover have "\<forall>q \<in> set (p # ps). \<not> is_root root q" "visited' = visited \<union> set (p # ps)" using new(4,5) nr by auto
    ultimately show ?thesis by blast
  qed
qed

lemma entry_fresh:
  assumes e: "entry_ok P node (cur, path)" and p: "p \<in> set (P cur)"
    and far: "\<And>k. reach P node p k \<Longrightarrow> length path \<le> k"
  shows "entry_ok P node (p, path @ [p])"
proof -
  have "path \<noteq> []" using e by (auto simp: entry_ok_def)
  then show ?thesis using e p far by (auto simp: entry_ok_def chain_snoc)
qed

text \<open>Nodes within the level of the node just taken were visited before.\<close>

lemma search_inv_within:
  assumes inv: "search_inv P node root seen visited ((cur, path) # queue)"
    and m: "reach P node m k" "k < length path"
  shows "m \<in> visited"
proof (cases k)
  case 0
  have "node \<in> visited" using inv unfolding search_inv_def by blast
  then show ?thesis using m(1) 0 by simp
next
  case (Suc j)
  then obtain q where "reach P node q j" "m \<in> set (P q)" using m(1) by (auto elim: reach_SucE)
  moreover from this have "q \<in> seen" using inv m(2) Suc by (auto simp: search_inv_def)
  ultimately show ?thesis using inv by (auto simp: search_inv_def)
qed

text \<open>Appending the next level keeps the queue on two consecutive levels.\<close>

lemma levels_ok_append:
  assumes lv: "levels_ok ((cur, path) # queue)"
  shows "sorted (map (length \<circ> snd) (queue @ map (\<lambda>p. (p, path @ [p])) new))"
    and "\<forall>e \<in> set (queue @ map (\<lambda>p. (p, path @ [p])) new). length path \<le> length (snd e) \<and> length (snd e) \<le> Suc (length path)"
    and "levels_ok (queue @ map (\<lambda>p. (p, path @ [p])) new)"
proof -
  let ?q = "queue @ map (\<lambda>p. (p, path @ [p])) new"
  have len: "length path \<le> length (snd e) \<and> length (snd e) \<le> Suc (length path)" if "e \<in> set queue" for e
    using lv that by (auto simp: levels_ok_def)
  have lens: "map (length \<circ> snd) ?q = map (length \<circ> snd) queue @ replicate (length new) (Suc (length path))"
    by (simp add: comp_def map_replicate_const)
  show sorted: "sorted (map (length \<circ> snd) ?q)"
    using lv len unfolding lens by (auto simp: sorted_append levels_ok_def)
  show bound: "\<forall>e \<in> set ?q. length path \<le> length (snd e) \<and> length (snd e) \<le> Suc (length path)"
    using len by auto
  show "levels_ok ?q"
  proof (cases ?q)
    case (Cons e es)
    then have "length path \<le> length (snd e)" using bound by simp
    then show ?thesis using sorted bound Cons unfolding levels_ok_def by (metis Suc_le_mono le_trans list.sel(1))
  qed (simp add: levels_ok_def)
qed

lemma search_inv_near:
  assumes inv: "search_inv P node root seen visited ((cur, path) # queue)"
    and q: "queue' = queue @ map (\<lambda>p. (p, path @ [p])) new" "queue' \<noteq> []"
    and m: "reach P node m k" "Suc k < length (snd (hd queue'))"
  shows "m \<in> insert cur seen"
proof -
  have lv: "levels_ok ((cur, path) # queue)" using inv by (simp add: search_inv_def)
  have "hd queue' \<in> set queue'" using q(2) by simp
  then have "k < length path" using levels_ok_append(2) [OF lv, of new] m(2) unfolding q(1) by fastforce
  then have "m \<in> visited" using search_inv_within [OF inv m(1)] by blast
  moreover have "(m, w) \<notin> set queue" for w
  proof
    assume w: "(m, w) \<in> set queue"
    then have "length w \<le> Suc k" using inv m(1) by (auto simp: search_inv_def entry_ok_def)
    moreover have "length (snd (hd queue')) \<le> length w"
      using sorted_head_le [OF levels_ok_append(1) [OF lv, of new], of "(m, w)"] w by (simp add: q(1))
    ultimately show False using m(2) by linarith
  qed
  ultimately show ?thesis using inv by (force simp: search_inv_def)
qed

lemma search_inv_step:
  assumes inv: "search_inv P node root seen visited ((cur, path) # queue)"
    and v: "visit root path (P cur) visited queue = Inr (visited', queue')"
  shows "search_inv P node root (insert cur seen) visited' queue'"
proof -
  obtain new where new: "queue' = queue @ map (\<lambda>p. (p, path @ [p])) new" "distinct new" "set new = set (P cur) - visited"
    and roots: "\<forall>p \<in> set (P cur). \<not> is_root root p" and vis: "visited' = visited \<union> set (P cur)"
    using visit_grown [OF v] by blast
  have cur: "entry_ok P node (cur, path)" and lv: "levels_ok ((cur, path) # queue)"
    using inv by (auto simp: search_inv_def)
  have fresh: "entry_ok P node (p, path @ [p])" if "p \<in> set new" for p
    by (rule entry_fresh [OF cur]) (use that new(3) search_inv_within [OF inv] in \<open>auto simp: not_less [symmetric]\<close>)
  have vis_eq: "visited = insert cur seen \<union> fst ` set queue" "cur \<notin> seen" "cur \<notin> fst ` set queue"
    using inv by (auto simp: search_inv_def)
  have fq: "fst ` set queue' = fst ` set queue \<union> (set (P cur) - visited)"
    by (simp add: new(1,3) image_Un image_image)
  have dq: "distinct (map fst queue')"
    using inv new(2,3) vis_eq(1) by (auto simp: new(1) search_inv_def comp_def)
  show ?thesis
    unfolding search_inv_def
  proof (intro conjI)
    show "node \<in> visited'" using inv unfolding search_inv_def vis by blast
    show "visited' = insert cur seen \<union> fst ` set queue'" using vis vis_eq(1) fq by auto
    show "distinct (map fst queue')" by (rule dq)
    show "insert cur seen \<inter> fst ` set queue' = {}" using inv vis_eq fq by (auto simp: search_inv_def)
    show "\<forall>m \<in> insert cur seen. \<forall>p \<in> set (P m). \<not> is_root root p \<and> p \<in> visited'"
      using inv roots vis by (auto simp: search_inv_def)
    show "\<forall>e \<in> set queue'. entry_ok P node e" using inv fresh by (auto simp: new(1) search_inv_def)
    show "levels_ok queue'" unfolding new(1) by (rule levels_ok_append(3) [OF lv])
    show "queue' \<noteq> [] \<longrightarrow> (\<forall>m k. reach P node m k \<longrightarrow> Suc k < length (snd (hd queue')) \<longrightarrow> m \<in> insert cur seen)"
      using search_inv_near [OF inv new(1)] by blast
  qed
qed

lemma search_inv_start: "search_inv P node root {} {node} [(node, [node])]"
  by (auto simp: search_inv_def entry_ok_def levels_ok_def)

lemma to_root_reach: "to_root P root w \<Longrightarrow> reach P (hd w) (last w) (length w - 1) \<and> w \<noteq> []"
  by (cases w) (auto simp: to_root_def dest: chain_reach)

lemma visit_root_path:
  assumes inv: "search_inv P node root seen visited ((cur, path) # queue)"
    and v: "visit root path (P cur) visited queue = Inl res"
  shows "\<exists>w. res = root # rev w \<and> hd w = node \<and> to_root P root w
    \<and> (\<forall>u. hd u = node \<and> to_root P root u \<longrightarrow> length w \<le> length u)"
proof -
  have cur: "entry_ok P node (cur, path)"
    and near: "\<And>m k. reach P node m k \<Longrightarrow> Suc k < length path \<Longrightarrow> m \<in> seen"
    and no_root: "\<And>m p. m \<in> seen \<Longrightarrow> p \<in> set (P m) \<Longrightarrow> \<not> is_root root p"
    using inv by (auto simp: search_inv_def)
  have "to_root P root path" "res = root # rev path"
    using visit_found [OF v] cur by (auto simp: to_root_def entry_ok_def)
  moreover have "length path \<le> length u" if "hd u = node" "to_root P root u" for u
  proof (rule ccontr)
    assume short: "\<not> length path \<le> length u"
    have "reach P node (last u) (length u - 1)" "u \<noteq> []" using to_root_reach [OF that(2)] that(1) by auto
    then have "last u \<in> seen" using near short by (cases u) auto
    then show False using no_root that(2) by (auto simp: to_root_def)
  qed
  ultimately show ?thesis using cur by (auto simp: entry_ok_def)
qed

lemma search_unreachable:
  assumes "search_inv P node root seen visited []" "hd w = node" "to_root P root w"
  shows False
proof -
  have closed: "\<And>m p. m \<in> seen \<Longrightarrow> p \<in> set (P m) \<Longrightarrow> p \<in> seen \<and> \<not> is_root root p" and "node \<in> seen"
    using assms(1) by (auto simp: search_inv_def)
  have "reach P node m k \<Longrightarrow> m \<in> seen" for m k
    by (induction m k rule: reach.induct) (use closed \<open>node \<in> seen\<close> in auto)
  then have "last w \<in> seen" using to_root_reach [OF assms(3)] assms(2) by auto
  then show False using closed assms(3) by (auto simp: to_root_def)
qed

definition path_answer :: "(string \<Rightarrow> string list) \<Rightarrow> string \<Rightarrow> string \<Rightarrow> string list \<Rightarrow> bool" where
  "path_answer P node root res \<longleftrightarrow>
     (\<exists>w. res = root # rev w \<and> hd w = node \<and> to_root P root w \<and> (\<forall>u. hd u = node \<and> to_root P root u \<longrightarrow> length w \<le> length u))
     \<or> (res = [node] \<and> \<not> (\<exists>w. hd w = node \<and> to_root P root w))"

lemma search_correct:
  assumes "search_inv P node root seen visited queue" "finite U" "\<And>m. set (P m) \<subseteq> U" "seen \<union> fst ` set queue \<subseteq> insert node U"
    "card (insert node U - seen) \<le> fuel"
  shows "\<exists>res. search fuel node root P visited queue = Some res \<and> path_answer P node root res"
  using assms
proof (induction fuel arbitrary: seen visited queue)
  case 0
  then have "insert node U - seen = {}" by simp
  then have "queue = []" using "0.prems"(1,4) by (cases queue) (auto simp: search_inv_def)
  then show ?case using search_unreachable [of P node root seen visited] "0.prems"(1) unfolding path_answer_def by auto
next
  case (Suc fuel)
  show ?case
  proof (cases queue)
    case Nil
    then show ?thesis using search_unreachable [of P node root seen visited] Suc.prems(1) unfolding path_answer_def by auto
  next
    case (Cons e rest)
    obtain cur path where e: "e = (cur, path)" by force
    have inv: "search_inv P node root seen visited ((cur, path) # rest)" using Suc.prems(1) Cons e by simp
    show ?thesis
    proof (cases "visit root path (P cur) visited rest")
      case (Inl res)
      then show ?thesis using visit_root_path [OF inv Inl] Cons e by (auto simp: path_answer_def)
    next
      case (Inr st)
      obtain visited' queue' where st: "st = (visited', queue')" by force
      have v: "visit root path (P cur) visited rest = Inr (visited', queue')" using Inr st by simp
      have cur: "cur \<in> insert node U" "cur \<notin> seen" using inv Suc.prems(4) Cons e by (auto simp: search_inv_def)
      have "insert cur seen \<union> fst ` set queue' \<subseteq> insert node U"
        using visit_grown [OF v] Suc.prems(3,4) cur Cons by fastforce
      moreover have "card (insert node U - insert cur seen) < card (insert node U - seen)"
        using cur Suc.prems(2) by (intro psubset_card_mono) auto
      then have "card (insert node U - insert cur seen) \<le> fuel" using Suc.prems(5) by linarith
      ultimately show ?thesis
        using Suc.IH [OF search_inv_step [OF inv v] Suc.prems(2,3)] Cons e v by simp
    qed
  qed
qed

lemma parents_of_fold:
  "set (fold (\<lambda>e m. m(edge_child e := m (edge_child e) @ [edge_parent e])) es f m) \<subseteq> set (f m) \<union> edge_parent ` set es"
proof (induction es arbitrary: f)
  case (Cons e es)
  show ?case using Cons [of "f(edge_child e := f (edge_child e) @ [edge_parent e])"] by (auto split: if_splits)
qed simp

lemma parents_of_range: "set (parents_of es m) \<subseteq> edge_parent ` set es"
  using parents_of_fold [of es "\<lambda>_. []" m] by (simp add: parents_of_def)

text \<open>
  C28: The path search always ends within its bound, and it is a shortest-path search: if some
  chain of dependents leads from the package to the root, the result is the root followed
  by a shortest such chain, outermost dependent first; if none does, it is the package alone.
\<close>

theorem find_path_shortest:
  "\<exists>res. findPath node root es = Some res \<and>
     ((\<exists>w. res = root # rev w \<and> hd w = node \<and> to_root (parents_of es) root w
         \<and> (\<forall>u. hd u = node \<and> to_root (parents_of es) root u \<longrightarrow> length w \<le> length u))
      \<or> (res = [node] \<and> \<not> (\<exists>w. hd w = node \<and> to_root (parents_of es) root w)))"
proof -
  let ?U = "edge_parent ` set es"
  have "card ?U \<le> length es" by (metis card_length length_map list.set_map)
  then have "card (insert node ?U) \<le> Suc (length es)" by (simp add: card_insert_if)
  then show ?thesis
    using search_correct [OF search_inv_start, of ?U "parents_of es" node "Suc (length es)" root] parents_of_range
    unfolding findPath_def path_answer_def by simp
qed

definition demo_edge :: "string \<Rightarrow> string \<Rightarrow> string \<Rightarrow> string \<Rightarrow> dependency_edge" where
  "demo_edge fn fv tn tv = \<lparr>de_FromName = fn, de_FromVersion = fv, de_ToName = tn, de_ToVersion = tv\<rparr>"

definition demo_edges :: "dependency_edge list" where
  "demo_edges = [demo_edge ''app'' [] ''a'' ''1'', demo_edge ''app'' [] ''b'' ''1'', demo_edge ''a'' ''1'' ''c'' ''1'',
     demo_edge ''c'' ''1'' ''d'' ''1'', demo_edge ''b'' ''1'' ''d'' ''1'']"

lemma demo_path: "findPath ''d@1'' ''app'' demo_edges = Some [''app'', ''b@1'', ''d@1'']"
  by code_simp

theorem find_path_shortest_witness:
  "findPath ''d@1'' ''app'' demo_edges = Some [''app'', ''b@1'', ''d@1'']
   \<and> \<not> (\<exists>u. hd u = ''d@1'' \<and> to_root (parents_of demo_edges) ''app'' u \<and> length u < 2)"
proof -
  obtain w where w: "[''app'', ''b@1'', ''d@1''] = ''app'' # rev w"
    "\<forall>u. hd u = ''d@1'' \<and> to_root (parents_of demo_edges) ''app'' u \<longrightarrow> length w \<le> length u"
    using find_path_shortest [of "''d@1''" "''app''" demo_edges] unfolding demo_path by auto
  have "length w = 2" using arg_cong [OF w(1), of length] by simp
  then show ?thesis using w(2) demo_path by fastforce
qed

end
