(* ===== verification/Legacy_Store.thy ===== *)
theory Legacy_Store
  imports Store_Db
begin

text \<open>
  The first store of the repository, \<^verbatim>\<open>internal/store/postgres/postgres.go\<close> behind the interface
  \<^verbatim>\<open>store.Store\<close>: durable jobs for the in-process worker pool. It shares the tables of the
  job service but knows no leases. \<^verbatim>\<open>db\<close> and \<^verbatim>\<open>app\<close> are the clocks of the database
  (\<^verbatim>\<open>NOW()\<close>) and of the process (\<^verbatim>\<open>time.Now()\<close>); Go's zero time is 0.
\<close>

section \<open>Operations\<close>

definition jsonValue :: "raw_message \<Rightarrow> raw_message" where
  "jsonValue p = p"

definition create_row :: "time \<Rightarrow> time \<Rightarrow> job \<Rightarrow> jobs_row" where
  "create_row db_now app_now j =
     (new_row db_now (ID j) (Type j) (jsonValue (Payload j)) (if MaxAttempts j = 0 then DefaultMaxAttempts else MaxAttempts j)
        (firstNonEmpty [RootJobID j, ID j]))
     \<lparr>r_attempts := Attempts j, r_scheduled_at := (if ScheduledAt j = 0 then app_now else ScheduledAt j),
      r_parent_job_id := nullif_empty (ParentJobID j), r_internal := Internal j\<rparr>"

definition CreateJob :: "time \<Rightarrow> time \<Rightarrow> job \<Rightarrow> db \<Rightarrow> string + db" where
  "CreateJob db_now app_now j d =
     (if job_exists (ID j) d then Inl ''job already exists''
      else Inr (d\<lparr>jobs := jobs d @ [create_row db_now app_now j]\<rparr>))"

text \<open>The seven columns of \<^verbatim>\<open>scanJob\<close>; the other fields are zero.\<close>

definition scanJob :: "jobs_row \<Rightarrow> job" where
  "scanJob r = zero_job\<lparr>ID := r_id r, Type := r_type r, Payload := r_payload r, Status := r_status r,
     Attempts := r_attempts r, MaxAttempts := r_max_attempts r, ScheduledAt := r_scheduled_at r\<rparr>"

definition acquirable :: "time \<Rightarrow> jobs_row \<Rightarrow> bool" where
  "acquirable now r \<longleftrightarrow> r_status r = StatusPending \<and> r_scheduled_at r \<le> now"

text \<open>
  \<^verbatim>\<open>ORDER BY scheduled_at, created_at LIMIT 1\<close>; ties are broken by the database, here by
  the order of insertion. Rows locked by others are left out by the caller's view.
\<close>

definition next_job :: "time \<Rightarrow> db \<Rightarrow> jobs_row option" where
  "next_job now d =
     (case filter (acquirable now) (jobs d) of
        [] \<Rightarrow> None
      | r # rs \<Rightarrow> Some (fold (\<lambda>x best. if (r_scheduled_at x, r_created_at x) < (r_scheduled_at best, r_created_at best) then x else best) rs r))"

definition AcquireJob :: "time \<Rightarrow> db \<Rightarrow> (job \<times> db) option" where
  "AcquireJob now d =
     (case next_job now d of
        None \<Rightarrow> None
      | Some r \<Rightarrow> Some (scanJob (r\<lparr>r_status := StatusRunning\<rparr>),
          update_jobs (\<lambda>x. r_id x = r_id r) (\<lambda>x. x\<lparr>r_status := StatusRunning\<rparr>) d))"

definition updateStatus :: "id \<Rightarrow> status \<Rightarrow> db \<Rightarrow> string + db" where
  "updateStatus i s d =
     (if count_where (\<lambda>r. r_id r = i) (jobs d) = 0 then Inl ''not found''
      else Inr (update_jobs (\<lambda>r. r_id r = i) (\<lambda>r. r\<lparr>r_status := s\<rparr>) d))"

definition CompleteJob :: "id \<Rightarrow> db \<Rightarrow> string + db" where
  "CompleteJob i d = updateStatus i StatusCompleted d"

definition RetryJob :: "job \<Rightarrow> db \<Rightarrow> string + db" where
  "RetryJob j d =
     (if count_where (\<lambda>r. r_id r = ID j) (jobs d) = 0 then Inl ''not found''
      else Inr (update_jobs (\<lambda>r. r_id r = ID j)
        (\<lambda>r. r\<lparr>r_status := StatusPending, r_attempts := Attempts j, r_scheduled_at := ScheduledAt j\<rparr>) d))"

definition DeadLetterJob :: "time \<Rightarrow> job \<Rightarrow> go_error option \<Rightarrow> db \<Rightarrow> string + db" where
  "DeadLetterJob now j err d =
     (if count_where (\<lambda>r. r_id r = ID j) (jobs d) = 0 then Inl ''not found''
      else let d1 = update_jobs (\<lambda>r. r_id r = ID j) (\<lambda>r. r\<lparr>r_status := StatusDeadLettered, r_attempts := Attempts j\<rparr>) d
           in Inr (insert_dlq now (ID j) (Type j) (jsonValue (Payload j)) (Attempts j)
                (case err of None \<Rightarrow> [] | Some e \<Rightarrow> error_text e) None None None d1))"

definition ReclaimStuckJobs :: "db \<Rightarrow> nat \<times> db" where
  "ReclaimStuckJobs d =
     (count_where (\<lambda>r. r_status r = StatusRunning) (jobs d),
      update_jobs (\<lambda>r. r_status r = StatusRunning) (\<lambda>r. r\<lparr>r_status := StatusPending\<rparr>) d)"

text \<open>\<^verbatim>\<open>ORDER BY dead_at, id\<close>.\<close>

record dlq_entry =
  dle_Job :: job
  dle_Err :: string
  dle_DeadAt :: time

definition DLQEntries :: "db \<Rightarrow> dlq_entry list" where
  "DLQEntries d =
     map (\<lambda>e. \<lparr>dle_Job = zero_job\<lparr>ID := d_job_id e, Type := d_job_type e, Payload := d_payload e,
                 Attempts := d_attempts e, Status := StatusDeadLettered\<rparr>, dle_Err = d_error e, dle_DeadAt = d_dead_at e\<rparr>)
       (sort_key (\<lambda>e. (d_dead_at e, d_id e)) (dlq d))"

section \<open>The interface\<close>

text \<open>\<^verbatim>\<open>store.Store\<close>, with database errors among the results.\<close>

record 'd job_store =
  js_create :: "time \<Rightarrow> job \<Rightarrow> 'd \<Rightarrow> string + 'd"
  js_acquire :: "time \<Rightarrow> 'd \<Rightarrow> string + (job \<times> 'd) option"
  js_complete :: "id \<Rightarrow> 'd \<Rightarrow> string + 'd"
  js_retry :: "job \<Rightarrow> 'd \<Rightarrow> string + 'd"
  js_dead :: "time \<Rightarrow> job \<Rightarrow> go_error option \<Rightarrow> 'd \<Rightarrow> string + 'd"
  js_reclaim :: "'d \<Rightarrow> string + nat \<times> 'd"

definition pg_jobs :: "db job_store" where
  "pg_jobs = \<lparr>js_create = (\<lambda>now. CreateJob now now), js_acquire = (\<lambda>now d. Inr (AcquireJob now d)),
     js_complete = CompleteJob, js_retry = RetryJob, js_dead = DeadLetterJob, js_reclaim = (\<lambda>d. Inr (ReclaimStuckJobs d))\<rparr>"

section \<open>Facts\<close>

lemma fold_least:
  fixes k :: "'a \<Rightarrow> 'b::linorder"
  shows "fold (\<lambda>x best. if k x < k best then x else best) rs r \<in> insert r (set rs)
    \<and> (\<forall>x \<in> insert r (set rs). k (fold (\<lambda>x best. if k x < k best then x else best) rs r) \<le> k x)"
proof (induction rs arbitrary: r)
  case (Cons a rs)
  show ?case using Cons [of "if k a < k r then a else r"] by (auto split: if_splits)
qed simp

lemma next_job_Some:
  assumes "next_job now d = Some r"
  shows "r \<in> set (jobs d) \<and> acquirable now r
    \<and> (\<forall>x \<in> set (jobs d). acquirable now x \<longrightarrow> (r_scheduled_at r, r_created_at r) \<le> (r_scheduled_at x, r_created_at x))"
proof -
  obtain a as where f: "filter (acquirable now) (jobs d) = a # as"
    using assms by (auto simp: next_job_def split: list.splits)
  then have r: "r = fold (\<lambda>x best. if (r_scheduled_at x, r_created_at x) < (r_scheduled_at best, r_created_at best) then x else best) as a"
    using assms by (simp add: next_job_def)
  have s: "insert a (set as) = {x \<in> set (jobs d). acquirable now x}" using arg_cong [OF f, of set] by auto
  note least = fold_least [of "\<lambda>x. (r_scheduled_at x, r_created_at x)" as a, folded r]
  show ?thesis using least unfolding s by blast
qed

lemma next_job_None: "next_job now d = None \<longleftrightarrow> (\<forall>r \<in> set (jobs d). \<not> acquirable now r)"
proof (cases "filter (acquirable now) (jobs d)")
  case Nil
  then show ?thesis by (simp add: next_job_def) (simp add: filter_empty_conv)
next
  case (Cons a as)
  then have "a \<in> set (filter (acquirable now) (jobs d))" by simp
  then have "a \<in> set (jobs d) \<and> acquirable now a" by (simp del: Cons)
  then show ?thesis using Cons by (auto simp: next_job_def)
qed

end
