(* ===== verification/Worker_Pool.thy ===== *)
theory Worker_Pool
  imports Legacy_Store "HOL-Library.Sublist"
begin

text \<open>
  The in-process worker pool: \<^verbatim>\<open>internal/worker/pool.go\<close> over the bounded queue of
  \<^verbatim>\<open>internal/queue/queue.go\<close> and the dead-letter queue of \<^verbatim>\<open>internal/dlq/dlq.go\<close>.
  A goroutine is the list of statements it has still to execute, \<open>exec\<close> executes one of
  them as one atomic step, and \<open>pool_step\<close> lets any goroutine whose next statement is not
  blocked move. A statement that takes a branch replaces itself by the statements of the
  branch, so the lists below read like the code. Log output is not modelled; \<open>now\<close> is
  the clock of the step.
\<close>

section \<open>Data\<close>

datatype statement =
    Start
  | Shutdown
  | StopAccepting
  | ClosePollStop
  | SpawnCloser
  | WaitShutdown
  | WaitPoller
  | WaitSubmits
  | CloseSignal
  | CloseLocked
  | WaitWorkers
  | CloseShutdownDone
  | PoolSubmit job "statement list"
  | CountedStore id
  | CountedDelete id
  | InFlightAdd int
  | SubmitWGDone
  | CheckDone
  | QueueSubmit job "statement list" "statement list" "statement list"
  | Send job "statement list" "statement list"
  | Persist job "statement list" "statement list"
  | Dequeue
  | DequeueAcquire
  | Running job
  | Handle job
  | RetryStored job
  | DeadLetter job go_error
  | CompleteStored job
  | SubmitChild job
  | PersistChildForDispatch job
  | PollLoop
  | DispatchReady
  | PollAcquire
  | LoadOrStore id
  | DispatchAcquired job

text \<open>What a statement may wait for or be told by its environment.\<close>

datatype event =
    Go
  | Handled "go_error + job list"
  | ContextDone
  | Closing
  | PollStopped
  | DoneClosed
  | Tick

datatype role = Worker | Poller | Caller | Closer

type_synonym goroutine = "role \<times> statement list"

text \<open>A dead-letter queue is optional; it has a store of its own or keeps its entries in memory.\<close>

record 'd pool_config =
  cf_size :: nat
  cf_store :: "'d job_store option"
  cf_queue_store :: "'d job_store option"
  cf_dlq :: "'d job_store option option"
  cf_backoff :: "int \<Rightarrow> int"

record 'd pool =
  q_ch :: "job list"
  q_cap :: nat
  q_closing :: bool
  q_closed :: bool
  p_db :: 'd
  p_dlq :: "dlq_entry list"
  p_inFlight :: int
  p_counted :: "id set"
  p_done :: bool
  p_started :: bool
  p_stopping :: bool
  p_accepting :: bool
  p_pollStop :: bool
  p_shutdown_once :: bool
  p_shutdownDone :: bool
  p_submitWG :: int
  p_threads :: "goroutine list"

section \<open>Queue and dead-letter queue\<close>

text \<open>The reload loop of \<^verbatim>\<open>queue.New\<close>; it ends when nothing is acquired or on an error.\<close>

partial_function (option) reload :: "'d job_store \<Rightarrow> time \<Rightarrow> 'd \<Rightarrow> job list \<Rightarrow> (job list \<times> 'd) option" where
  "reload S now d pending =
     (case js_acquire S now d of
        Inl _ \<Rightarrow> Some (pending, d)
      | Inr None \<Rightarrow> Some (pending, d)
      | Inr (Some (j, d1)) \<Rightarrow> reload S now d1 (pending @ [j]))"

text \<open>The queue a pool starts from: its channel, its capacity, and the database.\<close>

definition New_queue :: "nat \<Rightarrow> 'd job_store option \<Rightarrow> time \<Rightarrow> 'd \<Rightarrow> (job list \<times> nat \<times> 'd) option" where
  "New_queue bufferSize store now d =
     (case store of
        None \<Rightarrow> Some ([], bufferSize, d)
      | Some S \<Rightarrow>
          let d1 = (case js_reclaim S d of Inl _ \<Rightarrow> d | Inr (_, d') \<Rightarrow> d')
          in (case reload S now d1 [] of
                None \<Rightarrow> None
              | Some (pending, d2) \<Rightarrow>
                  Some (pending, (if length pending > bufferSize then length pending else bufferSize), d2)))"

definition after_store :: "string + 'd \<Rightarrow> 'd \<Rightarrow> 'd" where
  "after_store r d = (case r of Inl _ \<Rightarrow> d | Inr d' \<Rightarrow> d')"

definition Publish :: "'d job_store option \<Rightarrow> time \<Rightarrow> job \<Rightarrow> go_error \<Rightarrow> dlq_entry list \<Rightarrow> 'd \<Rightarrow> dlq_entry list \<times> 'd" where
  "Publish store now j err entries d =
     (case store of
        Some S \<Rightarrow> (entries, after_store (js_dead S now j (Some err) d) d)
      | None \<Rightarrow> (entries @ [\<lparr>dle_Job = j, dle_Err = error_text err, dle_DeadAt = now\<rparr>], d))"

text \<open>\<^verbatim>\<open>Entries\<close>: what the store answers, nothing when it answers with an error, or a copy.\<close>

definition Entries :: "('d \<Rightarrow> string + dlq_entry list) option \<Rightarrow> dlq_entry list \<Rightarrow> 'd \<Rightarrow> dlq_entry list" where
  "Entries store entries d =
     (case store of
        Some query \<Rightarrow> (case query d of Inl _ \<Rightarrow> [] | Inr es \<Rightarrow> es)
      | None \<Rightarrow> entries)"

section \<open>Statements\<close>

definition is_room :: "'d pool \<Rightarrow> bool" where
  "is_room p \<longleftrightarrow> length (q_ch p) < q_cap p"

text \<open>A goroutine holds the read lock of the queue while it waits to send.\<close>

definition sending :: "goroutine \<Rightarrow> bool" where
  "sending g = (case snd g of Send _ _ _ # _ \<Rightarrow> True | _ \<Rightarrow> False)"

definition all_ended :: "role \<Rightarrow> 'd pool \<Rightarrow> bool" where
  "all_ended r p \<longleftrightarrow> (\<forall>g \<in> set (p_threads p). fst g = r \<longrightarrow> snd g = [])"

definition spawn :: "goroutine list \<Rightarrow> 'd pool \<Rightarrow> 'd pool" where
  "spawn gs p = p\<lparr>p_threads := p_threads p @ gs\<rparr>"

definition undo_count :: "job \<Rightarrow> statement list" where
  "undo_count j = [CountedDelete (ID j), InFlightAdd (- 1)]"

definition release_job :: "job \<Rightarrow> statement list" where
  "release_job j = [CountedDelete (ID j), InFlightAdd (- 1), CheckDone]"

text \<open>
  The operations below answer with the statements to execute next and the new state, or
  with \<open>None\<close> while they are blocked.
\<close>

type_synonym 'd step_result = "(statement list \<times> 'd pool) option"

subsection \<open>Lifecycle\<close>

definition pool_Start :: "'d pool_config \<Rightarrow> 'd pool \<Rightarrow> 'd step_result" where
  "pool_Start c p =
     (if p_started p \<or> p_stopping p then Some ([], p)
      else Some ([], spawn ((if cf_store c = None then [] else [(Poller, [PollLoop])]) @ replicate (cf_size c) (Worker, [Dequeue]))
        (p\<lparr>p_started := True\<rparr>)))"

definition pool_Shutdown :: "'d pool \<Rightarrow> 'd step_result" where
  "pool_Shutdown p =
     (if p_shutdown_once p then Some ([WaitShutdown], p)
      else Some ([StopAccepting, ClosePollStop, SpawnCloser, WaitShutdown], p\<lparr>p_shutdown_once := True, p_stopping := True\<rparr>))"

definition closer :: "statement list" where
  "closer = [WaitPoller, WaitSubmits, CloseSignal, CloseLocked, WaitWorkers, CloseShutdownDone]"

definition wait_for :: "bool \<Rightarrow> 'd pool \<Rightarrow> 'd step_result" where
  "wait_for b p = (if b then Some ([], p) else None)"

definition close_locked :: "'d pool \<Rightarrow> 'd step_result" where
  "close_locked p = (if \<exists>g \<in> set (p_threads p). sending g then None else Some ([], p\<lparr>q_closed := True\<rparr>))"

definition checkDone :: "'d pool \<Rightarrow> 'd pool" where
  "checkDone p = (if p_inFlight p = 0 then p\<lparr>p_done := True\<rparr> else p)"

subsection \<open>Submitting\<close>

text \<open>
  \<^verbatim>\<open>queue.Submit\<close> takes its three continuations: success, \<^verbatim>\<open>ErrClosed\<close>, any other
  error; \<^verbatim>\<open>Persist\<close> takes success and error.
\<close>

definition pool_Submit :: "job \<Rightarrow> statement list \<Rightarrow> 'd pool \<Rightarrow> 'd step_result" where
  "pool_Submit j shut p =
     (if p_stopping p then Some (shut, p)
      else Some ([CountedStore (ID j), InFlightAdd 1,
          QueueSubmit j [SubmitWGDone] (undo_count j @ [SubmitWGDone] @ shut) (undo_count j @ [SubmitWGDone])],
        p\<lparr>p_submitWG := p_submitWG p + 1\<rparr>))"

definition queue_Submit :: "'d pool_config \<Rightarrow> time \<Rightarrow> job \<Rightarrow> statement list \<Rightarrow> statement list \<Rightarrow> statement list \<Rightarrow> 'd pool \<Rightarrow> 'd step_result" where
  "queue_Submit c now j ok closed err p =
     (if q_closed p then Some (closed, p)
      else case cf_queue_store c of
             None \<Rightarrow> Some ([Send j ok closed], p)
           | Some S \<Rightarrow> (case js_create S now j (p_db p) of
                 Inl _ \<Rightarrow> Some (err, p)
               | Inr d \<Rightarrow> Some ([Send zero_job ok closed], p\<lparr>p_db := d\<rparr>)))"

text \<open>The \<^verbatim>\<open>select\<close> of a sender: the channel has room, or the queue is closing.\<close>

definition queue_send :: "event \<Rightarrow> job \<Rightarrow> statement list \<Rightarrow> statement list \<Rightarrow> 'd pool \<Rightarrow> 'd step_result" where
  "queue_send e j ok closed p =
     (if e = Go \<and> is_room p then Some (ok, p\<lparr>q_ch := q_ch p @ [j]\<rparr>)
      else if e = Closing \<and> q_closing p then Some (closed, p)
      else None)"

definition queue_Persist :: "'d pool_config \<Rightarrow> time \<Rightarrow> job \<Rightarrow> statement list \<Rightarrow> statement list \<Rightarrow> 'd pool \<Rightarrow> 'd step_result" where
  "queue_Persist c now j ok err p =
     (case cf_queue_store c of
        None \<Rightarrow> Some (err, p)
      | Some S \<Rightarrow> (case js_create S now j (p_db p) of Inl _ \<Rightarrow> Some (err, p) | Inr d \<Rightarrow> Some (ok, p\<lparr>p_db := d\<rparr>)))"

subsection \<open>The workers\<close>

definition queue_Dequeue :: "'d pool_config \<Rightarrow> 'd pool \<Rightarrow> 'd step_result" where
  "queue_Dequeue c p =
     (case q_ch p of
        [] \<Rightarrow> if q_closed p then Some ([], p) else None
      | j # js \<Rightarrow>
          let p1 = p\<lparr>q_ch := js\<rparr>
          in if cf_queue_store c = None then Some ([Running j], p1)
             else if ID j \<noteq> [] \<and> Status j = StatusRunning then Some ([Running j], p1)
             else Some ([DequeueAcquire], p1))"

definition dequeue_acquire :: "'d pool_config \<Rightarrow> time \<Rightarrow> 'd pool \<Rightarrow> 'd step_result" where
  "dequeue_acquire c now p =
     (case cf_queue_store c of
        None \<Rightarrow> None
      | Some S \<Rightarrow> (case js_acquire S now (p_db p) of
            Inl _ \<Rightarrow> Some ([Dequeue], p)
          | Inr None \<Rightarrow> Some ([Dequeue], p)
          | Inr (Some (j, d)) \<Rightarrow> Some ([Running j], p\<lparr>p_db := d\<rparr>)))"

text \<open>What the worker does with the job once its handler has answered.\<close>

definition handled_error :: "'d pool_config \<Rightarrow> time \<Rightarrow> job \<Rightarrow> go_error \<Rightarrow> statement list" where
  "handled_error c now j0 err =
     (let j = j0\<lparr>Attempts := Attempts j0 + 1\<rparr>
      in if Attempts j < MaxAttempts j
         then let delay = cf_backoff c (Attempts j)
              in if cf_store c = None then [QueueSubmit j [] [] [], Dequeue]
                 else [RetryStored (j\<lparr>ScheduledAt := now + delay\<rparr>), Dequeue]
         else [DeadLetter (j\<lparr>Status := StatusDeadLettered\<rparr>) err] @ release_job j @ [Dequeue])"

definition handled_ok :: "job \<Rightarrow> job list \<Rightarrow> statement list" where
  "handled_ok j newJobs =
     [CompleteStored (j\<lparr>Status := StatusCompleted\<rparr>)] @ map SubmitChild newJobs @ release_job j @ [Dequeue]"

definition handler_answer :: "'d pool_config \<Rightarrow> time \<Rightarrow> event \<Rightarrow> job \<Rightarrow> 'd pool \<Rightarrow> 'd step_result" where
  "handler_answer c now e j p =
     (case e of
        Handled (Inl err) \<Rightarrow> Some (handled_error c now j err, p)
      | Handled (Inr js) \<Rightarrow> Some (handled_ok j js, p)
      | _ \<Rightarrow> None)"

definition retry_stored :: "'d pool_config \<Rightarrow> job \<Rightarrow> 'd pool \<Rightarrow> 'd pool" where
  "retry_stored c j p =
     (case cf_store c of
        None \<Rightarrow> p
      | Some S \<Rightarrow> p\<lparr>p_db := after_store (js_retry S j (p_db p)) (p_db p)\<rparr>)"

definition dead_letter :: "'d pool_config \<Rightarrow> time \<Rightarrow> job \<Rightarrow> go_error \<Rightarrow> 'd pool \<Rightarrow> 'd pool" where
  "dead_letter c now j err p =
     (case cf_dlq c of
        Some dlq_store \<Rightarrow> let (es, d) = Publish dlq_store now j err (p_dlq p) (p_db p) in p\<lparr>p_dlq := es, p_db := d\<rparr>
      | None \<Rightarrow> (case cf_store c of
            None \<Rightarrow> p
          | Some S \<Rightarrow> p\<lparr>p_db := after_store (js_dead S now j (Some err) (p_db p)) (p_db p)\<rparr>))"

definition complete_stored :: "'d pool_config \<Rightarrow> job \<Rightarrow> 'd pool \<Rightarrow> 'd pool" where
  "complete_stored c j p =
     (case cf_store c of
        None \<Rightarrow> p
      | Some S \<Rightarrow> p\<lparr>p_db := after_store (js_complete S (ID j) (p_db p)) (p_db p)\<rparr>)"

definition submitChild :: "'d pool_config \<Rightarrow> job \<Rightarrow> 'd pool \<Rightarrow> 'd step_result" where
  "submitChild c j p =
     (if \<not> p_accepting p then Some ([Persist j [] []], p)
      else if cf_store c = None then Some ([PoolSubmit j [Persist j [] []]], p)
      else Some ([PersistChildForDispatch j], p))"

definition persistChildForDispatch :: "job \<Rightarrow> 'd pool \<Rightarrow> 'd step_result" where
  "persistChildForDispatch j p =
     (if p_stopping p then Some ([Persist j [] []], p)
      else Some ([CountedStore (ID j), InFlightAdd 1, Persist j [SubmitWGDone] (undo_count j @ [SubmitWGDone])],
        p\<lparr>p_submitWG := p_submitWG p + 1\<rparr>))"

subsection \<open>The poller\<close>

definition pollLoop :: "event \<Rightarrow> 'd pool \<Rightarrow> 'd step_result" where
  "pollLoop e p =
     (case e of
        ContextDone \<Rightarrow> Some ([], p)
      | PollStopped \<Rightarrow> wait_for (p_pollStop p) p
      | DoneClosed \<Rightarrow> wait_for (p_done p) p
      | Tick \<Rightarrow> Some ([DispatchReady, PollLoop], p)
      | _ \<Rightarrow> None)"

definition poll_acquire :: "'d pool_config \<Rightarrow> time \<Rightarrow> 'd pool \<Rightarrow> 'd step_result" where
  "poll_acquire c now p =
     (case cf_store c of
        None \<Rightarrow> None
      | Some S \<Rightarrow> (case js_acquire S now (p_db p) of
            Inl _ \<Rightarrow> Some ([], p)
          | Inr None \<Rightarrow> Some ([], p)
          | Inr (Some (j, d)) \<Rightarrow> Some ([LoadOrStore (ID j), DispatchAcquired j], p\<lparr>p_db := d\<rparr>)))"

definition load_or_store :: "id \<Rightarrow> 'd pool \<Rightarrow> 'd step_result" where
  "load_or_store i p =
     (if i \<in> p_counted p then Some ([], p)
      else Some ([InFlightAdd 1], p\<lparr>p_counted := insert i (p_counted p)\<rparr>))"

definition queue_DispatchAcquired :: "job \<Rightarrow> 'd pool \<Rightarrow> 'd step_result" where
  "queue_DispatchAcquired j p = (if q_closed p then Some ([], p) else Some ([Send j [DispatchReady] []], p))"

section \<open>The pool as a transition system\<close>

definition exec :: "'d pool_config \<Rightarrow> time \<Rightarrow> event \<Rightarrow> statement \<Rightarrow> 'd pool \<Rightarrow> 'd step_result" where
  "exec c now e i p =
     (case i of
        Start \<Rightarrow> pool_Start c p
      | Shutdown \<Rightarrow> pool_Shutdown p
      | StopAccepting \<Rightarrow> Some ([], p\<lparr>p_accepting := False\<rparr>)
      | ClosePollStop \<Rightarrow> Some ([], p\<lparr>p_pollStop := True\<rparr>)
      | SpawnCloser \<Rightarrow> Some ([], spawn [(Closer, closer)] p)
      | WaitShutdown \<Rightarrow> wait_for (p_shutdownDone p \<or> e = ContextDone) p
      | WaitPoller \<Rightarrow> wait_for (all_ended Poller p) p
      | WaitSubmits \<Rightarrow> wait_for (p_submitWG p = 0) p
      | CloseSignal \<Rightarrow> Some ([], p\<lparr>q_closing := True\<rparr>)
      | CloseLocked \<Rightarrow> close_locked p
      | WaitWorkers \<Rightarrow> wait_for (all_ended Worker p) p
      | CloseShutdownDone \<Rightarrow> Some ([], p\<lparr>p_shutdownDone := True\<rparr>)
      | PoolSubmit j shut \<Rightarrow> pool_Submit j shut p
      | CountedStore j \<Rightarrow> Some ([], p\<lparr>p_counted := insert j (p_counted p)\<rparr>)
      | CountedDelete j \<Rightarrow> Some ([], p\<lparr>p_counted := p_counted p - {j}\<rparr>)
      | InFlightAdd n \<Rightarrow> Some ([], p\<lparr>p_inFlight := p_inFlight p + n\<rparr>)
      | SubmitWGDone \<Rightarrow> Some ([], p\<lparr>p_submitWG := p_submitWG p - 1\<rparr>)
      | CheckDone \<Rightarrow> Some ([], checkDone p)
      | QueueSubmit j ok closed err \<Rightarrow> queue_Submit c now j ok closed err p
      | Send j ok closed \<Rightarrow> queue_send e j ok closed p
      | Persist j ok err \<Rightarrow> queue_Persist c now j ok err p
      | Dequeue \<Rightarrow> queue_Dequeue c p
      | DequeueAcquire \<Rightarrow> dequeue_acquire c now p
      | Running j \<Rightarrow> Some ([Handle (j\<lparr>Status := StatusRunning\<rparr>)], p\<lparr>p_counted := insert (ID j) (p_counted p)\<rparr>)
      | Handle j \<Rightarrow> handler_answer c now e j p
      | RetryStored j \<Rightarrow> Some ([], retry_stored c j p)
      | DeadLetter j err \<Rightarrow> Some ([], dead_letter c now j err p)
      | CompleteStored j \<Rightarrow> Some ([], complete_stored c j p)
      | SubmitChild j \<Rightarrow> submitChild c j p
      | PersistChildForDispatch j \<Rightarrow> persistChildForDispatch j p
      | PollLoop \<Rightarrow> pollLoop e p
      | DispatchReady \<Rightarrow> Some (if p_pollStop p then [] else [PollAcquire], p)
      | PollAcquire \<Rightarrow> poll_acquire c now p
      | LoadOrStore j \<Rightarrow> load_or_store j p
      | DispatchAcquired j \<Rightarrow> queue_DispatchAcquired j p)"

text \<open>Goroutine \<open>k\<close> executes its next statement; \<open>None\<close> when it has none or is blocked.\<close>

definition run :: "'d pool_config \<Rightarrow> time \<Rightarrow> event \<Rightarrow> nat \<Rightarrow> 'd pool \<Rightarrow> 'd pool option" where
  "run c now e k p =
     (if k < length (p_threads p)
      then case p_threads p ! k of
             (r, []) \<Rightarrow> None
           | (r, i # is) \<Rightarrow> (case exec c now e i p of
                 None \<Rightarrow> None
               | Some (new, p1) \<Rightarrow> Some (p1\<lparr>p_threads := (p_threads p1)[k := (r, new @ is)]\<rparr>))
      else None)"

text \<open>A caller outside starts the pool, submits a job or asks for the shutdown.\<close>

definition request :: "statement \<Rightarrow> bool" where
  "request i = (case i of Start \<Rightarrow> True | Shutdown \<Rightarrow> True | PoolSubmit j shut \<Rightarrow> shut = [] | _ \<Rightarrow> False)"

inductive pool_step :: "'d pool_config \<Rightarrow> 'd pool \<Rightarrow> 'd pool \<Rightarrow> bool" for c :: "'d pool_config" where
  step_run: "run c now e k p = Some p' \<Longrightarrow> pool_step c p p'"
| step_call: "request i \<Longrightarrow> pool_step c p (spawn [(Caller, [i])] p)"

text \<open>\<^verbatim>\<open>NewWithOptions\<close> over a queue.\<close>

definition NewWithOptions :: "job list \<Rightarrow> nat \<Rightarrow> 'd \<Rightarrow> 'd pool" where
  "NewWithOptions ch cap d = \<lparr>q_ch = ch, q_cap = cap, q_closing = False, q_closed = False, p_db = d, p_dlq = [],
     p_inFlight = int (length ch), p_counted = {}, p_done = False, p_started = False, p_stopping = False,
     p_accepting = True, p_pollStop = False, p_shutdown_once = False, p_shutdownDone = False, p_submitWG = 0, p_threads = []\<rparr>"

definition pool_reachable :: "'d pool_config \<Rightarrow> 'd pool \<Rightarrow> bool" where
  "pool_reachable c p \<longleftrightarrow> (\<exists>ch cap d. length ch \<le> cap \<and> (pool_step c)\<^sup>*\<^sup>* (NewWithOptions ch cap d) p)"

text \<open>A schedule executed step by step, for concrete runs.\<close>

fun run_all :: "'d pool_config \<Rightarrow> (nat \<times> event) list \<Rightarrow> 'd pool \<Rightarrow> 'd pool option" where
  "run_all c [] p = Some p"
| "run_all c ((k, e) # es) p = (case run c 0 e k p of None \<Rightarrow> None | Some p1 \<Rightarrow> run_all c es p1)"

end
