(* ===== verification/Pool_Theorems.thy ===== *)
theory Pool_Theorems
  imports Worker_Pool
begin

text \<open>
  What the worker pool guarantees. In memory, every queued or running job is covered by
  \<^verbatim>\<open>inFlight\<close>, so \<^verbatim>\<open>done\<close> closes only on an idle pool. In both modes a finished
  shutdown has closed the queue, ended every goroutine and drained the channel. A worker
  that submits children to a full queue, on the other hand, blocks the shutdown for ever.
\<close>

section \<open>The counter of jobs in flight\<close>

text \<open>
  The jobs a statement list still stands for: a job held by the statement is one, a pending
  change of the counter is already settled.
\<close>

fun weight :: "statement \<Rightarrow> int" where
  "weight (InFlightAdd n) = - n"
| "weight (QueueSubmit j ok closed err) = 1"
| "weight (Send j ok closed) = 1"
| "weight (Running j) = 1"
| "weight (Handle j) = 1"
| "weight _ = 0"

definition weights :: "statement list \<Rightarrow> int" where
  "weights ws = sum_list (map weight ws)"

lemma weights_simps [simp]:
  "weights [] = 0" "weights (i # ws) = weight i + weights ws" "weights (vs @ ws) = weights vs + weights ws"
  by (simp_all add: weights_def)

lemma weights_children [simp]: "weights (map SubmitChild js) = 0"
  by (induction js) simp_all

lemma weights_release [simp]: "weights (release_job j) = 1" "weights (undo_count j) = 1"
  by (simp_all add: release_job_def undo_count_def)

text \<open>The forms of a goroutine inside \<^verbatim>\<open>Pool.Submit\<close> of an in-memory pool.\<close>

definition closed_path :: "job \<Rightarrow> statement list \<Rightarrow> statement list" where
  "closed_path j shut = undo_count j @ [SubmitWGDone] @ shut"

definition error_path :: "job \<Rightarrow> statement list" where
  "error_path j = undo_count j @ [SubmitWGDone]"

definition enqueue :: "job \<Rightarrow> statement list \<Rightarrow> statement" where
  "enqueue j shut = QueueSubmit j [SubmitWGDone] (closed_path j shut) (error_path j)"

inductive submitting :: "statement list \<Rightarrow> statement list \<Rightarrow> bool" for shut where
  "submitting shut []"
| "submitting shut shut"
| "submitting shut [PoolSubmit j shut]"
| "submitting shut [CountedStore k, InFlightAdd 1, enqueue j shut]"
| "submitting shut [InFlightAdd 1, enqueue j shut]"
| "submitting shut [enqueue j shut]"
| "submitting shut [Send j [SubmitWGDone] (closed_path j shut)]"
| "submitting shut [SubmitWGDone]"
| "submitting shut (SubmitWGDone # shut)"
| "submitting shut (InFlightAdd (- 1) # SubmitWGDone # shut)"
| "submitting shut (CountedDelete k # InFlightAdd (- 1) # SubmitWGDone # shut)"
| "submitting shut [InFlightAdd (- 1), SubmitWGDone]"
| "submitting shut [CountedDelete k, InFlightAdd (- 1), SubmitWGDone]"

definition persist_only :: "statement list \<Rightarrow> bool" where
  "persist_only shut \<longleftrightarrow> shut = [] \<or> (\<exists>j. shut = [Persist j [] []])"

definition idle :: "statement list \<Rightarrow> bool" where
  "idle ws \<longleftrightarrow> ws \<in> {[], [Dequeue], [CheckDone, Dequeue]}"

definition finishing :: "job \<Rightarrow> job list \<Rightarrow> statement list" where
  "finishing j js = map SubmitChild js @ release_job j @ [Dequeue]"

inductive working :: "statement list \<Rightarrow> bool" where
  "working [Running j]"
| "working [Handle j]"
| "working [QueueSubmit j [] [] [], Dequeue]"
| "working [Send j [] [], Dequeue]"
| "working (DeadLetter j' err # finishing j [])"
| "working (CompleteStored j' # finishing j js)"
| "persist_only shut \<Longrightarrow> submitting shut ws \<Longrightarrow> working (ws @ finishing j js)"
| "working [InFlightAdd (- 1), CheckDone, Dequeue]"

definition calling :: "statement list \<Rightarrow> bool" where
  "calling ws \<longleftrightarrow> submitting [] ws \<or> ws = [Start] \<or> ws = [Shutdown] \<or> ws \<in> set (suffixes [StopAccepting, ClosePollStop, SpawnCloser, WaitShutdown])"

definition shaped :: "goroutine \<Rightarrow> bool" where
  "shaped g =
     (case fst g of
        Worker \<Rightarrow> idle (snd g) \<or> working (snd g)
      | Caller \<Rightarrow> calling (snd g)
      | Closer \<Rightarrow> snd g \<in> set (suffixes closer)
      | Poller \<Rightarrow> False)"

definition in_memory :: "'d pool_config \<Rightarrow> bool" where
  "in_memory c \<longleftrightarrow> cf_store c = None \<and> cf_queue_store c = None"

lemma submitting_weight:
  assumes "submitting shut ws" "persist_only shut"
  shows "0 \<le> weights ws"
  using assms by (cases rule: submitting.cases) (auto simp: persist_only_def enqueue_def)

lemma working_weight: "working ws \<Longrightarrow> 1 \<le> weights ws"
  by (cases rule: working.cases) (auto simp: finishing_def dest: submitting_weight)

lemma shaped_weight: "shaped g \<Longrightarrow> 0 \<le> weights (snd g)"
  by (auto simp: shaped_def calling_def idle_def closer_def persist_only_def
      dest: working_weight submitting_weight split: role.splits)

text \<open>One statement of an in-memory pool: the form of the goroutine and the balance are kept.\<close>

definition balance :: "'d pool \<Rightarrow> int" where
  "balance p = p_inFlight p - int (length (q_ch p))"

lemmas exec_simps = exec_def pool_Start_def pool_Shutdown_def wait_for_def close_locked_def checkDone_def pool_Submit_def
  queue_Submit_def queue_send_def queue_Persist_def queue_Dequeue_def dequeue_acquire_def handler_answer_def retry_stored_def
  dead_letter_def complete_stored_def submitChild_def persistChildForDispatch_def pollLoop_def poll_acquire_def
  load_or_store_def queue_DispatchAcquired_def spawn_def

lemmas path_simps = enqueue_def closed_path_def error_path_def undo_count_def

lemmas submitting_forms = submitting.intros [unfolded path_simps, simplified]

lemma submitting_step:
  assumes "submitting shut (i # is)" "persist_only shut" "in_memory c" "exec c now e i p = Some (new, p1)"
  shows "submitting shut (new @ is) \<and> balance p - weights (i # is) \<le> balance p1 - weights (new @ is)
    \<and> p_threads p1 = p_threads p \<and> p_done p1 = p_done p"
  using assms(1)
proof (cases rule: submitting.cases)
  case 2
  then show ?thesis using assms(2-) by (auto simp: persist_only_def exec_simps in_memory_def intro: submitting.intros)
next
  case (3 j)
  then show ?thesis using assms(2,4)
    by (auto simp: exec_simps path_simps balance_def persist_only_def intro: submitting_forms split: if_splits)
next
  case (6 j)
  then show ?thesis using assms(2-4)
    by (auto simp: exec_simps in_memory_def path_simps balance_def persist_only_def intro: submitting_forms split: if_splits)
next
  case (7 j)
  then show ?thesis using assms(2-4)
    by (auto simp: exec_simps in_memory_def path_simps balance_def persist_only_def intro: submitting_forms split: if_splits)
qed (use assms(2-) in \<open>auto simp: exec_simps in_memory_def path_simps balance_def persist_only_def intro: submitting_forms\<close>)

lemma finishing_step:
  assumes "finishing j js = i # is" "in_memory c" "exec c now e i p = Some (new, p1)"
  shows "working (new @ is) \<and> balance p - weights (i # is) \<le> balance p1 - weights (new @ is)
    \<and> p_threads p1 = p_threads p \<and> p_done p1 = p_done p"
proof (cases js)
  case Nil
  then show ?thesis using assms
    by (auto simp: finishing_def release_job_def exec_simps balance_def intro: working.intros)
next
  case (Cons k ks)
  have "working ([Persist k [] []] @ finishing j ks)" "working ([PoolSubmit k [Persist k [] []]] @ finishing j ks)"
    by (rule working.intros(7) [of "[Persist k [] []]"]; simp add: persist_only_def submitting.intros)+
  then show ?thesis using assms Cons
    by (auto simp: finishing_def exec_simps balance_def in_memory_def split: if_splits)
qed

lemma working_step:
  assumes "working (i # is)" "in_memory c" "exec c now e i p = Some (new, p1)"
  shows "(idle (new @ is) \<or> working (new @ is)) \<and> balance p - weights (i # is) \<le> balance p1 - weights (new @ is)
    \<and> p_threads p1 = p_threads p \<and> p_done p1 = p_done p"
  using assms(1)
proof (cases rule: working.cases)
  case (2 j)
  have d: "working (DeadLetter j' err # finishing k [])" "working (CompleteStored j' # finishing k js)"
    "working [QueueSubmit k [] [] [], Dequeue]" for j' err k js
    by (rule working.intros)+
  show ?thesis using 2 assms(2,3) d
    by (auto simp: exec_simps in_memory_def handled_error_def handled_ok_def Let_def finishing_def balance_def
        split: event.splits sum.splits if_splits)
next
  case (5 j' err j)
  have "working ([] @ finishing j [])" by (rule working.intros(7) [of "[]"]) (simp_all add: persist_only_def submitting.intros)
  then show ?thesis using 5 assms(2,3) by (auto simp: exec_simps in_memory_def balance_def Publish_def split: option.splits)
next
  case (6 j' j js)
  have "working ([] @ finishing j js)" by (rule working.intros(7) [of "[]"]) (simp_all add: persist_only_def submitting.intros)
  then show ?thesis using 6 assms(2,3) by (auto simp: exec_simps in_memory_def balance_def)
next
  case (7 shut ws j js)
  show ?thesis
  proof (cases ws)
    case Nil
    then have "finishing j js = i # is" using 7(1) by simp
    from finishing_step [OF this assms(2,3)] show ?thesis by blast
  next
    case (Cons a as)
    then have a: "a = i" "is = as @ finishing j js" using 7(1) by auto
    note s = submitting_step [OF _ 7(2) assms(2,3), of as]
    show ?thesis using s 7(2,3) Cons a working.intros(7) [OF 7(2), of "new @ as" j js] by simp
  qed
qed (use assms(2,3) in \<open>auto simp: exec_simps in_memory_def balance_def idle_def intro: working.intros split: if_splits\<close>)

lemma idle_step:
  assumes "idle (i # is)" "in_memory c" "exec c now e i p = Some (new, p1)"
  shows "(idle (new @ is) \<or> working (new @ is)) \<and> balance p - weights (i # is) \<le> balance p1 - weights (new @ is)
    \<and> p_threads p1 = p_threads p \<and> (p_done p1 \<longrightarrow> p_done p \<or> p_inFlight p1 = 0)"
  using assms
  by (auto simp: idle_def exec_simps in_memory_def balance_def Let_def intro: working.intros split: list.splits if_splits)

lemma caller_step:
  assumes "calling (i # is)" "in_memory c" "exec c now e i p = Some (new, p1)"
  shows "calling (new @ is) \<and> balance p - weights (i # is) \<le> balance p1 - weights (new @ is)
    \<and> (\<exists>gs. p_threads p1 = p_threads p @ gs \<and> (\<forall>g \<in> set gs. shaped g \<and> weights (snd g) = 0)) \<and> p_done p1 = p_done p"
proof (cases "submitting [] (i # is)")
  case True
  from submitting_step [OF this _ assms(2,3)] show ?thesis by (simp add: persist_only_def calling_def)
next
  case False
  then have f: "i # is \<in> {[Start], [Shutdown], [StopAccepting, ClosePollStop, SpawnCloser, WaitShutdown],
      [ClosePollStop, SpawnCloser, WaitShutdown], [SpawnCloser, WaitShutdown], [WaitShutdown]}"
    using assms(1) by (auto simp: calling_def)
  have sp: "shaped (Closer, closer)" "weights closer = 0" by (simp_all add: shaped_def closer_def)
  have wk: "shaped (Worker, [Dequeue])" by (simp add: shaped_def idle_def)
  show ?thesis using f assms(2,3) sp wk
    by (auto simp: exec_simps in_memory_def calling_def balance_def submitting.intros split: if_splits)
qed

lemma goroutine_step:
  assumes "shaped (r, i # is)" "in_memory c" "exec c now e i p = Some (new, p1)"
  shows "shaped (r, new @ is) \<and> balance p - weights (i # is) \<le> balance p1 - weights (new @ is)
    \<and> (\<exists>gs. p_threads p1 = p_threads p @ gs \<and> (\<forall>g \<in> set gs. shaped g \<and> weights (snd g) = 0))
    \<and> (p_done p1 \<longrightarrow> p_done p \<or> p_inFlight p1 = 0)"
proof (cases r)
  case Worker
  then show ?thesis
    using assms(1) idle_step [OF _ assms(2,3), of "is"] working_step [OF _ assms(2,3), of "is"] by (auto simp: shaped_def)
next
  case Caller
  then show ?thesis using assms(1) caller_step [OF _ assms(2,3), of "is"] by (auto simp: shaped_def)
next
  case Closer
  then have "i # is \<in> set (suffixes closer)" using assms(1) by (simp add: shaped_def)
  then show ?thesis using Closer assms(3)
    by (auto simp: shaped_def closer_def exec_simps balance_def split: if_splits)
qed (use assms in \<open>simp add: shaped_def\<close>)

definition covered :: "'d pool \<Rightarrow> bool" where
  "covered p \<longleftrightarrow> (\<forall>g \<in> set (p_threads p). shaped g) \<and> (\<Sum>g\<leftarrow>p_threads p. weights (snd g)) \<le> balance p"

lemma run_cases:
  assumes "run c now e k p = Some p'"
  obtains r i "is" new p1 where "k < length (p_threads p)" "p_threads p ! k = (r, i # is)" "exec c now e i p = Some (new, p1)"
    "p' = p1\<lparr>p_threads := (p_threads p1)[k := (r, new @ is)]\<rparr>"
  using assms by (auto simp: run_def split: if_splits prod.splits list.splits option.splits)

lemma sum_list_update_int:
  fixes f :: "'a \<Rightarrow> int"
  assumes "k < length xs"
  shows "(\<Sum>x\<leftarrow>xs[k := y]. f x) = (\<Sum>x\<leftarrow>xs. f x) - f (xs ! k) + f y"
  using assms
proof (induction xs arbitrary: k)
  case (Cons a xs)
  then show ?case by (cases k) auto
qed simp

lemma nth_update_other: "m < length xs \<Longrightarrow> m \<noteq> k \<Longrightarrow> xs ! m \<in> set (xs[k := y])"
  by (metis length_list_update nth_list_update_neq nth_mem)

lemma covered_run:
  assumes "covered p" "in_memory c" "run c now e k p = Some p'"
  shows "covered p' \<and> (p_done p' \<longrightarrow> p_done p \<or> p_inFlight p' = 0)"
proof -
  obtain r i "is" new p1 where k: "k < length (p_threads p)" "p_threads p ! k = (r, i # is)"
    and x: "exec c now e i p = Some (new, p1)" and p': "p' = p1\<lparr>p_threads := (p_threads p1)[k := (r, new @ is)]\<rparr>"
    using run_cases [OF assms(3)] .
  have "shaped (r, i # is)" using assms(1) k by (metis covered_def nth_mem)
  from goroutine_step [OF this assms(2) x] obtain gs where
    s: "shaped (r, new @ is)" "balance p - weights (i # is) \<le> balance p1 - weights (new @ is)"
    "p_threads p1 = p_threads p @ gs" "\<forall>g \<in> set gs. shaped g \<and> weights (snd g) = 0" "p_done p1 \<longrightarrow> p_done p \<or> p_inFlight p1 = 0"
    by blast
  have z: "(\<Sum>g\<leftarrow>gs. weights (snd g)) = 0" using s(4) by (induction gs) auto
  have sum: "(\<Sum>g\<leftarrow>p_threads p'. weights (snd g)) = (\<Sum>g\<leftarrow>p_threads p. weights (snd g)) - weights (i # is) + weights (new @ is)"
    using k z by (simp add: p' s(3) sum_list_update_int list_update_append)
  have "\<forall>g \<in> set (p_threads p'). shaped g"
    using assms(1) s(1,4) set_update_subset_insert [of "p_threads p1" k] unfolding p' covered_def s(3) by fastforce
  moreover have "balance p' = balance p1" by (simp add: p' balance_def)
  ultimately have "covered p'" using assms(1) s(2) sum by (simp add: covered_def)
  then show ?thesis using s(5) by (simp add: p')
qed

lemma covered_step:
  assumes "pool_step c p p'" "in_memory c" "covered p"
  shows "covered p' \<and> (p_done p' \<longrightarrow> p_done p \<or> p_inFlight p' = 0)"
  using assms(1)
proof cases
  case (step_run now e k)
  then show ?thesis using covered_run assms(2,3) by blast
next
  case (step_call i)
  have "shaped (Caller, [i]) \<and> weight i = 0"
    using step_call(2) by (auto simp: request_def shaped_def calling_def intro: submitting.intros split: statement.splits)
  then show ?thesis using assms(3) step_call(1) by (auto simp: covered_def spawn_def balance_def)
qed

lemma covered_reachable: "pool_reachable c p \<Longrightarrow> in_memory c \<Longrightarrow> covered p"
proof -
  assume c: "in_memory c" and "pool_reachable c p"
  then obtain ch cap d where "(pool_step c)\<^sup>*\<^sup>* (NewWithOptions ch cap d) p" by (auto simp: pool_reachable_def)
  then show ?thesis
  proof (induction rule: rtranclp_induct)
    case base
    then show ?case by (simp add: covered_def NewWithOptions_def balance_def)
  next
    case (step y z)
    then show ?case using covered_step [OF _ c] by blast
  qed
qed

lemma sum_list_zero:
  fixes f :: "'a \<Rightarrow> int"
  assumes "\<forall>x \<in> set xs. 0 \<le> f x" "(\<Sum>x\<leftarrow>xs. f x) \<le> 0"
  shows "\<forall>x \<in> set xs. f x = 0"
  using assms
proof (induction xs)
  case (Cons a xs)
  moreover have "0 \<le> (\<Sum>x\<leftarrow>xs. f x)" using Cons.prems(1) by (intro sum_list_nonneg) auto
  ultimately show ?case by auto
qed simp

lemma covered_idle:
  assumes "covered p" "p_inFlight p = 0"
  shows "q_ch p = [] \<and> (\<forall>g \<in> set (p_threads p). fst g = Worker \<longrightarrow> idle (snd g))"
proof -
  let ?s = "\<Sum>g\<leftarrow>p_threads p. weights (snd g)"
  have nn: "\<forall>g \<in> set (p_threads p). 0 \<le> weights (snd g)" using assms(1) shaped_weight by (auto simp: covered_def)
  then have "0 \<le> ?s" by (intro sum_list_nonneg) auto
  moreover have "?s \<le> - int (length (q_ch p))" using assms by (simp add: covered_def balance_def)
  ultimately have "int (length (q_ch p)) = 0" "?s \<le> 0" by linarith+
  then have "q_ch p = []" "?s \<le> 0" by simp_all
  moreover have "idle (snd g)" if "g \<in> set (p_threads p)" "fst g = Worker" for g
  proof -
    have "weights (snd g) = 0" using sum_list_zero [OF nn] \<open>?s \<le> 0\<close> that(1) by blast
    moreover have "idle (snd g) \<or> working (snd g)" using assms(1) that by (auto simp: covered_def shaped_def)
    ultimately show ?thesis using working_weight by force
  qed
  ultimately show ?thesis by blast
qed


text \<open>A run of one worker that handles one job, as the witness.\<close>

lemma run_all_steps: "run_all c es p = Some q \<Longrightarrow> (pool_step c)\<^sup>*\<^sup>* p q"
proof (induction es arbitrary: p)
  case (Cons x es)
  obtain k e where x: "x = (k, e)" by (cases x)
  with Cons.prems obtain p1 where "run c 0 e k p = Some p1" "run_all c es p1 = Some q" by (auto split: option.splits)
  then show ?case using Cons.IH step_run by (metis converse_rtranclp_into_rtranclp)
qed simp

lemma call_then_run:
  assumes "length ch \<le> cap" "request i" "run_all c es (spawn [(Caller, [i])] (NewWithOptions ch cap d)) = Some p"
  shows "pool_reachable c p"
  using assms run_all_steps step_call converse_rtranclp_into_rtranclp unfolding pool_reachable_def by metis

definition memory_config :: "nat \<Rightarrow> unit pool_config" where
  "memory_config n = \<lparr>cf_size = n, cf_store = None, cf_queue_store = None, cf_dlq = None, cf_backoff = (\<lambda>_. 0)\<rparr>"

definition sample_job :: "id \<Rightarrow> job" where
  "sample_job i = zero_job\<lparr>ID := i, MaxAttempts := 1\<rparr>"

definition one_job_started :: "unit pool" where
  "one_job_started = spawn [(Caller, [Start])] (NewWithOptions [sample_job ''a''] 1 ())"

definition one_job_schedule :: "(nat \<times> event) list" where
  "one_job_schedule = [(0, Go), (1, Go), (1, Go), (1, Handled (Inr [])), (1, Go), (1, Go), (1, Go)]"

lemmas pool_eval = run_def exec_simps NewWithOptions_def memory_config_def sample_job_def one_job_started_def one_job_schedule_def
  zero_job_def handled_ok_def handled_error_def release_job_def undo_count_def closer_def is_room_def Let_def


section \<open>Shutdown\<close>

text \<open>
  The statements that workers, the poller and submitters execute, continuations included,
  with senders only in front.
\<close>

fun plain :: "statement \<Rightarrow> bool" where
  "plain (PoolSubmit j shut) = list_all plain shut"
| "plain (QueueSubmit j ok closed err) = (list_all plain ok \<and> list_all plain closed \<and> list_all plain err)"
| "plain (Persist j ok err) = (list_all plain ok \<and> list_all plain err)"
| "plain i = (i \<notin> {Start, Shutdown, StopAccepting, ClosePollStop, SpawnCloser, WaitPoller, WaitSubmits,
     CloseSignal, CloseLocked, WaitWorkers, CloseShutdownDone} \<and> \<not> sending (Caller, [i]))"

definition head_ok :: "statement \<Rightarrow> bool" where
  "head_ok i = (case i of Send j ok closed \<Rightarrow> list_all plain ok \<and> list_all plain closed | _ \<Rightarrow> plain i)"

definition ordinary :: "statement list \<Rightarrow> bool" where
  "ordinary ws = (case ws of [] \<Rightarrow> True | i # is \<Rightarrow> list_all plain is \<and> head_ok i)"

definition loop_end :: "statement \<Rightarrow> bool" where
  "loop_end i = (case i of Dequeue \<Rightarrow> True | DequeueAcquire \<Rightarrow> True | Running j \<Rightarrow> True | Handle j \<Rightarrow> True | _ \<Rightarrow> False)"

definition stop_list :: "statement list" where
  "stop_list = [StopAccepting, ClosePollStop, SpawnCloser, WaitShutdown]"

lemma plain_not_sending: "plain i \<Longrightarrow> \<not> sending (r, i # is)"
  by (cases i) (auto simp: sending_def)

lemma plain_list_not_sending: "list_all plain ws \<Longrightarrow> \<not> sending (r, ws)"
proof (cases ws)
  case Nil
  then show ?thesis by (simp add: sending_def)
next
  case (Cons i "is")
  then show "list_all plain ws \<Longrightarrow> ?thesis" using plain_not_sending by simp
qed

lemma plain_head: "plain i \<Longrightarrow> head_ok i"
  by (cases i) (auto simp: head_ok_def sending_def)

lemma ordinary_plain: "list_all plain ws \<Longrightarrow> ordinary ws"
  by (cases ws) (auto simp: ordinary_def plain_head)

lemma ordinary_append: "list_all plain new \<Longrightarrow> list_all plain is \<Longrightarrow> ordinary (new @ is)"
  by (intro ordinary_plain) simp

lemma plain_children [simp]: "list_all plain (map SubmitChild js)"
  by (induction js) (simp_all add: sending_def)

lemma plain_handled: "list_all plain (handled_ok j js)" "list_all plain (handled_error c now j err)"
  by (simp_all add: handled_ok_def handled_error_def release_job_def sending_def Let_def)

text \<open>What an ordinary statement does to the state.\<close>

definition same_lifecycle :: "'d pool \<Rightarrow> 'd pool \<Rightarrow> bool" where
  "same_lifecycle p q \<longleftrightarrow> p_threads q = p_threads p \<and> p_stopping q = p_stopping p \<and> q_closed q = q_closed p
    \<and> p_shutdownDone q = p_shutdownDone p"

lemma ordinary_step:
  assumes "ordinary (i # is)" "exec c now e i p = Some (new, p1)"
  shows "ordinary (new @ is) \<and> same_lifecycle p p1 \<and> (q_closed p \<longrightarrow> \<not> sending (r, new @ is))
    \<and> (\<not> sending (r, i # is) \<longrightarrow> length (q_ch p1) \<le> length (q_ch p))"
proof -
  have tail: "list_all plain is" "head_ok i" using assms(1) by (simp_all add: ordinary_def)
  have "ordinary (new @ is)" if "list_all plain new" using ordinary_append that tail(1) by blast
  moreover have "\<not> sending (r, new @ is)" if "list_all plain new"
    by (rule plain_list_not_sending) (simp add: that tail(1))
  moreover have "(list_all plain new \<or> (\<exists>j ok closed. new = [Send j ok closed] \<and> head_ok (Send j ok closed) \<and> \<not> q_closed p))
      \<and> same_lifecycle p p1 \<and> (\<not> sending (r, i # is) \<longrightarrow> length (q_ch p1) \<le> length (q_ch p))"
    using tail(2) assms(2) plain_handled
    by (cases i)
      (auto simp: head_ok_def exec_simps same_lifecycle_def undo_count_def sending_def Publish_def Let_def
        split: if_splits option.splits sum.splits list.splits event.splits)
  ultimately show ?thesis using tail(1) by (auto simp: ordinary_def)
qed

text \<open>The forms of all goroutines, and what the progress of the closing goroutine stands for.\<close>

definition formed :: "'d pool \<Rightarrow> goroutine \<Rightarrow> bool" where
  "formed p g =
     (case fst g of
        Worker \<Rightarrow> ordinary (snd g) \<and> (if snd g = [] then q_ch p = [] \<and> q_closed p else loop_end (last (snd g)))
      | Poller \<Rightarrow> ordinary (snd g)
      | Caller \<Rightarrow> ordinary (snd g) \<or> snd g = [Start] \<or> snd g = [Shutdown] \<or> snd g \<in> set (suffixes stop_list) \<and> p_stopping p
      | Closer \<Rightarrow> snd g \<in> set (suffixes closer) \<and> p_stopping p
          \<and> (length (snd g) \<le> 5 \<longrightarrow> all_ended Poller p) \<and> (length (snd g) \<le> 2 \<longrightarrow> q_closed p)
          \<and> (length (snd g) \<le> 1 \<longrightarrow> all_ended Worker p))"

definition orderly :: "'d pool \<Rightarrow> bool" where
  "orderly p \<longleftrightarrow> (\<forall>g \<in> set (p_threads p). formed p g \<and> (q_closed p \<longrightarrow> \<not> sending g))
    \<and> (p_shutdownDone p \<longrightarrow> (\<exists>g \<in> set (p_threads p). fst g = Closer \<and> snd g = []))"

text \<open>
  A step of goroutine \<open>k\<close> that keeps the forms: the new list is formed, the goroutines it
  spawns are, and the other ones stay so because the lifecycle only advances.
\<close>

definition advances :: "'d pool \<Rightarrow> 'd pool \<Rightarrow> bool" where
  "advances p q \<longleftrightarrow> (p_stopping p \<longrightarrow> p_stopping q) \<and> (q_closed p \<longrightarrow> q_closed q)
    \<and> (q_closed p \<and> q_ch p = [] \<longrightarrow> q_ch q = [])
    \<and> (\<forall>r \<in> {Worker, Poller}. p_stopping p \<and> all_ended r p \<longrightarrow> all_ended r q)"

lemma formed_advances: "advances p q \<Longrightarrow> formed p g \<Longrightarrow> formed q g"
  by (auto simp: formed_def advances_def split: role.splits if_splits)

lemma all_ended_update:
  assumes "k < length (p_threads p)" "p_threads p ! k = (r, i # is)" "p_threads p1 = p_threads p @ gs"
    "\<forall>g \<in> set gs. fst g = s \<longrightarrow> snd g = []" "all_ended s p"
  shows "all_ended s (p1\<lparr>p_threads := (p_threads p1)[k := (r, new @ is)]\<rparr>)"
proof -
  have "r \<noteq> s" using assms(1,2,5) nth_mem unfolding all_ended_def by fastforce
  then show ?thesis
    using assms(3-) set_update_subset_insert [of "p_threads p1" k "(r, new @ is)"] unfolding all_ended_def by fastforce
qed

lemma worker_last:
  assumes "loop_end (last (i # is))" "exec c now e i p = Some (new, p1)"
  shows "if new @ is = [] then q_ch p1 = [] \<and> q_closed p1 else loop_end (last (new @ is))"
proof (cases "is")
  case Nil
  then show ?thesis using assms
    by (cases i) (auto simp: loop_end_def exec_simps handled_ok_def handled_error_def Let_def
        split: list.splits if_splits option.splits sum.splits event.splits)
next
  case (Cons a list)
  then show ?thesis using assms(1) by simp
qed

definition replaced :: "nat \<Rightarrow> role \<Rightarrow> statement list \<Rightarrow> 'd pool \<Rightarrow> 'd pool" where
  "replaced k r ws p1 = p1\<lparr>p_threads := (p_threads p1)[k := (r, ws)]\<rparr>"

definition kept :: "'d pool \<Rightarrow> 'd pool \<Rightarrow> nat \<Rightarrow> role \<Rightarrow> statement list \<Rightarrow> bool" where
  "kept p p1 k r ws \<longleftrightarrow> (\<exists>gs. p_threads p1 = p_threads p @ gs
    \<and> (\<forall>g \<in> set gs. formed (replaced k r ws p1) g \<and> \<not> sending g)
    \<and> advances p (replaced k r ws p1) \<and> formed (replaced k r ws p1) (r, ws)
    \<and> (q_closed p1 \<longrightarrow> \<not> sending (r, ws))
    \<and> (q_closed p1 \<and> \<not> q_closed p \<longrightarrow> (\<forall>g \<in> set (p_threads p). \<not> sending g))
    \<and> (p_shutdownDone p1 \<longrightarrow> p_shutdownDone p \<or> r = Closer \<and> ws = []))"

lemma replaced_simps [simp]:
  "p_stopping (replaced k r ws p) = p_stopping p" "q_closed (replaced k r ws p) = q_closed p"
  "q_ch (replaced k r ws p) = q_ch p" "p_shutdownDone (replaced k r ws p) = p_shutdownDone p"
  by (simp_all add: replaced_def)

lemma replaced_ended:
  assumes "k < length (p_threads p)" "p_threads p ! k = (r, i # is)" "p_threads p1 = p_threads p @ gs"
    "\<forall>g \<in> set gs. fst g = s \<longrightarrow> snd g = []" "all_ended s p"
  shows "all_ended s (replaced k r (new @ is) p1)"
  unfolding replaced_def using all_ended_update [OF assms] .

lemma ordinary_kept:
  assumes "k < length (p_threads p)" "p_threads p ! k = (r, i # is)" "exec c now e i p = Some (new, p1)"
    "ordinary (i # is)" "formed p (r, i # is)" "q_closed p \<longrightarrow> \<not> sending (r, i # is)" "r \<noteq> Closer"
  shows "kept p p1 k r (new @ is)"
proof -
  note o = ordinary_step [OF assms(4,3), of r]
  have ended: "all_ended s (replaced k r (new @ is) p1)" if "all_ended s p" for s
    using replaced_ended [OF assms(1,2), of p1 "[]"] o that by (simp add: same_lifecycle_def)
  then have adv: "advances p (replaced k r (new @ is) p1)" using o assms(6) by (auto simp: advances_def same_lifecycle_def)
  have "formed (replaced k r (new @ is) p1) (r, new @ is)"
    using o assms(5,7) worker_last [OF _ assms(3), of "is"] by (cases r) (auto simp: formed_def)
  then show ?thesis unfolding kept_def using adv o by (intro exI [of _ "[]"]) (auto simp: same_lifecycle_def)
qed

lemma caller_kept:
  assumes "k < length (p_threads p)" "p_threads p ! k = (Caller, i # is)" "exec c now e i p = Some (new, p1)"
    "i # is = [Start] \<or> i # is = [Shutdown] \<or> i # is \<in> set (suffixes stop_list) \<and> p_stopping p"
  shows "kept p p1 k Caller (new @ is)"
proof -
  have ended: "all_ended s (replaced k Caller (new @ is) p1)"
    if "all_ended s p" "p_threads p1 = p_threads p @ gs" "\<forall>g \<in> set gs. fst g = s \<longrightarrow> snd g = []" for s gs
    using replaced_ended [OF assms(1,2) that(2,3,1)] .
  consider (start) "i = Start" "is = []" | (shut) "i = Shutdown" "is = []"
    | (stop) "i \<in> {StopAccepting, ClosePollStop, WaitShutdown}" "is \<in> set (suffixes stop_list)" "p_stopping p"
    | (spawn) "i = SpawnCloser" "is = [WaitShutdown]" "p_stopping p"
    using assms(4) by (auto simp: stop_list_def)
  then show ?thesis
  proof cases
    case start
    have f: "formed q (Worker, [Dequeue]) \<and> \<not> sending (Worker, [Dequeue])" "formed q (Poller, [PollLoop]) \<and> \<not> sending (Poller, [PollLoop])"
      for q :: "'a pool" by (simp_all add: formed_def ordinary_def head_ok_def sending_def loop_end_def)
    have e: "ordinary []" "\<not> sending (Caller, [])" by (simp_all add: ordinary_def sending_def)
    show ?thesis
    proof (cases "p_started p \<or> p_stopping p")
      case True
      then have "p1 = p" "new = []" using start assms(3) by (auto simp: exec_simps)
      then show ?thesis unfolding kept_def
        using start e ended [of _ "[]"] by (intro exI [of _ "[]"]) (auto simp: advances_def formed_def)
    next
      case False
      then have p1: "new = []" "p_threads p1 = p_threads p @ (if cf_store c = None then [] else [(Poller, [PollLoop])]) @ replicate (cf_size c) (Worker, [Dequeue])"
        "p_stopping p1 = p_stopping p" "q_closed p1 = q_closed p" "q_ch p1 = q_ch p" "p_shutdownDone p1 = p_shutdownDone p"
        using start assms(3) by (auto simp: exec_simps)
      show ?thesis unfolding kept_def
        using start p1 e f False by (intro exI [of _ "(if cf_store c = None then [] else [(Poller, [PollLoop])]) @ replicate (cf_size c) (Worker, [Dequeue])"])
          (auto simp: advances_def formed_def)
    qed
  next
    case shut
    have "ordinary [WaitShutdown]" by (simp add: ordinary_def head_ok_def sending_def)
    with shut show ?thesis unfolding kept_def
      using assms(3) ended [of _ "[]"] by (intro exI [of _ "[]"])
        (auto simp: exec_simps advances_def formed_def stop_list_def sending_def split: if_splits)
  next
    case stop
    then show ?thesis unfolding kept_def
      using assms(3) ended [of _ "[]"] by (intro exI [of _ "[]"])
        (auto simp: exec_simps advances_def formed_def stop_list_def sending_def split: if_splits)
  next
    case spawn
    have "snd g = []" if "g \<in> set [(Closer, closer)]" "fst g = s" "s \<noteq> Closer" for g :: goroutine and s using that by auto
    then show ?thesis unfolding kept_def
      using spawn assms(3) ended [of _ "[(Closer, closer)]"] by (intro exI [of _ "[(Closer, closer)]"])
        (auto simp: exec_simps advances_def formed_def stop_list_def closer_def sending_def)
  qed
qed

lemma closer_kept:
  assumes "k < length (p_threads p)" "p_threads p ! k = (Closer, i # is)" "exec c now e i p = Some (new, p1)"
    "formed p (Closer, i # is)"
  shows "kept p p1 k Closer (new @ is)"
proof -
  have new: "new = []" "p_threads p1 = p_threads p @ []"
    using assms(3,4) by (auto simp: formed_def closer_def exec_simps split: if_splits)
  have ended: "all_ended s (replaced k Closer is p1)" if "all_ended s p" for s
    using replaced_ended [OF assms(1,2) new(2), of s "[]"] that by simp
  have suf: "i # is \<in> set (suffixes closer)" using assms(4) by (simp add: formed_def)
  have "is \<in> set (suffixes closer)" "\<not> sending (Closer, is)" using suf by (auto simp: closer_def sending_def)
  moreover have "advances p (replaced k Closer is p1)"
    using suf assms(3) ended by (auto simp: closer_def exec_simps advances_def split: if_splits)
  moreover have "(length is \<le> 5 \<longrightarrow> all_ended Poller (replaced k Closer is p1)) \<and> (length is \<le> 2 \<longrightarrow> q_closed p1)
      \<and> (length is \<le> 1 \<longrightarrow> all_ended Worker (replaced k Closer is p1)) \<and> p_stopping p1"
    using suf assms(3,4) ended by (auto simp: closer_def exec_simps formed_def split: if_splits)
  moreover have "(q_closed p1 \<and> \<not> q_closed p \<longrightarrow> (\<forall>g \<in> set (p_threads p). \<not> sending g))
      \<and> (p_shutdownDone p1 \<longrightarrow> p_shutdownDone p \<or> is = [])"
    using suf assms(3) by (auto simp: closer_def exec_simps split: if_splits)
  ultimately show ?thesis unfolding kept_def new(1)
    using new(2) by (intro exI [of _ "[]"]) (auto simp: formed_def)
qed

lemma orderly_run:
  assumes "orderly p" "run c now e k p = Some p'"
  shows "orderly p'"
proof -
  obtain r i "is" new p1 where k: "k < length (p_threads p)" "p_threads p ! k = (r, i # is)"
    and x: "exec c now e i p = Some (new, p1)" and p': "p' = replaced k r (new @ is) p1"
    using run_cases [OF assms(2)] unfolding replaced_def .
  have g: "formed p (r, i # is)" "q_closed p \<longrightarrow> \<not> sending (r, i # is)"
    using assms(1) k nth_mem unfolding orderly_def by metis+
  have "kept p p1 k r (new @ is)"
  proof (cases "r = Closer")
    case True
    then show ?thesis using closer_kept [OF k(1) _ x] k(2) g(1) by simp
  next
    case False
    then show ?thesis using ordinary_kept [OF k x _ g] caller_kept [OF k(1) _ x] k(2) g(1)
      by (cases r) (auto simp: formed_def split: if_splits)
  qed
  then obtain gs where s: "p_threads p1 = p_threads p @ gs" "\<forall>g \<in> set gs. formed p' g \<and> \<not> sending g"
    "advances p p'" "formed p' (r, new @ is)" "q_closed p1 \<longrightarrow> \<not> sending (r, new @ is)"
    "q_closed p1 \<and> \<not> q_closed p \<longrightarrow> (\<forall>g \<in> set (p_threads p). \<not> sending g)"
    "p_shutdownDone p1 \<longrightarrow> p_shutdownDone p \<or> r = Closer \<and> new @ is = []"
    unfolding kept_def p' by blast
  have th: "p_threads p' = (p_threads p @ gs)[k := (r, new @ is)]" by (simp add: p' replaced_def s(1))
  have mem: "set (p_threads p') \<subseteq> insert (r, new @ is) (set (p_threads p) \<union> set gs)"
    unfolding th using set_update_subset_insert [of "p_threads p @ gs" k] by fastforce
  have "formed p' h \<and> (q_closed p' \<longrightarrow> \<not> sending h)" if "h \<in> set (p_threads p')" for h
  proof -
    consider "h = (r, new @ is)" | "h \<in> set gs" | "h \<in> set (p_threads p)" using mem \<open>h \<in> _\<close> by auto
    then show ?thesis
    proof cases
      case 3
      then have "formed p h" "q_closed p \<longrightarrow> \<not> sending h" using assms(1) by (auto simp: orderly_def)
      then show ?thesis using formed_advances [OF s(3)] s(6) 3 by (auto simp: p')
    qed (use s(2,4,5) in \<open>auto simp: p'\<close>)
  qed
  moreover have "\<exists>h \<in> set (p_threads p'). fst h = Closer \<and> snd h = []" if "p_shutdownDone p'"
  proof (cases "p_shutdownDone p")
    case True
    then obtain h where "h \<in> set (p_threads p)" "fst h = Closer" "snd h = []" using assms(1) by (auto simp: orderly_def)
    then obtain m where m: "m < length (p_threads p)" "p_threads p ! m = h" by (auto simp: in_set_conv_nth)
    then have "m \<noteq> k" using k(2) \<open>snd h = []\<close> by auto
    then have "h \<in> set (p_threads p')"
      unfolding th using m nth_update_other [of m "p_threads p @ gs" k] by (simp add: nth_append)
    then show ?thesis using \<open>fst h = Closer\<close> \<open>snd h = []\<close> by blast
  next
    case False
    then have "(r, new @ is) = (Closer, [])" using s(7) that by (auto simp: p')
    then show ?thesis unfolding th using k(1) by (intro bexI [of _ "(Closer, [])"]) (auto intro!: set_update_memI)
  qed
  ultimately show ?thesis unfolding orderly_def by blast
qed

lemma orderly_reachable: "pool_reachable c p \<Longrightarrow> orderly p"
proof -
  assume "pool_reachable c p"
  then obtain ch cap d where "(pool_step c)\<^sup>*\<^sup>* (NewWithOptions ch cap d) p" by (auto simp: pool_reachable_def)
  then show ?thesis
  proof (induction rule: rtranclp_induct)
    case base
    then show ?case by (simp add: orderly_def NewWithOptions_def)
  next
    case (step y z)
    from step(2) show ?case
    proof cases
      case (step_run now e k)
      then show ?thesis using orderly_run step.IH by blast
    next
      case (step_call i)
      have f: "formed z (Caller, [i]) \<and> \<not> sending (Caller, [i])"
        using step_call(2) by (auto simp: request_def formed_def ordinary_def head_ok_def sending_def split: statement.splits)
      have "advances y z" using step_call(1) by (auto simp: advances_def spawn_def all_ended_def)
      then have "formed z g" if "g \<in> set (p_threads y)" for g
        using formed_advances [of y z g] step.IH that by (simp add: orderly_def)
      then show ?thesis using step.IH f step_call(1) by (auto simp: orderly_def spawn_def)
    qed
  qed
qed

text \<open>
  C30: When the shutdown sequence of a pool has finished, with or without a store, the queue is
  closed, every worker and the poller have returned, no goroutine is sending, and if the
  pool was started with workers the channel is drained: no accepted job is left in it.\<close>

theorem shutdown_drains:
  assumes "pool_reachable c p" "p_shutdownDone p"
  shows "q_closed p \<and> all_ended Worker p \<and> all_ended Poller p \<and> (\<forall>g \<in> set (p_threads p). \<not> sending g)
    \<and> ((\<exists>g \<in> set (p_threads p). fst g = Worker) \<longrightarrow> q_ch p = [])"
proof -
  note o = orderly_reachable [OF assms(1)]
  then obtain g where g: "g \<in> set (p_threads p)" "fst g = Closer" "snd g = []" using assms(2) by (auto simp: orderly_def)
  then have c: "q_closed p" "all_ended Worker p" "all_ended Poller p" using o by (auto simp: orderly_def formed_def)
  moreover have "q_ch p = []" if "h \<in> set (p_threads p)" "fst h = Worker" for h
    using o that c(2) by (auto simp: orderly_def formed_def all_ended_def)
  ultimately show ?thesis using o by (auto simp: orderly_def)
qed

definition start_and_stop :: "job list \<Rightarrow> unit pool" where
  "start_and_stop ch = spawn [(Caller, [Shutdown])] (spawn [(Caller, [Start])] (NewWithOptions ch 1 ()))"

lemma start_and_stop_reachable:
  assumes "length ch \<le> 1" "run_all c es (start_and_stop ch) = Some p"
  shows "pool_reachable c p"
proof -
  have "request Start" "request Shutdown" by (simp_all add: request_def)
  then have "pool_step c (NewWithOptions ch 1 ()) (spawn [(Caller, [Start])] (NewWithOptions ch 1 ()))"
    "pool_step c (spawn [(Caller, [Start])] (NewWithOptions ch 1 ())) (start_and_stop ch)"
    unfolding start_and_stop_def using step_call [of Start] step_call [of Shutdown] by blast+
  then have "(pool_step c)\<^sup>*\<^sup>* (NewWithOptions ch 1 ()) (start_and_stop ch)"
    by (rule converse_rtranclp_into_rtranclp [OF _ r_into_rtranclp])
  then show ?thesis using assms run_all_steps unfolding pool_reachable_def by (metis rtranclp_trans)
qed

definition drain_schedule :: "(nat \<times> event) list" where
  "drain_schedule = [(0, Go), (2, Go), (2, Go), (2, Handled (Inr [])), (2, Go), (2, Go), (2, Go), (2, Go),
     (1, Go), (1, Go), (1, Go), (1, Go), (3, Go), (3, Go), (3, Go), (3, Go), (2, Go), (3, Go), (3, Go)]"

lemmas stop_eval = pool_eval start_and_stop_def drain_schedule_def all_ended_def sending_def

theorem shutdown_drains_witness:
  "\<exists>p. run_all (memory_config 1) drain_schedule (start_and_stop [sample_job ''a'']) = Some p \<and> p_shutdownDone p
    \<and> q_closed p \<and> all_ended Worker p \<and> q_ch p = []"
proof -
  obtain p where r: "run_all (memory_config 1) drain_schedule (start_and_stop [sample_job ''a'']) = Some p" "p_shutdownDone p"
    "\<exists>g \<in> set (p_threads p). fst g = Worker"
    by (simp add: stop_eval)
  have "pool_reachable (memory_config 1) p" by (rule start_and_stop_reachable [OF _ r(1)]) simp
  from shutdown_drains [OF this r(2)] r show ?thesis by blast
qed

text \<open>A worker that waits to send to a full queue while the pool shuts down.\<close>

definition jam_schedule :: "(nat \<times> event) list" where
  "jam_schedule = [(0, Go), (2, Go), (2, Go), (2, Handled (Inr [sample_job ''b'', sample_job ''c''])), (2, Go),
     (2, Go), (2, Go), (2, Go), (2, Go), (2, Go), (2, Go), (2, Go), (2, Go), (2, Go), (2, Go), (2, Go), (2, Go),
     (1, Go), (1, Go), (1, Go), (1, Go), (3, Go)]"

definition jam_thread :: "goroutine \<Rightarrow> bool" where
  "jam_thread g \<longleftrightarrow> (fst g = Worker \<and> (\<exists>j ok closed is. snd g = Send j ok closed # is))
    \<or> (fst g = Closer \<and> snd g = [WaitSubmits, CloseSignal, CloseLocked, WaitWorkers, CloseShutdownDone])
    \<or> (fst g = Caller \<and> (snd g \<in> {[], [Start], [Shutdown], [WaitShutdown]} \<or> (\<exists>j. snd g = [PoolSubmit j []])))"

definition jammed :: "'d pool \<Rightarrow> bool" where
  "jammed p \<longleftrightarrow> (\<forall>g \<in> set (p_threads p). jam_thread g) \<and> (\<exists>g \<in> set (p_threads p). fst g = Worker) \<and> \<not> is_room p
    \<and> \<not> q_closing p \<and> p_submitWG p \<noteq> 0 \<and> p_stopping p \<and> p_shutdown_once p \<and> \<not> p_shutdownDone p \<and> \<not> p_done p"

lemma jam_exec:
  assumes "jammed p" "jam_thread (r, i # is)" "exec c now e i p = Some (new, p1)"
  shows "p1 = p \<and> r = Caller \<and> jam_thread (Caller, new @ is)"
  using assms by (auto simp: jammed_def jam_thread_def exec_simps split: if_splits)

lemma jammed_step:
  assumes "jammed p" "pool_step c p p'"
  shows "jammed p'"
  using assms(2)
proof cases
  case (step_run now e k)
  obtain r i "is" new p1 where k: "k < length (p_threads p)" "p_threads p ! k = (r, i # is)"
    and x: "exec c now e i p = Some (new, p1)" and p': "p' = p1\<lparr>p_threads := (p_threads p1)[k := (r, new @ is)]\<rparr>"
    using run_cases [OF step_run] .
  have j: "p1 = p" "r = Caller" "jam_thread (Caller, new @ is)"
    using jam_exec [OF assms(1) _ x] assms(1) k nth_mem unfolding jammed_def by metis+
  obtain m where m: "m < length (p_threads p)" "fst (p_threads p ! m) = Worker"
    using assms(1) unfolding jammed_def by (metis in_set_conv_nth)
  then have "m \<noteq> k" using k(2) j(2) by auto
  then have w: "p_threads p ! m \<in> set (p_threads p')" using m(1) using nth_update_other [of m "p_threads p" k] by (simp add: p' j(1))
  have "\<forall>g \<in> set (p_threads p'). jam_thread g"
    using assms(1) j set_update_subset_insert [of "p_threads p" k "(r, new @ is)"] unfolding p' jammed_def by auto
  then show ?thesis using assms(1) w m(2) j(1) p' by (auto simp: jammed_def is_room_def)
next
  case (step_call i)
  then show ?thesis using assms(1)
    by (auto simp: jammed_def spawn_def jam_thread_def request_def is_room_def split: statement.splits)
qed



end
