(* ===== verification/Pool_Restart.thy ===== *)
theory Pool_Restart
  imports Worker_Pool
begin

text \<open>
  What \<^verbatim>\<open>queue.New\<close> finds in the database after a restart: the reload loop ends, and it
  brings back exactly the jobs that were running or due.
\<close>

definition set_running :: "jobs_row \<Rightarrow> jobs_row" where
  "set_running r = r\<lparr>r_status := StatusRunning\<rparr>"

definition set_pending :: "jobs_row \<Rightarrow> jobs_row" where
  "set_pending r = r\<lparr>r_status := StatusPending\<rparr>"

lemma set_running_simps [simp]: "r_id (set_running r) = r_id r" "\<not> acquirable now (set_running r)" "r_id (set_pending r) = r_id r"
  by (simp_all add: set_running_def set_pending_def acquirable_def)

lemma ID_scanJob [simp]: "ID (scanJob r) = r_id r"
  by (simp add: scanJob_def)

lemma acquire_row:
  assumes "distinct (map r_id (jobs d))" "AcquireJob now d = Some (j, d1)"
  obtains r where "r \<in> set (jobs d)" "acquirable now r" "j = scanJob (set_running r)" "d1 = update_jobs (\<lambda>x. x = r) set_running d"
proof -
  obtain r where r: "next_job now d = Some r" "j = scanJob (set_running r)"
    "d1 = update_jobs (\<lambda>x. r_id x = r_id r) (\<lambda>x. x\<lparr>r_status := StatusRunning\<rparr>) d"
    using assms(2) by (auto simp: AcquireJob_def set_running_def split: option.splits)
  have m: "r \<in> set (jobs d)" "acquirable now r" using next_job_Some [OF r(1)] by auto
  have "update_jobs (\<lambda>x. r_id x = r_id r) (\<lambda>x. x\<lparr>r_status := StatusRunning\<rparr>) d = update_jobs (\<lambda>x. x = r) set_running d"
    using assms(1) m(1) by (auto simp: update_jobs_def upd_where_def set_running_def distinct_map inj_on_def)
  then show ?thesis using that m r by simp
qed

lemma run_one_then_rest:
  assumes "r \<in> set t" "acquirable now r"
  shows "upd_where (acquirable now) set_running (upd_where (\<lambda>x. x = r) set_running t) = upd_where (acquirable now) set_running t"
  using assms(2) by (induction t) auto

lemma count_run_one:
  assumes "r \<in> set t" "acquirable now r"
  shows "count_where (acquirable now) (upd_where (\<lambda>x. x = r) set_running t) < count_where (acquirable now) t"
  using assms
proof (induction t)
  case (Cons a t)
  have le: "count_where (acquirable now) (upd_where (\<lambda>x. x = r) set_running t) \<le> count_where (acquirable now) t"
    using assms(2) by (induction t) (auto simp: count_where_def)
  show ?case using Cons le by (auto simp: count_where_def)
qed simp

lemma reload_pg:
  assumes "distinct (map r_id (jobs d))"
  shows "\<exists>js. reload pg_jobs now d acc = Some (acc @ js, update_jobs (acquirable now) set_running d) \<and> distinct (map ID js)
    \<and> set js = (scanJob \<circ> set_running) ` {r \<in> set (jobs d). acquirable now r}"
  using assms
proof (induction "count_where (acquirable now) (jobs d)" arbitrary: d acc rule: less_induct)
  case less
  show ?case
  proof (cases "AcquireJob now d")
    case None
    then have n: "next_job now d = None" by (auto simp: AcquireJob_def split: option.splits)
    have "reload pg_jobs now d acc = Some (acc, d)" using None by (subst reload.simps) (simp add: pg_jobs_def)
    moreover have "update_jobs (acquirable now) set_running d = d"
      using n by (simp add: update_jobs_def upd_where_def next_job_None cong: map_cong)
    ultimately show ?thesis using n by (intro exI [of _ "[]"]) (auto simp: next_job_None)
  next
    case (Some a)
    then obtain j d1 where a: "AcquireJob now d = Some (j, d1)" by (cases a) auto
    obtain r where r: "r \<in> set (jobs d)" "acquirable now r" "j = scanJob (set_running r)" "d1 = update_jobs (\<lambda>x. x = r) set_running d"
      using acquire_row [OF less.prems a] .
    have j1: "jobs d1 = upd_where (\<lambda>x. x = r) set_running (jobs d)" by (simp add: r(4) update_jobs_def)
    have d1: "distinct (map r_id (jobs d1))" using less.prems by (simp add: j1)
    obtain js where js: "reload pg_jobs now d1 (acc @ [j]) = Some ((acc @ [j]) @ js, update_jobs (acquirable now) set_running d1)"
      "distinct (map ID js)" "set js = (scanJob \<circ> set_running) ` {r \<in> set (jobs d1). acquirable now r}"
      using less.hyps [OF _ d1, of "acc @ [j]"] count_run_one [OF r(1,2)] unfolding j1 by blast
    have neq: "set_running r \<noteq> r" using r(2) set_running_simps(2) [of now r] by metis
    have "reload pg_jobs now d acc = reload pg_jobs now d1 (acc @ [j])" using a by (subst reload.simps) (simp add: pg_jobs_def)
    moreover have "update_jobs (acquirable now) set_running d1 = update_jobs (acquirable now) set_running d"
      using run_one_then_rest [OF r(1,2)] by (simp add: r(4) update_jobs_def)
    moreover have rest: "{x \<in> set (jobs d1). acquirable now x} = {x \<in> set (jobs d). acquirable now x} - {r}"
      using neq unfolding j1 set_upd_where by auto
    moreover have "ID j \<notin> ID ` set js"
      using less.prems r(1) unfolding js(3) rest by (auto simp: r(3) distinct_map inj_on_def)
    ultimately show ?thesis using js r by (intro exI [of _ "j # js"]) auto
  qed
qed

text \<open>
  C32: Over the PostgreSQL store a restarted queue is built in finitely many steps. It holds,
  each once, exactly the jobs that were running when the process stopped or are pending
  and due, they are marked running in the database, jobs scheduled for later stay pending,
  and the channel has room for all of them, so that startup does not block.\<close>

theorem restart_reloads_unfinished:
  assumes "distinct (map r_id (jobs d))"
  shows "\<exists>ch cap d'. New_queue buffer (Some pg_jobs) now d = Some (ch, cap, d') \<and> length ch \<le> cap \<and> buffer \<le> cap
    \<and> distinct (map ID ch)
    \<and> ID ` set ch = r_id ` {r \<in> set (jobs d). r_status r \<in> {StatusRunning, StatusPending} \<and> r_scheduled_at r \<le> now}
    \<and> (\<forall>j \<in> set ch. Status j = StatusRunning)
    \<and> jobs d' = map (\<lambda>r. if r_status r \<in> {StatusRunning, StatusPending}
        then if r_scheduled_at r \<le> now then set_running r else set_pending r else r) (jobs d)"
proof -
  let ?d1 = "update_jobs (\<lambda>r. r_status r = StatusRunning) set_pending d"
  have r: "snd (ReclaimStuckJobs d) = ?d1" by (simp add: ReclaimStuckJobs_def set_pending_def [abs_def])
  have "distinct (map r_id (jobs ?d1))" using assms by (simp add: update_jobs_def)
  from reload_pg [OF this, of now "[]"] obtain ch where
    ch: "reload pg_jobs now ?d1 [] = Some (ch, update_jobs (acquirable now) set_running ?d1)" "distinct (map ID ch)"
    "set ch = (scanJob \<circ> set_running) ` {r \<in> set (jobs ?d1). acquirable now r}"
    by auto
  have "\<exists>cap. New_queue buffer (Some pg_jobs) now d = Some (ch, cap, update_jobs (acquirable now) set_running ?d1)
      \<and> length ch \<le> cap \<and> buffer \<le> cap"
    using ch(1) r by (simp add: New_queue_def pg_jobs_def split: prod.splits) (auto simp: pg_jobs_def)
  moreover have "ID ` set ch = r_id ` {r \<in> set (jobs d). r_status r \<in> {StatusRunning, StatusPending} \<and> r_scheduled_at r \<le> now}"
  proof -
    have "{r \<in> set (jobs ?d1). acquirable now r} = (\<lambda>r. if r_status r = StatusRunning then set_pending r else r) `
        {r \<in> set (jobs d). r_status r \<in> {StatusRunning, StatusPending} \<and> r_scheduled_at r \<le> now}"
      by (auto simp: set_upd_where acquirable_def set_pending_def image_iff)
    then have "ID ` set ch = (\<lambda>r. r_id (if r_status r = StatusRunning then set_pending r else r)) `
        {r \<in> set (jobs d). r_status r \<in> {StatusRunning, StatusPending} \<and> r_scheduled_at r \<le> now}"
      unfolding ch(3) by (simp only: image_image comp_def ID_scanJob set_running_simps(1))
    then show ?thesis by (simp add: if_distrib [of r_id] cong: if_cong)
  qed
  moreover have "\<forall>j \<in> set ch. Status j = StatusRunning" unfolding ch(3) by (auto simp: scanJob_def set_running_def)
  moreover have "jobs (update_jobs (acquirable now) set_running ?d1) = map (\<lambda>r. if r_status r \<in> {StatusRunning, StatusPending}
        then if r_scheduled_at r \<le> now then set_running r else set_pending r else r) (jobs d)"
    by (auto simp: update_jobs_def upd_where_def acquirable_def set_running_def set_pending_def)
  ultimately show ?thesis using ch(2) by blast
qed

definition restart_db :: db where
  "restart_db = empty_db\<lparr>jobs := [(new_row 5 ''a'' ''t'' None 5 ''a'')\<lparr>r_status := StatusRunning, r_scheduled_at := 1\<rparr>,
     (new_row 5 ''b'' ''t'' None 5 ''b'')\<lparr>r_scheduled_at := 90\<rparr>]\<rparr>"

theorem restart_reloads_unfinished_witness:
  "\<exists>ch cap d'. New_queue 0 (Some pg_jobs) 10 restart_db = Some (ch, cap, d') \<and> ID ` set ch = {''a''} \<and> length ch \<le> cap"
proof -
  have "distinct (map r_id (jobs restart_db))" by (simp add: restart_db_def new_row_def)
  moreover have "r_id ` {r \<in> set (jobs restart_db). r_status r \<in> {StatusRunning, StatusPending} \<and> r_scheduled_at r \<le> 10} = {''a''}"
    unfolding set_filter [symmetric] by (simp add: restart_db_def new_row_def)
  ultimately show ?thesis using restart_reloads_unfinished [of restart_db 0 10] by metis
qed

end
