(* ===== verification/Go_Encoding.thy ===== *)
theory Go_Encoding
  imports Go_Strings
begin

text \<open>
  Two codecs of Go's standard library that the page cursors of the store rest on:
  \<^verbatim>\<open>base64.RawURLEncoding\<close> and times in the layout \<^verbatim>\<open>time.RFC3339Nano\<close>. A
  string is the list of its bytes, a time counts nanoseconds from the start of year 1, UTC.
\<close>

section \<open>base64.RawURLEncoding\<close>

definition b64_alphabet :: string where
  "b64_alphabet = ''ABCDEFGHIJKLMNOPQRSTUVWXYZabcdefghijklmnopqrstuvwxyz0123456789-_''"

fun sextets :: "nat list \<Rightarrow> nat list" where
  "sextets [] = []"
| "sextets [a] = [a div 4, (a mod 4) * 16]"
| "sextets [a, b] = [a div 4, (a mod 4) * 16 + b div 16, (b mod 16) * 4]"
| "sextets (a # b # c # bs) = [a div 4, (a mod 4) * 16 + b div 16, (b mod 16) * 4 + c div 64, c mod 64] @ sextets bs"

text \<open>The decoder drops the bits of an incomplete last byte; one single sextet is an error.\<close>

fun octets :: "nat list \<Rightarrow> nat list option" where
  "octets [] = Some []"
| "octets [x] = None"
| "octets [x, y] = Some [x * 4 + y div 16]"
| "octets [x, y, z] = Some [x * 4 + y div 16, (y mod 16) * 16 + z div 4]"
| "octets (x # y # z # w # xs) =
     (case octets xs of
        None \<Rightarrow> None
      | Some bs \<Rightarrow> Some ([x * 4 + y div 16, (y mod 16) * 16 + z div 4, (z mod 4) * 64 + w] @ bs))"

definition EncodeToString :: "string \<Rightarrow> string" where
  "EncodeToString s = map (\<lambda>x. b64_alphabet ! x) (sextets (map of_char s))"

definition b64_index :: "char \<Rightarrow> nat option" where
  "b64_index c = find (\<lambda>i. b64_alphabet ! i = c) [0..<64]"

text \<open>Newlines are skipped, any other character outside the alphabet is an error.\<close>

definition DecodeString :: "string \<Rightarrow> string option" where
  "DecodeString s =
     (let xs = map b64_index (filter (\<lambda>c. c \<notin> {CHR 0x0A, CHR 0x0D}) s)
      in if None \<in> set xs then None else map_option (map char_of) (octets (map the xs)))"

section \<open>The calendar\<close>

definition is_leap :: "int \<Rightarrow> bool" where
  "is_leap y \<longleftrightarrow> y mod 4 = 0 \<and> (y mod 100 \<noteq> 0 \<or> y mod 400 = 0)"

definition month_lengths :: "bool \<Rightarrow> int list" where
  "month_lengths leap = [31, if leap then 29 else 28, 31, 30, 31, 30, 31, 31, 30, 31, 30, 31]"

definition days_before_year :: "int \<Rightarrow> int" where
  "days_before_year y = 365 * (y - 1) + (y - 1) div 4 - (y - 1) div 100 + (y - 1) div 400"

text \<open>\<^verbatim>\<open>absDate\<close>: cycles of 400, 100, 4 and 1 years.\<close>

definition split_year :: "int \<Rightarrow> int \<times> int" where
  "split_year d =
     (let n = d div 146097; d1 = d - 146097 * n;
          c0 = d1 div 36524; c = c0 - c0 div 4; d2 = d1 - 36524 * c;
          q = d2 div 1461; d3 = d2 - 1461 * q;
          y0 = d3 div 365; y = y0 - y0 div 4
      in (1 + 400 * n + 100 * c + 4 * q + y, d3 - 365 * y))"

fun split_months :: "int list \<Rightarrow> int \<Rightarrow> nat \<times> int" where
  "split_months [] d = (0, d)"
| "split_months (l # ls) d = (if d < l then (0, d) else (let (k, r) = split_months ls (d - l) in (Suc k, r)))"

definition date_days :: "int \<Rightarrow> int \<Rightarrow> int \<Rightarrow> int" where
  "date_days y m d = days_before_year y + sum_list (take (nat (m - 1)) (month_lengths (is_leap y))) + (d - 1)"

definition nanos_per_second :: int where "nanos_per_second = 1000000000"

section \<open>time.RFC3339Nano\<close>

definition digit_char :: "nat \<Rightarrow> char" where
  "digit_char n = char_of (48 + n)"

fun fixed_digits :: "nat \<Rightarrow> nat \<Rightarrow> string" where
  "fixed_digits 0 n = []"
| "fixed_digits (Suc w) n = fixed_digits w (n div 10) @ [digit_char (n mod 10)]"

definition appendInt :: "nat \<Rightarrow> nat \<Rightarrow> string" where
  "appendInt w n = (if n < 10 ^ w then fixed_digits w n else nat_text n)"

text \<open>The fraction, without trailing zeros and without the point when nothing is left.\<close>

definition format_nanos :: "nat \<Rightarrow> string" where
  "format_nanos n = (let s = TrimRightFunc (\<lambda>c. c = CHR ''0'') (fixed_digits 9 n) in if s = [] then [] else CHR ''.'' # s)"

definition FormatRFC3339Nano :: "int \<Rightarrow> string" where
  "FormatRFC3339Nano t =
     (let secs = t div nanos_per_second; nanos = t mod nanos_per_second;
          days = secs div 86400; sod = secs mod 86400;
          (y, yday) = split_year days; (m, d) = split_months (month_lengths (is_leap y)) yday
      in appendInt 4 (nat y) @ ''-'' @ appendInt 2 (Suc m) @ ''-'' @ appendInt 2 (nat (d + 1)) @ ''T''
         @ appendInt 2 (nat (sod div 3600)) @ '':'' @ appendInt 2 (nat (sod div 60 mod 60)) @ '':'' @ appendInt 2 (nat (sod mod 60))
         @ format_nanos (nat nanos) @ ''Z'')"

text \<open>Parsing: a fixed number of digits, a literal, an hour of one or two digits, a fraction, a zone.\<close>

definition take_digits :: "nat \<Rightarrow> string \<Rightarrow> (int \<times> string) option" where
  "take_digits w s = (if w \<le> length s \<and> list_all is_digit (take w s) then Some (digits_val (take w s), drop w s) else None)"

definition take_hour :: "string \<Rightarrow> (int \<times> string) option" where
  "take_hour s = (case take_digits 2 s of Some r \<Rightarrow> Some r | None \<Rightarrow> take_digits 1 s)"

definition take_literal :: "char \<Rightarrow> string \<Rightarrow> string option" where
  "take_literal c s = (case s of [] \<Rightarrow> None | x # xs \<Rightarrow> if x = c then Some xs else None)"

definition take_fraction :: "string \<Rightarrow> int \<times> string" where
  "take_fraction s =
     (case s of
        c # d # r \<Rightarrow>
          if c \<in> {CHR ''.'', CHR '',''} \<and> is_digit d
          then let ds = takeWhile is_digit (d # r); used = take 9 ds
               in (digits_val used * 10 ^ (9 - length used), dropWhile is_digit (d # r))
          else (0, s)
      | _ \<Rightarrow> (0, s))"

text \<open>The offset of the zone in seconds; nothing may follow it.\<close>

definition take_zone :: "string \<Rightarrow> int option" where
  "take_zone s =
     (if s = ''Z'' then Some 0
      else if length s = 6 \<and> s ! 0 \<in> {CHR ''+'', CHR ''-''} \<and> s ! 3 = CHR '':'' then
        (case (take_digits 2 (drop 1 s), take_digits 2 (drop 4 s)) of
           (Some (h, _), Some (m, _)) \<Rightarrow>
             if h > 24 \<or> m > 60 then None
             else Some ((if s ! 0 = CHR ''-'' then - 1 else 1) * (h * 3600 + m * 60))
         | _ \<Rightarrow> None)
      else None)"

definition parse_date :: "string \<Rightarrow> (int \<times> int \<times> int \<times> string) option" where
  "parse_date s =
     (case take_digits 4 s of None \<Rightarrow> None | Some (y, s1) \<Rightarrow>
     (case take_literal CHR ''-'' s1 of None \<Rightarrow> None | Some s2 \<Rightarrow>
     (case take_digits 2 s2 of None \<Rightarrow> None | Some (m, s3) \<Rightarrow>
     (case take_literal CHR ''-'' s3 of None \<Rightarrow> None | Some s4 \<Rightarrow>
     (case take_digits 2 s4 of None \<Rightarrow> None | Some (d, s5) \<Rightarrow>
       if 1 \<le> m \<and> m \<le> 12 \<and> 1 \<le> d \<and> d \<le> month_lengths (is_leap y) ! nat (m - 1) then Some (y, m, d, s5) else None)))))"

definition parse_clock :: "string \<Rightarrow> (int \<times> string) option" where
  "parse_clock s =
     (case take_literal CHR ''T'' s of None \<Rightarrow> None | Some s1 \<Rightarrow>
     (case take_hour s1 of None \<Rightarrow> None | Some (h, s2) \<Rightarrow>
     (case take_literal CHR '':'' s2 of None \<Rightarrow> None | Some s3 \<Rightarrow>
     (case take_digits 2 s3 of None \<Rightarrow> None | Some (mi, s4) \<Rightarrow>
     (case take_literal CHR '':'' s4 of None \<Rightarrow> None | Some s5 \<Rightarrow>
     (case take_digits 2 s5 of None \<Rightarrow> None | Some (se, s6) \<Rightarrow>
       if h < 24 \<and> mi < 60 \<and> se < 60 then Some (h * 3600 + mi * 60 + se, s6) else None))))))"

definition ParseRFC3339Nano :: "string \<Rightarrow> int option" where
  "ParseRFC3339Nano s =
     (case parse_date s of None \<Rightarrow> None | Some (y, m, d, s1) \<Rightarrow>
     (case parse_clock s1 of None \<Rightarrow> None | Some (sod, s2) \<Rightarrow>
      let (nanos, s3) = take_fraction s2 in
     (case take_zone s3 of None \<Rightarrow> None | Some off \<Rightarrow>
       Some ((date_days y m d * 86400 + sod - off) * nanos_per_second + nanos))))"

section \<open>Facts\<close>

lemma sextets_small: "\<forall>b \<in> set bs. b < 256 \<Longrightarrow> \<forall>x \<in> set (sextets bs). x < 64"
  by (induction bs rule: sextets.induct) auto

lemma octets_sextets: "\<forall>b \<in> set bs. b < 256 \<Longrightarrow> octets (sextets bs) = Some bs"
  by (induction bs rule: sextets.induct) (auto simp: split: option.splits)

lemma b64_letters: "list_all (\<lambda>x. b64_index (b64_alphabet ! x) = Some x \<and> b64_alphabet ! x \<notin> {CHR 0x0A, CHR 0x0D}) [0..<64]"
  by code_simp

lemma b64_letter: "x < 64 \<Longrightarrow> b64_index (b64_alphabet ! x) = Some x \<and> b64_alphabet ! x \<notin> {CHR 0x0A, CHR 0x0D}"
  using b64_letters by (auto simp: list_all_iff)

lemma Decode_Encode: "DecodeString (EncodeToString s) = Some s"
proof -
  let ?xs = "sextets (map of_char s)"
  have small: "\<forall>x \<in> set ?xs. x < 64" by (rule sextets_small) auto
  then have f: "filter (\<lambda>c. c \<notin> {CHR 0x0A, CHR 0x0D}) (EncodeToString s) = EncodeToString s"
    using b64_letter by (auto simp: EncodeToString_def filter_id_conv)
  have m: "map b64_index (EncodeToString s) = map Some ?xs"
    using small b64_letter by (simp add: EncodeToString_def)
  have "octets ?xs = Some (map of_char s)" by (rule octets_sextets) auto
  then show ?thesis unfolding DecodeString_def f m by (simp add: Let_def comp_def image_iff)
qed

lemma digit_char_digit: "n < 10 \<Longrightarrow> is_digit (digit_char n) \<and> digit_val (digit_char n) = int n"
  by (auto simp: digit_char_def is_digit_def digit_val_def less_eq_char_def)

lemma fixed_digits_props: "length (fixed_digits w n) = w \<and> list_all is_digit (fixed_digits w n) \<and> digits_val (fixed_digits w n) = int (n mod 10 ^ w)"
proof (induction w arbitrary: n)
  case (Suc w)
  have "n mod 10 ^ Suc w = 10 * (n div 10 mod 10 ^ w) + n mod 10" by (simp add: mod_mult2_eq)
  then show ?case using Suc [of "n div 10"] digit_char_digit [of "n mod 10"] by (simp add: digits_val_snoc)
qed (simp add: digits_val_def)

lemma take_appendInt:
  assumes "n < 10 ^ w"
  shows "take_digits w (appendInt w n @ s) = Some (int n, s)"
  using assms fixed_digits_props [of w n] by (simp add: take_digits_def appendInt_def)

lemma take_hour_appendInt: "n < 100 \<Longrightarrow> take_hour (appendInt 2 n @ s) = Some (int n, s)"
  using take_appendInt [of n 2 s] by (simp add: take_hour_def)

lemma take_literal_Cons [simp]: "take_literal c (c # s) = Some s"
  by (simp add: take_literal_def)

lemma cycle_days:
  fixes n c q y :: int
  assumes "0 \<le> c" "c \<le> 3" "0 \<le> q" "q \<le> 24" "0 \<le> y" "y \<le> 3"
  defines "Y \<equiv> 1 + 400 * n + 100 * c + 4 * q + y"
  shows "days_before_year Y = 146097 * n + 36524 * c + 1461 * q + 365 * y"
    and "is_leap Y \<longleftrightarrow> y = 3 \<and> (q \<noteq> 24 \<or> c = 3)"
proof -
  have d: "(Y - 1) div 4 = 100 * n + 25 * c + q" "(Y - 1) div 100 = 4 * n + c" "(Y - 1) div 400 = n"
    using assms(1-6) unfolding Y_def by simp_all
  show "days_before_year Y = 146097 * n + 36524 * c + 1461 * q + 365 * y"
    unfolding days_before_year_def d by (simp add: Y_def)
  show "is_leap Y \<longleftrightarrow> y = 3 \<and> (q \<noteq> 24 \<or> c = 3)"
  proof -
    have 4: "Y mod 4 = 0 \<longleftrightarrow> y = 3"
    proof -
      have "Y = (1 + y) + 4 * (100 * n + 25 * c + q)" by (simp add: Y_def)
      then have "Y mod 4 = (1 + y) mod 4" by (metis mod_mult_self2)
      moreover have "(1 + y) mod 4 = (if y = 3 then 0 else 1 + y)" using assms(5,6) by (auto simp: mod_pos_pos_trivial)
      ultimately show ?thesis using assms(5) by auto
    qed
    have 100: "Y mod 100 = 0 \<longleftrightarrow> q = 24" if "y = 3"
    proof -
      have "Y = 4 * (q + 1) + 100 * (4 * n + c)" using that by (simp add: Y_def)
      then have "Y mod 100 = (4 * (q + 1)) mod 100" by (metis mod_mult_self2)
      moreover have "(4 * (q + 1)) mod 100 = (if q = 24 then 0 else 4 * (q + 1))" using assms(3,4) by (auto simp: mod_pos_pos_trivial)
      ultimately show ?thesis using assms(3) by auto
    qed
    have 400: "Y mod 400 = 0 \<longleftrightarrow> c = 3" if "y = 3" "q = 24"
    proof -
      have "Y = 100 * (c + 1) + 400 * n" using that by (simp add: Y_def)
      then have "Y mod 400 = (100 * (c + 1)) mod 400" by (metis mod_mult_self2)
      moreover have "(100 * (c + 1)) mod 400 = (if c = 3 then 0 else 100 * (c + 1))" using assms(1,2) by (auto simp: mod_pos_pos_trivial)
      ultimately show ?thesis using assms(1) by auto
    qed
    show ?thesis unfolding is_leap_def 4 using 100 400 by auto
  qed
qed

lemma div_bounds: "0 < k \<Longrightarrow> k * (x div k) \<le> x \<and> x < k * (x div k) + k" for x k :: int
  using mult_div_mod_eq [of k x] pos_mod_bound [of k x] pos_mod_sign [of k x] by linarith

lemma split_year_days:
  assumes "0 \<le> d" "split_year d = (Y, r)"
  shows "days_before_year Y + r = d \<and> 0 \<le> r \<and> r < (if is_leap Y then 366 else 365) \<and> 1 \<le> Y \<and> (d < 3652059 \<longrightarrow> Y \<le> 9999)"
proof -
  define n d1 where "n = d div 146097" and "d1 = d - 146097 * n"
  define c0 where "c0 = d1 div 36524"
  define c where "c = c0 - c0 div 4"
  define d2 where "d2 = d1 - 36524 * c"
  define q where "q = d2 div 1461"
  define d3 where "d3 = d2 - 1461 * q"
  define y0 where "y0 = d3 div 365"
  define y where "y = y0 - y0 div 4"
  have Y: "Y = 1 + 400 * n + 100 * c + 4 * q + y" "r = d3 - 365 * y"
    using assms(2) by (simp_all only: split_year_def Let_def n_def [symmetric] d1_def [symmetric] c0_def [symmetric] c_def [symmetric]
        d2_def [symmetric] q_def [symmetric] d3_def [symmetric] y0_def [symmetric] y_def [symmetric] prod.inject cong: let_weak_cong)
  have 1: "0 \<le> n" "0 \<le> d1" "d1 < 146097"
    using assms(1) div_bounds [of 146097 d] pos_imp_zdiv_nonneg_iff [of 146097 d] unfolding d1_def n_def by auto
  have c0: "36524 * c0 \<le> d1" "d1 < 36524 * c0 + 36524" using div_bounds [of 36524 d1] unfolding c0_def by auto
  have c: "c = (if c0 = 4 then 3 else c0)" "0 \<le> c0" "c0 \<le> 4"
    using c0 1 unfolding c_def by (cases "c0 = 4"; simp)+
  have 2: "0 \<le> c" "c \<le> 3" "0 \<le> d2" "d2 < 36525" "c < 3 \<longrightarrow> d2 < 36524" using 1 c0 c unfolding d2_def by (auto split: if_splits)
  have q: "1461 * q \<le> d2" "d2 < 1461 * q + 1461" using div_bounds [of 1461 d2] unfolding q_def by auto
  have 3: "0 \<le> q" "q \<le> 24" "0 \<le> d3" "d3 < 1461" "q = 24 \<and> c < 3 \<longrightarrow> d3 < 1460" using 2 q unfolding d3_def by auto
  have y0: "365 * y0 \<le> d3" "d3 < 365 * y0 + 365" using div_bounds [of 365 d3] unfolding y0_def by auto
  have y: "y = (if y0 = 4 then 3 else y0)" "0 \<le> y0" "y0 \<le> 4"
    using y0 3 unfolding y_def by (cases "y0 = 4"; simp)+
  have 4: "0 \<le> y" "y \<le> 3" "0 \<le> d3 - 365 * y" "d3 - 365 * y < 366" "d3 - 365 * y = 365 \<longrightarrow> y = 3 \<and> d3 = 1460"
    using 3 y0 y(2,3) unfolding y(1) by (cases "y0 = 4"; simp; linarith)+
  note cd = cycle_days [OF 2(1,2) 3(1,2) 4(1,2), of n, folded Y(1)]
  have "days_before_year Y + r = d" unfolding cd(1) Y(2) d3_def d2_def d1_def by simp
  moreover have "0 \<le> r" "1 \<le> Y" using 1 2 3 4 Y by auto
  moreover have "r < (if is_leap Y then 366 else 365)"
  proof (cases "r = 365")
    case True
    then have "y = 3" "d3 = 1460" using 4(5) Y(2) by auto
    then have "is_leap Y" using 3(5) 2(2) unfolding cd(2) by linarith
    then show ?thesis using 4(4) Y(2) by simp
  next
    case False
    then show ?thesis using 4(4) Y(2) by simp
  qed
  moreover have "Y \<le> 9999" if "d < 3652059"
  proof -
    have "d = 146097 * n + 36524 * c + 1461 * q + d3" unfolding d3_def d2_def d1_def by simp
    then show ?thesis using that 2 3 4 1 Y(1) by linarith
  qed
  ultimately show ?thesis by blast
qed

lemma split_months_sum:
  assumes "split_months ls d = (k, r)" "0 \<le> d" "d < sum_list ls"
  shows "d = sum_list (take k ls) + r \<and> 0 \<le> r \<and> k < length ls \<and> r < ls ! k"
  using assms
proof (induction ls d arbitrary: k r rule: split_months.induct)
  case (2 l ls d)
  show ?case
  proof (cases "d < l")
    case False
    obtain k' r' where s: "split_months ls (d - l) = (k', r')" by (cases "split_months ls (d - l)")
    then have "k = Suc k'" "r = r'" using 2(2) False by auto
    moreover have "d - l = sum_list (take k' ls) + r' \<and> 0 \<le> r' \<and> k' < length ls \<and> r' < ls ! k'"
      using 2(1) [OF False s] 2(3,4) False by simp
    ultimately show ?thesis by simp
  qed (use 2 in auto)
qed simp

lemma length_month_lengths [simp]: "length (month_lengths leap) = 12"
  by (simp add: month_lengths_def)

lemma year_length: "sum_list (month_lengths leap) = (if leap then 366 else 365)"
  by (simp add: month_lengths_def)

lemma month_length_bound: "k < 12 \<Longrightarrow> month_lengths leap ! k \<le> 31"
proof -
  assume "k < 12"
  then have "month_lengths leap ! k \<in> set (month_lengths leap)" by (intro nth_mem) (simp add: month_lengths_def)
  then show ?thesis by (auto simp: month_lengths_def split: if_splits)
qed

lemma digits_val_zeros: "digits_val (s @ replicate k CHR ''0'') = digits_val s * 10 ^ k"
proof (induction k)
  case (Suc k)
  have "s @ replicate (Suc k) CHR ''0'' = (s @ replicate k CHR ''0'') @ [CHR ''0'']" by (simp add: replicate_append_same)
  then show ?case using Suc by (simp only: digits_val_snoc) (simp add: digit_val_def)
qed simp

lemma trim_zeros: "\<exists>k. TrimRightFunc (\<lambda>c. c = CHR ''0'') s @ replicate k CHR ''0'' = s"
proof (induction s rule: rev_induct)
  case (snoc c s)
  show ?case
  proof (cases "c = CHR ''0''")
    case True
    obtain k where k: "TrimRightFunc (\<lambda>c. c = CHR ''0'') s @ replicate k CHR ''0'' = s" using snoc by blast
    have "TrimRightFunc (\<lambda>c. c = CHR ''0'') (s @ [c]) = TrimRightFunc (\<lambda>c. c = CHR ''0'') s" using True by (simp add: TrimRightFunc_def)
    moreover have "replicate (Suc k) CHR ''0'' = replicate k CHR ''0'' @ [c]" using True by (simp add: replicate_append_same)
    ultimately show ?thesis using k by (metis append_assoc)
  next
    case False
    then show ?thesis by (intro exI [of _ 0]) (simp add: TrimRightFunc_def)
  qed
qed (simp add: TrimRightFunc_def)

lemma take_fraction_format:
  assumes "n < 10 ^ 9"
  shows "take_fraction (format_nanos n @ ''Z'') = (int n, ''Z'')"
proof -
  obtain s k where s: "s = TrimRightFunc (\<lambda>c. c = CHR ''0'') (fixed_digits 9 n)" and k: "fixed_digits 9 n = s @ replicate k CHR ''0''"
    using trim_zeros [of "fixed_digits 9 n"] by metis
  note f = fixed_digits_props [of 9 n, unfolded k]
  have len: "length s + k = 9" using f by simp
  have val: "digits_val s * 10 ^ k = int n" using f assms by (simp add: digits_val_zeros)
  have dig: "list_all is_digit s" using f by simp
  show ?thesis
  proof (cases s)
    case Nil
    then have "n = 0" using val by (simp add: digits_val_def)
    then show ?thesis using Nil s by (simp add: format_nanos_def take_fraction_def)
  next
    case (Cons d r)
    have z: "\<not> is_digit CHR ''Z''" by (simp add: is_digit_def less_eq_char_def)
    have "takeWhile is_digit (s @ ''Z'') = s" "dropWhile is_digit (s @ ''Z'') = ''Z''"
      using dig z by (simp_all add: takeWhile_append dropWhile_append list_all_iff)
    moreover have "9 - length s = k" "take 9 s = s" using len by auto
    moreover have "format_nanos n @ ''Z'' = CHR ''.'' # s @ ''Z''" using Cons s by (simp add: format_nanos_def Let_def)
    ultimately show ?thesis using Cons dig val by (simp add: take_fraction_def Let_def)
  qed
qed

definition last_formatted :: int where
  "last_formatted = 3652059 * 86400 * nanos_per_second"

lemma parse_clock_format:
  assumes "h < 24" "m < 60" "k < 60"
  shows "parse_clock (CHR ''T'' # appendInt 2 h @ CHR '':'' # appendInt 2 m @ CHR '':'' # appendInt 2 k @ r)
    = Some (int h * 3600 + int m * 60 + int k, r)"
proof -
  have "h < 100" "m < 10 ^ 2" "k < 10 ^ 2" using assms by simp_all
  note digits = take_hour_appendInt [OF this(1)] take_appendInt [OF this(2)] take_appendInt [OF this(3)]
  show ?thesis using assms unfolding parse_clock_def by (simp add: digits)
qed

lemma Parse_Format:
  assumes "0 \<le> t" "t < last_formatted"
  shows "ParseRFC3339Nano (FormatRFC3339Nano t) = Some t"
proof -
  define secs nanos days sod where "secs = t div nanos_per_second" and "nanos = t mod nanos_per_second"
    and "days = secs div 86400" and "sod = secs mod 86400"
  have n: "0 \<le> nanos" "nanos < 10 ^ 9" "t = secs * nanos_per_second + nanos" "0 \<le> secs"
    using assms(1) unfolding nanos_def secs_def nanos_per_second_def by (simp_all add: pos_imp_zdiv_nonneg_iff)
  have "secs < 3652059 * 86400" using assms(2) n(1,3) unfolding last_formatted_def nanos_per_second_def by linarith
  then have d: "0 \<le> days" "days < 3652059" "0 \<le> sod" "sod < 86400" "secs = days * 86400 + sod"
    using n(4) div_bounds [of 86400 secs] unfolding days_def sod_def by (simp_all add: pos_imp_zdiv_nonneg_iff)
  obtain y yday where y: "split_year days = (y, yday)" by (cases "split_year days")
  obtain m md where m: "split_months (month_lengths (is_leap y)) yday = (m, md)" by (cases "split_months (month_lengths (is_leap y)) yday")
  note yd = split_year_days [OF d(1) y]
  have md: "yday = sum_list (take m (month_lengths (is_leap y))) + md" "0 \<le> md" "m < 12" "md < month_lengths (is_leap y) ! m"
    using split_months_sum [OF m] yd by (auto simp: year_length)
  have md31: "md < 31" using md(4) month_length_bound [OF md(3), of "is_leap y"] by linarith
  have h: "sod div 3600 < 24" "0 \<le> sod div 3600" "0 \<le> sod div 60 mod 60" "0 \<le> sod mod 60"
    "sod = sod div 3600 * 3600 + sod div 60 mod 60 * 60 + sod mod 60"
  proof -
    show "sod div 3600 < 24" "0 \<le> sod div 3600" "0 \<le> sod div 60 mod 60" "0 \<le> sod mod 60"
      using d(3,4) div_bounds [of 3600 sod] by (auto simp: pos_imp_zdiv_nonneg_iff)
    have "sod div 3600 = sod div 60 div 60" using zdiv_zmult2_eq [of 60 sod 60] by simp
    then show "sod = sod div 3600 * 3600 + sod div 60 mod 60 * 60 + sod mod 60"
      using mult_div_mod_eq [of 60 sod] mult_div_mod_eq [of 60 "sod div 60"] by linarith
  qed
  have f: "FormatRFC3339Nano t = appendInt 4 (nat y) @ CHR ''-'' # appendInt 2 (Suc m) @ CHR ''-'' # appendInt 2 (nat (md + 1)) @ CHR ''T'' #
      appendInt 2 (nat (sod div 3600)) @ CHR '':'' # appendInt 2 (nat (sod div 60 mod 60)) @ CHR '':'' # appendInt 2 (nat (sod mod 60)) @ format_nanos (nat nanos) @ ''Z''"
    using y m by (simp add: FormatRFC3339Nano_def Let_def secs_def [symmetric] nanos_def [symmetric] days_def [symmetric] sod_def [symmetric])
  have pd: "parse_date (FormatRFC3339Nano t) = Some (y, int m + 1, md + 1, CHR ''T'' #
      appendInt 2 (nat (sod div 3600)) @ CHR '':'' # appendInt 2 (nat (sod div 60 mod 60)) @ CHR '':'' # appendInt 2 (nat (sod mod 60)) @ format_nanos (nat nanos) @ ''Z'')"
  proof -
    have "y \<le> 9999" using yd d(2) by blast
    then have "nat y < 10 ^ 4" "Suc m < 10 ^ 2" "nat (md + 1) < 10 ^ 2" using md(3) md31 by simp_all
    note digits = take_appendInt [OF this(1)] take_appendInt [OF this(2)] take_appendInt [OF this(3)]
    have "1 \<le> y" using yd by blast
    then show ?thesis using md(2-4) unfolding f parse_date_def by (simp add: digits)
  qed
  have "nat (sod div 3600) < 24" "nat (sod div 60 mod 60) < 60" "nat (sod mod 60) < 60"
    using h(1) pos_mod_bound [of 60 "sod div 60"] pos_mod_bound [of 60 sod] by simp_all
  from parse_clock_format [OF this] h(2-4)
  have "parse_clock (CHR ''T'' # appendInt 2 (nat (sod div 3600)) @ CHR '':'' # appendInt 2 (nat (sod div 60 mod 60)) @ CHR '':'' # appendInt 2 (nat (sod mod 60)) @ s)
      = Some (sod div 3600 * 3600 + sod div 60 mod 60 * 60 + sod mod 60, s)" for s
    by simp
  then have pc: "parse_clock (CHR ''T'' # appendInt 2 (nat (sod div 3600)) @ CHR '':'' # appendInt 2 (nat (sod div 60 mod 60)) @ CHR '':'' # appendInt 2 (nat (sod mod 60)) @ s) = Some (sod, s)" for s
    using h(5) by metis
  have dd: "date_days y (int m + 1) (md + 1) = days" using yd md by (simp add: date_days_def)
  show ?thesis
  proof -
    have "nat nanos < 10 ^ 9" using n(2) by simp
    from take_fraction_format [OF this] have "take_fraction (format_nanos (nat nanos) @ ''Z'') = (nanos, ''Z'')" using n(1) by simp
    then have "ParseRFC3339Nano (FormatRFC3339Nano t) = Some ((days * 86400 + sod) * nanos_per_second + nanos)"
      unfolding ParseRFC3339Nano_def pd by (simp add: pc take_zone_def dd)
    then show ?thesis using n(3) d(5) by simp
  qed
qed

lemma appendInt_digits: "c \<in> set (appendInt w n) \<Longrightarrow> is_digit c"
  using fixed_digits_props [of w n] nat_text_digits [of n] by (auto simp: appendInt_def list_all_iff split: if_splits)

lemma format_nanos_chars: "c \<in> set (format_nanos n) \<Longrightarrow> is_digit c \<or> c = CHR ''.''"
  using fixed_digits_props [of 9 n]
  by (auto simp: format_nanos_def list_all_iff TrimRightFunc_def Let_def split: if_splits dest: set_dropWhileD)

lemma Format_no_bar: "CHR ''|'' \<notin> set (FormatRFC3339Nano t)"
proof -
  have "\<not> is_digit CHR ''|''" by (simp add: is_digit_def less_eq_char_def)
  then show ?thesis
    using appendInt_digits format_nanos_chars by (fastforce simp: FormatRFC3339Nano_def Let_def split: prod.splits)
qed

end
