(* ===== verification/Store_Queries.thy ===== *)
theory Store_Queries
  imports Store_Ops Go_Encoding Complex_Main
begin

text \<open>
  The read side of \<^verbatim>\<open>store/postgres/service.go\<close>: the pages of \<^verbatim>\<open>List\<close> and
  \<^verbatim>\<open>ListDLQ\<close> with their cursors, and \<^verbatim>\<open>Metrics\<close>. The database driver sends a
  time at microsecond resolution. An average is the exact rational number; that
  \<^verbatim>\<open>float64\<close> rounds it is not modelled.
\<close>

section \<open>Pages of jobs\<close>

record list_filter =
  lf_Status :: string
  lf_Type :: string
  lf_Query :: string
  lf_Limit :: int
  lf_Cursor :: string

record list_page =
  lp_Jobs :: "job list"
  lp_NextCursor :: string
  lp_Counts :: "status \<Rightarrow> nat option"

definition encodeCursor :: "time \<Rightarrow> id \<Rightarrow> string" where
  "encodeCursor created i = EncodeToString (FormatRFC3339Nano created @ ''|'' @ i)"

definition decodeCursor :: "string \<Rightarrow> job_error + time \<times> id" where
  "decodeCursor cursor =
     (case DecodeString cursor of
        None \<Rightarrow> Inl ErrConflict
      | Some data \<Rightarrow>
          (case SplitN2 data CHR ''|'' of
             [a, i] \<Rightarrow> (case ParseRFC3339Nano a of None \<Rightarrow> Inl ErrDecode | Some created \<Rightarrow> Inr (created, i))
           | _ \<Rightarrow> Inl ErrConflict))"

text \<open>
  SQL \<^verbatim>\<open>LIKE\<close>: \<^verbatim>\<open>%\<close> stands for any text, \<^verbatim>\<open>_\<close> for one character, a
  backslash takes the next character literally. \<^verbatim>\<open>ILIKE\<close> ignores the case of ASCII
  letters.
\<close>

function like :: "string \<Rightarrow> string \<Rightarrow> bool" where
  "like [] t = (t = [])"
| "like (c # p) t =
     (if c = CHR ''%'' then like p t \<or> (case t of [] \<Rightarrow> False | _ # u \<Rightarrow> like (c # p) u)
      else if c = CHR 0x5C then (case p of [] \<Rightarrow> False | x # q \<Rightarrow> (case t of [] \<Rightarrow> False | y # u \<Rightarrow> y = x \<and> like q u))
      else (case t of [] \<Rightarrow> False | y # u \<Rightarrow> (c = CHR ''_'' \<or> y = c) \<and> like p u))"
  by pat_completeness auto
termination by (relation "measure (\<lambda>(p, t). length p + length t)") auto

definition ilike :: "string \<Rightarrow> string \<Rightarrow> bool" where
  "ilike t p = like (ToLower p) (ToLower t)"

definition effective_limit :: "int \<Rightarrow> nat" where
  "effective_limit l = (if l \<le> 0 \<or> l > 100 then 50 else nat l)"

definition list_matches :: "list_filter \<Rightarrow> jobs_row \<Rightarrow> bool" where
  "list_matches f r \<longleftrightarrow> \<not> r_internal r
     \<and> (lf_Status f \<noteq> [] \<longrightarrow> status_text (r_status r) = lf_Status f)
     \<and> (lf_Type f \<noteq> [] \<longrightarrow> r_type r = lf_Type f)
     \<and> (lf_Query f \<noteq> [] \<longrightarrow> ilike (r_id r) (''%'' @ lf_Query f @ ''%'') \<or> ilike (r_type r) (''%'' @ lf_Query f @ ''%''))"

definition list_key :: "jobs_row \<Rightarrow> time \<times> id" where
  "list_key r = (r_created_at r, r_id r)"

definition to_micros :: "time \<Rightarrow> time" where
  "to_micros t = t div 1000 * 1000"

text \<open>\<^verbatim>\<open>ORDER BY created_at DESC, id DESC LIMIT n\<close> over the rows that satisfy \<open>p\<close>.\<close>

definition list_rows :: "(jobs_row \<Rightarrow> bool) \<Rightarrow> nat \<Rightarrow> db \<Rightarrow> jobs_row list" where
  "list_rows p n d = take n (rev (sort_key list_key (filter p (jobs d))))"

definition list_page_of :: "nat \<Rightarrow> jobs_row list \<Rightarrow> db \<Rightarrow> list_page" where
  "list_page_of limit rows d =
     (let js = map scanServiceJob rows
      in if length js > limit
         then \<lparr>lp_Jobs = take limit js, lp_NextCursor = encodeCursor (CreatedAt (js ! (limit - 1))) (ID (js ! (limit - 1))), lp_Counts = Counts d\<rparr>
         else \<lparr>lp_Jobs = js, lp_NextCursor = [], lp_Counts = Counts d\<rparr>)"

definition List :: "list_filter \<Rightarrow> db \<Rightarrow> job_error + list_page" where
  "List f d =
     (let limit = effective_limit (lf_Limit f)
      in if lf_Cursor f = [] then Inr (list_page_of limit (list_rows (list_matches f) (limit + 1) d) d)
         else case decodeCursor (lf_Cursor f) of
                Inl e \<Rightarrow> Inl e
              | Inr (created, i) \<Rightarrow>
                  Inr (list_page_of limit
                    (list_rows (\<lambda>r. list_matches f r \<and> list_key r < (to_micros created, i)) (limit + 1) d) d))"

section \<open>Pages of dead-letter entries\<close>

text \<open>
  \<^verbatim>\<open>fmt.Sscan\<close> into an \<^verbatim>\<open>int64\<close>: spaces, a sign, an optional base prefix, digits with
  separating underscores; what follows is ignored.
\<close>

definition hex_val :: "char \<Rightarrow> int" where
  "hex_val c = (if is_digit c then digit_val c else int (of_char (lower c)) - 87)"

definition is_base_digit :: "int \<Rightarrow> char \<Rightarrow> bool" where
  "is_base_digit b c \<longleftrightarrow> (is_digit c \<or> CHR ''a'' \<le> lower c \<and> lower c \<le> CHR ''f'') \<and> hex_val c < b"

fun underscores_ok :: "bool \<Rightarrow> string \<Rightarrow> bool" where
  "underscores_ok digit_before [] = True"
| "underscores_ok digit_before (c # s) =
     (if c = CHR ''_'' then digit_before \<and> s \<noteq> [] \<and> underscores_ok False s else underscores_ok True s)"

definition base_value :: "int \<Rightarrow> string \<Rightarrow> int" where
  "base_value b s = foldl (\<lambda>n c. b * n + hex_val c) 0 (filter (\<lambda>c. c \<noteq> CHR ''_'') s)"

definition scan_digits :: "int \<Rightarrow> bool \<Rightarrow> string \<Rightarrow> int option" where
  "scan_digits b digit_before s =
     (let ds = takeWhile (\<lambda>c. is_base_digit b c \<or> c = CHR ''_'') s
      in if (ds = [] \<and> \<not> digit_before) \<or> \<not> underscores_ok digit_before ds then None else Some (base_value b ds))"

text \<open>A base prefix without digits does not parse; a leading zero alone makes the number octal.\<close>

definition scan_unsigned :: "string \<Rightarrow> int option" where
  "scan_unsigned s =
     (case s of
        [] \<Rightarrow> None
      | c # r \<Rightarrow>
          if c \<noteq> CHR ''0'' then scan_digits 10 False s
          else if r \<noteq> [] \<and> lower (hd r) \<in> {CHR ''b'', CHR ''o'', CHR ''x''} then
            (let b = (if lower (hd r) = CHR ''b'' then 2 else if lower (hd r) = CHR ''o'' then 8 else 16)
             in if takeWhile (\<lambda>c. is_base_digit b c \<or> c = CHR ''_'') (tl r) = [] then None else scan_digits b True (tl r))
          else scan_digits 8 True r)"

definition Sscan_int64 :: "string \<Rightarrow> int option" where
  "Sscan_int64 s0 =
     (let s = dropWhile is_space s0;
          neg = (s \<noteq> [] \<and> hd s = CHR ''-'');
          u = (if s \<noteq> [] \<and> hd s \<in> {CHR ''-'', CHR ''+''} then tl s else s)
      in case scan_unsigned u of
           None \<Rightarrow> None
         | Some v \<Rightarrow> let n = (if neg then - v else v) in if min_int64 \<le> n \<and> n \<le> max_int64 then Some n else None)"

record dlq_page =
  dp_Entries :: "dlq_row list"
  dp_NextCursor :: string

definition dlq_public :: "db \<Rightarrow> dlq_row \<Rightarrow> bool" where
  "dlq_public d e \<longleftrightarrow> (\<exists>r \<in> set (jobs d). r_id r = d_job_id e \<and> \<not> r_internal r)"

definition dlq_page_of :: "nat \<Rightarrow> dlq_row list \<Rightarrow> dlq_page" where
  "dlq_page_of limit es =
     (if length es > limit
      then \<lparr>dp_Entries = take limit es, dp_NextCursor = EncodeToString (Itoa (d_id (es ! (limit - 1))))\<rparr>
      else \<lparr>dp_Entries = es, dp_NextCursor = []\<rparr>)"

definition dlq_rows :: "(dlq_row \<Rightarrow> bool) \<Rightarrow> nat \<Rightarrow> db \<Rightarrow> dlq_row list" where
  "dlq_rows p n d = take n (rev (sort_key d_id (filter (\<lambda>e. dlq_public d e \<and> p e) (dlq d))))"

definition ListDLQ :: "int \<Rightarrow> string \<Rightarrow> db \<Rightarrow> job_error + dlq_page" where
  "ListDLQ l cursor d =
     (let limit = effective_limit l
      in if cursor = [] then Inr (dlq_page_of limit (dlq_rows (\<lambda>_. True) (limit + 1) d))
         else case DecodeString cursor of
                None \<Rightarrow> Inl ErrConflict
              | Some value \<Rightarrow>
                  (case Sscan_int64 value of
                     None \<Rightarrow> Inl ErrConflict
                   | Some i \<Rightarrow> Inr (dlq_page_of limit (dlq_rows (\<lambda>e. d_id e < i) (limit + 1) d))))"

section \<open>Metrics\<close>

record metrics =
  mt_Counts :: "status \<Rightarrow> nat option"
  mt_Submissions :: nat
  mt_Attempts :: "string \<times> string \<Rightarrow> nat option"
  mt_AverageQueueWaitSeconds :: rat
  mt_AverageHandlerSeconds :: rat
  mt_Retries :: nat
  mt_LeaseExpirations :: nat
  mt_DLQEntries :: nat
  mt_DLQReplays :: nat
  mt_WorkersFresh :: nat

text \<open>\<^verbatim>\<open>COALESCE(AVG(EXTRACT(EPOCH FROM ...)),0)\<close> over the durations of a column.\<close>

definition average_seconds :: "int list \<Rightarrow> rat" where
  "average_seconds ns = (if ns = [] then 0 else of_int (sum_list ns) / of_int (int (length ns) * nanos_per_second))"

definition durations :: "(time option \<times> time) list \<Rightarrow> int list" where
  "durations ps = concat (map (\<lambda>(t, s). case t of None \<Rightarrow> [] | Some t' \<Rightarrow> [t' - s]) ps)"

definition event_count :: "string \<Rightarrow> db \<Rightarrow> nat" where
  "event_count t d = count_where (\<lambda>e. e_event_type e = t) (job_events d)"

definition attempt_counts :: "db \<Rightarrow> string \<times> string \<Rightarrow> nat option" where
  "attempt_counts d k =
     (let n = count_where (\<lambda>a. \<exists>r \<in> set (jobs d). r_id r = a_job_id a \<and> (r_type r, a_status a) = k) (job_attempts d)
      in if n = 0 then None else Some n)"

definition Metrics :: "time \<Rightarrow> db \<Rightarrow> metrics" where
  "Metrics now d =
     \<lparr>mt_Counts = Counts d, mt_Submissions = event_count ''submitted'' d, mt_Attempts = attempt_counts d,
      mt_AverageQueueWaitSeconds = average_seconds (durations (map (\<lambda>r. (r_started_at r, r_created_at r)) (jobs d))),
      mt_AverageHandlerSeconds = average_seconds (durations (map (\<lambda>a. (a_finished_at a, a_started_at a)) (job_attempts d))),
      mt_Retries = event_count ''retry_scheduled'' d, mt_LeaseExpirations = event_count ''lease_expired'' d,
      mt_DLQEntries = count_where (dlq_public d) (dlq d),
      mt_DLQReplays = count_where (\<lambda>e. dlq_public d e \<and> d_replayed_at e \<noteq> None) (dlq d),
      mt_WorkersFresh = count_where (\<lambda>w. w_heartbeat_at w > now - 30 * nanos_per_second) (workers d)\<rparr>"

end
