(* ===== verification/Github_Url.thy ===== *)
theory Github_Url
  imports Job
begin

text \<open>
  \<^verbatim>\<open>internal/github/client.go\<close>: repository URLs, manifest paths and the fetch of one
  manifest. \<^verbatim>\<open>url.Parse\<close> of the standard library is modelled as far as the sources
  look at its result. The HTTP exchange is a parameter: it maps the path and the ref of the
  request to a transport error or to a status and a body.
\<close>

section \<open>net/url\<close>

text \<open>
  The parts of a parsed URL (\<^verbatim>\<open>Host\<close> with the port, then the two apart). Checks of \<^verbatim>\<open>url.Parse\<close> on the bytes of the user name and
  of the host are left out: they only reject URLs that the sources reject for having a user
  or a host other than the one they ask for.
\<close>

record url =
  u_Scheme :: string
  u_User :: bool
  u_Host :: string
  u_Hostname :: string
  u_Port :: string
  u_Path :: string
  u_RawQuery :: string
  u_Fragment :: string

definition is_ctl :: "char \<Rightarrow> bool" where
  "is_ctl c \<longleftrightarrow> c < CHR '' '' \<or> c = CHR 0x7F"

definition is_alpha :: "char \<Rightarrow> bool" where
  "is_alpha c \<longleftrightarrow> is_upper c \<or> is_lower c"

text \<open>\<^verbatim>\<open>strings.Cut\<close> with a one-byte separator, and the same at its last occurrence.\<close>

definition Cut :: "string \<Rightarrow> char \<Rightarrow> string \<times> string \<times> bool" where
  "Cut s c = (case dropWhile (\<lambda>x. x \<noteq> c) s of [] \<Rightarrow> (s, [], False) | _ # r \<Rightarrow> (takeWhile (\<lambda>x. x \<noteq> c) s, r, True))"

definition CutLast :: "string \<Rightarrow> char \<Rightarrow> string \<times> string \<times> bool" where
  "CutLast s c = (let (a, b, found) = Cut (rev s) c in if found then (rev b, rev a, True) else (s, [], False))"

definition is_hex :: "char \<Rightarrow> bool" where
  "is_hex c \<longleftrightarrow> is_digit c \<or> (CHR ''a'' \<le> lower c \<and> lower c \<le> CHR ''f'')"

definition unhex :: "char \<Rightarrow> nat" where
  "unhex c = (if is_digit c then of_char c - 48 else of_char (lower c) - 87)"

fun unescape :: "string \<Rightarrow> string option" where
  "unescape [] = Some []"
| "unescape (c # s) =
     (if c = CHR 0x25
      then (case s of
              x # y # r \<Rightarrow> if is_hex x \<and> is_hex y then map_option ((#) (char_of (16 * unhex x + unhex y))) (unescape r) else None
            | _ \<Rightarrow> None)
      else map_option ((#) c) (unescape s))"

definition scheme_char :: "char \<Rightarrow> bool" where
  "scheme_char c \<longleftrightarrow> is_alpha c \<or> is_digit c \<or> c \<in> set ''+-.''"

text \<open>\<^verbatim>\<open>getScheme\<close>: the scheme and the rest; a colon in front is an error.\<close>

definition getScheme :: "string \<Rightarrow> (string \<times> string) option" where
  "getScheme s =
     (let sch = takeWhile scheme_char s; r = dropWhile scheme_char s
      in if s \<noteq> [] \<and> hd s = CHR '':'' then None
         else if sch \<noteq> [] \<and> is_alpha (hd sch) \<and> r \<noteq> [] \<and> hd r = CHR '':'' then Some (sch, tl r)
         else Some ([], s))"

definition split_query :: "string \<Rightarrow> string \<times> string" where
  "split_query r =
     (if HasSuffix r ''?'' \<and> count_list r CHR ''?'' = 1 then (butlast r, [])
      else let (a, b, found) = Cut r CHR ''?'' in (a, b))"

text \<open>Host and port of an authority; the port may be empty, and is all digits.\<close>

definition split_port :: "string \<Rightarrow> (string \<times> string) option" where
  "split_port h =
     (let (a, b, found) = CutLast h CHR '':''
      in if \<not> found then Some (h, []) else if list_all is_digit b then Some (a, b) else None)"

definition parse_authority :: "string \<Rightarrow> (bool \<times> string \<times> string \<times> string) option" where
  "parse_authority a =
     (let (user, host, found) = CutLast a CHR ''@'';
          h = (if found then host else a)
      in map_option (\<lambda>(n, p). (found, h, n, p)) (split_port h))"

definition url_Parse :: "string \<Rightarrow> url option" where
  "url_Parse raw =
     (let (u, frag, _) = Cut raw CHR ''#''
      in if list_ex is_ctl u \<or> list_ex is_ctl frag then None
         else case (getScheme u, unescape frag) of
           (Some (scheme, r), Some fragment) \<Rightarrow>
             (let (rest, query) = split_query r
              in if HasPrefix rest ''//''
                 then (let rest2 = drop 2 rest; authority = takeWhile (\<lambda>c. c \<noteq> CHR ''/'') rest2
                       in case (parse_authority authority, unescape (dropWhile (\<lambda>c. c \<noteq> CHR ''/'') rest2)) of
                            (Some (user, host, name, port), Some path) \<Rightarrow>
                              Some \<lparr>u_Scheme = ToLower scheme, u_User = user, u_Host = host, u_Hostname = name, u_Port = port, u_Path = path,
                                u_RawQuery = query, u_Fragment = fragment\<rparr>
                          | _ \<Rightarrow> None)
                 else (case unescape rest of
                         None \<Rightarrow> None
                       | Some path \<Rightarrow> Some \<lparr>u_Scheme = ToLower scheme, u_User = False, u_Host = [], u_Hostname = [], u_Port = [], u_Path = path,
                           u_RawQuery = query, u_Fragment = fragment\<rparr>))
         | _ \<Rightarrow> None)"

section \<open>Repositories\<close>

record repository =
  repo_Owner :: string
  repo_Name :: string

definition ParseRepositoryURL :: "string \<Rightarrow> string + repository" where
  "ParseRepositoryURL raw =
     (case url_Parse raw of
        None \<Rightarrow> Inl ''invalid GitHub repository URL''
      | Some parsed \<Rightarrow>
          if u_Scheme parsed \<noteq> ''https'' then Inl ''GitHub repository URL must use https''
          else if \<not> EqualFold (u_Hostname parsed) ''github.com'' \<or> u_Port parsed \<noteq> [] then Inl ''GitHub repository URL host must be github.com''
          else if u_User parsed then Inl ''GitHub repository URL must not contain credentials''
          else if u_RawQuery parsed \<noteq> [] \<or> u_Fragment parsed \<noteq> [] then Inl ''GitHub repository URL must not contain a query or fragment''
          else
            let repositoryPath = TrimSuffix (TrimPrefix (u_Path parsed) ''/'') ''/''
            in case Split repositoryPath CHR ''/'' of
                 [owner, second] \<Rightarrow>
                   if owner = [] \<or> second = [] then Inl ''GitHub repository URL must have the form https://github.com/owner/repository''
                   else let name = TrimSuffix second ''.git''
                        in if name = [] then Inl ''GitHub repository URL must include a repository name''
                           else Inr \<lparr>repo_Owner = owner, repo_Name = name\<rparr>
               | _ \<Rightarrow> Inl ''GitHub repository URL must have the form https://github.com/owner/repository'')"

definition ValidateManifestPath :: "string \<Rightarrow> string option" where
  "ValidateManifestPath p =
     (if p = [] then Some ''manifest path must be non-empty''
      else if HasPrefix p ''/'' then Some ''manifest path must be repository-relative''
      else case find (\<lambda>s. s \<in> {[], ''.'', ''..''}) (Split p CHR ''/'') of
             Some s \<Rightarrow> Some (''manifest path contains invalid segment '' @ s)
           | None \<Rightarrow> None)"

section \<open>Fetching a manifest\<close>

definition defaultMaxBodyBytes :: nat where "defaultMaxBodyBytes = 1048576"

definition manifest_endpoint :: "repository \<Rightarrow> string \<Rightarrow> string" where
  "manifest_endpoint r p = ''/repos/'' @ repo_Owner r @ ''/'' @ repo_Name r @ ''/contents/'' @ p"

text \<open>The fetch; a transport error is wrapped, so that its class stays visible to the callers.\<close>

definition FetchManifest :: "(string \<Rightarrow> string \<Rightarrow> go_error + nat \<times> string) \<Rightarrow> repository \<Rightarrow> string \<Rightarrow> string \<Rightarrow> go_error + string" where
  "FetchManifest http r p ref =
     (case ValidateManifestPath p of
        Some e \<Rightarrow> Inl (PlainError e)
      | None \<Rightarrow>
          if repo_Owner r = [] \<or> repo_Name r = [] then Inl (PlainError ''GitHub repository owner and name are required'')
          else case http (manifest_endpoint r p) ref of
                 Inl e \<Rightarrow> Inl (WrapError ''fetch GitHub manifest'' e)
               | Inr (status, body) \<Rightarrow>
                   let place = repo_Owner r @ ''/'' @ repo_Name r
                   in if status = 200 then
                        (if length body > defaultMaxBodyBytes then Inl (PlainError ''GitHub manifest exceeds the 1 MiB limit'') else Inr body)
                      else if status = 404 then
                        Inl (PlainError (''GitHub manifest \"'' @ p @ ''\" was not found in '' @ place))
                      else if status \<in> {403, 429} then
                        Inl (PlainError (''GitHub API rate limit or access restriction for '' @ place @ '' manifest \"'' @ p
                          @ ''\" (status '' @ Itoa (int status) @ '')''))
                      else Inl (PlainError (''GitHub API returned status '' @ Itoa (int status) @ '' for '' @ place @ '' manifest \"'' @ p @ ''\"'')))"

lemma repository_parts:
  assumes "ParseRepositoryURL raw = Inr r"
  shows "repo_Owner r \<noteq> [] \<and> repo_Name r \<noteq> [] \<and> CHR ''/'' \<notin> set (repo_Owner r) \<and> CHR ''/'' \<notin> set (repo_Name r)"
proof -
  obtain u :: url and owner second where s: "Split (TrimSuffix (TrimPrefix (u_Path u) ''/'') ''/'') CHR ''/'' = [owner, second]"
    and o: "owner \<noteq> []" "TrimSuffix second ''.git'' \<noteq> []" "r = \<lparr>repo_Owner = owner, repo_Name = TrimSuffix second ''.git''\<rparr>"
    using assms unfolding ParseRepositoryURL_def Let_def by (clarsimp split: option.splits if_splits list.splits)
  have "CHR ''/'' \<notin> set owner" "CHR ''/'' \<notin> set second" using Split_no_sep [of _ _ "CHR ''/''"] s by (metis list.set_intros)+
  moreover have "set (TrimSuffix second ''.git'') \<subseteq> set second" by (auto simp: TrimSuffix_def dest: in_set_takeD)
  ultimately show ?thesis using o by auto
qed

lemma repository_example: "ParseRepositoryURL ''https://GitHub.com/owner/repo.git/'' = Inr \<lparr>repo_Owner = ''owner'', repo_Name = ''repo''\<rparr>"
  by code_simp

text \<open>A repository named by dots is accepted, and escapes from its place in the endpoint.\<close>

lemma repository_dots: "ParseRepositoryURL ''https://github.com/owner/..'' = Inr \<lparr>repo_Owner = ''owner'', repo_Name = ''..''\<rparr>"
  by code_simp

end
