(* ===== verification/Demo_Handler.thy ===== *)
theory Demo_Handler
  imports Job
begin

text \<open>
  The demo handler of \<^verbatim>\<open>internal/worker/demo.go\<close>, whose payload the API validates with
  the same bounds.
\<close>

record demo_payload =
  DurationMS :: int
  TransientFailures :: int
  PermanentFailure :: bool
  DemoResult :: raw_message

definition zero_demo :: demo_payload where
  "zero_demo = \<lparr>DurationMS = 0, TransientFailures = 0, PermanentFailure = False, DemoResult = None\<rparr>"

text \<open>One member of the object: an unknown name is skipped, \<^verbatim>\<open>null\<close> leaves a number or a flag alone.\<close>

definition demo_member :: "string \<Rightarrow> json \<Rightarrow> demo_payload \<Rightarrow> demo_payload option" where
  "demo_member k v p =
     (case field_for [''durationMs'', ''transientFailures'', ''permanentFailure'', ''result''] k of
        None \<Rightarrow> Some p
      | Some f \<Rightarrow>
          if f = ''result'' then Some (p\<lparr>DemoResult := Some v\<rparr>)
          else if v = JNull then Some p
          else if f = ''durationMs'' then map_option (\<lambda>n. p\<lparr>DurationMS := n\<rparr>) (unmarshal_int v)
          else if f = ''transientFailures'' then map_option (\<lambda>n. p\<lparr>TransientFailures := n\<rparr>) (unmarshal_int v)
          else (case v of JBool b \<Rightarrow> Some (p\<lparr>PermanentFailure := b\<rparr>) | _ \<Rightarrow> None))"

fun demo_members :: "(string \<times> json) list \<Rightarrow> demo_payload \<Rightarrow> demo_payload option" where
  "demo_members [] p = Some p"
| "demo_members ((k, v) # ms) p = (case demo_member k v p of None \<Rightarrow> None | Some q \<Rightarrow> demo_members ms q)"

definition demo_payload_of :: "raw_message \<Rightarrow> demo_payload option" where
  "demo_payload_of raw =
     (case raw of
        Some JNull \<Rightarrow> Some zero_demo
      | Some (JObj ms) \<Rightarrow> demo_members ms zero_demo
      | _ \<Rightarrow> None)"

definition demo_bounds :: "demo_payload \<Rightarrow> bool" where
  "demo_bounds p \<longleftrightarrow> \<not> (DurationMS p < 0 \<or> DurationMS p > 120000 \<or> TransientFailures p < 0 \<or> TransientFailures p > 20)"

text \<open>\<open>cancelled\<close>: the context ends before the configured duration.\<close>

definition demo_Handle :: "bool \<Rightarrow> job \<Rightarrow> go_error + handler_result" where
  "demo_Handle cancelled v =
     (case demo_payload_of (Payload v) of
        None \<Rightarrow> Inl (ClassifiedError ErrorPermanent (WrapError ''invalid demo payload'' (PlainError ''json'')))
      | Some p \<Rightarrow>
          if \<not> demo_bounds p then Inl (ClassifiedError ErrorPermanent (PlainError ''demo controls are outside allowed bounds''))
          else if PermanentFailure p then Inl (ClassifiedError ErrorPermanent (PlainError ''configured permanent failure''))
          else if Attempts v \<le> TransientFailures p then
            Inl (ClassifiedError ErrorTransient (PlainError (''configured transient failure '' @ Itoa (Attempts v) @ '' of '' @ Itoa (TransientFailures p))))
          else if cancelled then Inl (ClassifiedError ErrorCancelled ContextCanceled)
          else Inr \<lparr>Result = (case DemoResult p of None \<Rightarrow> Some (JObj [(''message'', JStr ''demo job completed'')]) | Some r \<Rightarrow> Some r),
                 Children = []\<rparr>)"

end
