(* ===== verification/Http_Api.thy ===== *)
theory Http_Api
  imports Store_Queries Store_Trees Github_Url Demo_Handler
begin

text \<open>
  The HTTP API of \<^verbatim>\<open>internal/httpapi/jobs.go\<close> over the PostgreSQL job service. A request
  body is the list of JSON values the decoder finds in it; a response is its status and its
  body before it is encoded as JSON or text. A store operation that fails leaves the database
  as it was.
\<close>

section \<open>Requests and responses\<close>

definition maxJobRequestBytes :: nat where "maxJobRequestBytes = 65536"

record request_body =
  rb_ContentLength :: int
  rb_Bytes :: nat
  rb_Values :: "json list"
  rb_Malformed :: bool

text \<open>A body over the limit, a syntax error, no value or a second value: an error.\<close>

definition decodeBody :: "request_body \<Rightarrow> json option" where
  "decodeBody b =
     (if rb_Bytes b > maxJobRequestBytes \<or> rb_Malformed b then None
      else case rb_Values b of [v] \<Rightarrow> Some v | _ \<Rightarrow> None)"

record submit_request =
  rq_Type :: string
  rq_Payload :: raw_message
  rq_MaxAttempts :: int

definition submit_member :: "string \<Rightarrow> json \<Rightarrow> submit_request \<Rightarrow> submit_request option" where
  "submit_member k v q =
     (case field_for [''type'', ''payload'', ''maxAttempts''] k of
        None \<Rightarrow> None
      | Some f \<Rightarrow>
          if f = ''payload'' then Some (q\<lparr>rq_Payload := Some v\<rparr>)
          else if v = JNull then Some q
          else if f = ''type'' then (case v of JStr s \<Rightarrow> Some (q\<lparr>rq_Type := s\<rparr>) | _ \<Rightarrow> None)
          else map_option (\<lambda>n. q\<lparr>rq_MaxAttempts := n\<rparr>) (unmarshal_int v))"

fun submit_members :: "(string \<times> json) list \<Rightarrow> submit_request \<Rightarrow> submit_request option" where
  "submit_members [] q = Some q"
| "submit_members ((k, v) # ms) q = (case submit_member k v q of None \<Rightarrow> None | Some r \<Rightarrow> submit_members ms r)"

text \<open>Unknown members are errors (\<^verbatim>\<open>DisallowUnknownFields\<close>).\<close>

definition decode_submit :: "request_body \<Rightarrow> submit_request option" where
  "decode_submit b =
     (let zero = \<lparr>rq_Type = [], rq_Payload = None, rq_MaxAttempts = 0\<rparr>
      in case decodeBody b of
           Some (JObj ms) \<Rightarrow> submit_members ms zero
         | Some JNull \<Rightarrow> Some zero
         | _ \<Rightarrow> None)"

fun retry_members :: "(string \<times> json) list \<Rightarrow> int \<Rightarrow> int option" where
  "retry_members [] n = Some n"
| "retry_members ((k, v) # ms) n =
     (case field_for [''maxAttempts''] k of
        None \<Rightarrow> None
      | Some f \<Rightarrow> (case (if v = JNull then Some n else unmarshal_int v) of None \<Rightarrow> None | Some m \<Rightarrow> retry_members ms m))"

text \<open>The limit of a retry or replay: an empty body means the default.\<close>

definition decode_retry :: "request_body \<Rightarrow> int option" where
  "decode_retry b =
     (if rb_ContentLength b = 0 then Some 0
      else case decodeBody b of
             Some (JObj ms) \<Rightarrow> retry_members ms 0
           | Some JNull \<Rightarrow> Some 0
           | _ \<Rightarrow> None)"

datatype api_body =
    ErrorBody string string
  | JobBody job
  | DetailBody detail
  | ListBody list_page
  | DLQBody dlq_page
  | StatusBody string
  | MetricsBody metrics

record response =
  rs_Status :: nat
  rs_Body :: api_body

definition writeAPIError :: "nat \<Rightarrow> string \<Rightarrow> string \<Rightarrow> response" where
  "writeAPIError status code message = \<lparr>rs_Status = status, rs_Body = ErrorBody code message\<rparr>"

definition writeJSON :: "nat \<Rightarrow> api_body \<Rightarrow> response" where
  "writeJSON status body = \<lparr>rs_Status = status, rs_Body = body\<rparr>"

definition handleStoreError :: "job_error \<Rightarrow> response" where
  "handleStoreError e =
     (if e = ErrNotFound then writeAPIError 404 ''job_not_found'' ''The requested resource does not exist.''
      else if e = ErrConflict then writeAPIError 409 ''job_conflict'' ''The requested transition is not allowed.''
      else writeAPIError 500 ''internal_error'' ''The request could not be completed.'')"

section \<open>Submitting\<close>

definition validate_payload :: "string \<Rightarrow> raw_message \<Rightarrow> string option" where
  "validate_payload t payload =
     (if t = ''demo'' then
        (case demo_payload_of payload of
           None \<Rightarrow> Some ''payload must be a valid demo object''
         | Some p \<Rightarrow> if \<not> demo_bounds p then Some ''demo controls are outside allowed bounds'' else None)
      else if t \<in> {''dependency_audit'', ''dependency_update_scan''} then
        (case unmarshal_strings [''repositoryUrl'', ''ref''] payload of
           None \<Rightarrow> if t = ''dependency_update_scan'' then Some ''payload must be a valid dependency update scan object''
             else Some ''payload must be a valid dependency audit object''
         | Some p \<Rightarrow> (case ParseRepositoryURL (TrimSpace (p ''repositoryUrl'')) of
             Inl _ \<Rightarrow> Some ''repositoryUrl must be https://github.com/owner/repository''
           | Inr _ \<Rightarrow> None))
      else Some ''type must be demo, dependency_audit or dependency_update_scan'')"

definition validateSubmission :: "submit_request \<Rightarrow> string option" where
  "validateSubmission input =
     (let n = (if rq_MaxAttempts input = 0 then DefaultMaxAttempts else rq_MaxAttempts input)
      in if n < 1 \<or> n > 20 then Some ''maxAttempts must be between 1 and 20''
         else validate_payload (rq_Type input) (rq_Payload input))"

text \<open>
  \<^verbatim>\<open>json.Unmarshal\<close> into \<^verbatim>\<open>any\<close> and back: members sorted, the last of equal names kept,
  numbers rewritten as \<^verbatim>\<open>float64\<close>. That rewriting of a literal, which fails out of
  range, is the parameter \<open>num\<close>.
\<close>

fun canonical :: "(string \<Rightarrow> string option) \<Rightarrow> json \<Rightarrow> json option"
  and canonical_all :: "(string \<Rightarrow> string option) \<Rightarrow> json list \<Rightarrow> json list option"
  and canonical_members :: "(string \<Rightarrow> string option) \<Rightarrow> (string \<times> json) list \<Rightarrow> (string \<times> json) list option"
where
  "canonical num (JNum t) = map_option JNum (num t)"
| "canonical num (JArr vs) = map_option JArr (canonical_all num vs)"
| "canonical num (JObj ms) =
     map_option (\<lambda>xs. JObj (map (\<lambda>k. (k, the (map_of (rev xs) k))) (sort (remdups (map fst xs))))) (canonical_members num ms)"
| "canonical num v = Some v"
| "canonical_all num [] = Some []"
| "canonical_all num (v # vs) =
     (case (canonical num v, canonical_all num vs) of (Some x, Some xs) \<Rightarrow> Some (x # xs) | _ \<Rightarrow> None)"
| "canonical_members num [] = Some []"
| "canonical_members num ((k, v) # ms) =
     (case (canonical num v, canonical_members num ms) of (Some x, Some xs) \<Rightarrow> Some ((k, x) # xs) | _ \<Rightarrow> None)"

definition requestHash :: "hash \<Rightarrow> (string \<Rightarrow> string option) \<Rightarrow> submit_request \<Rightarrow> string" where
  "requestHash H num input =
     H (rq_Type input) (rq_MaxAttempts input)
       (case rq_Payload input of
          None \<Rightarrow> None
        | Some v \<Rightarrow> (case canonical num v of Some c \<Rightarrow> Some c | None \<Rightarrow> Some v))"

record api_env =
  env_hash :: hash
  env_num :: "string \<Rightarrow> string option"
  env_now :: time
  env_id :: id

definition api_submit :: "api_env \<Rightarrow> string \<Rightarrow> request_body \<Rightarrow> db \<Rightarrow> response \<times> db" where
  "api_submit env key body d =
     (case decode_submit body of
        None \<Rightarrow> (writeAPIError 400 ''invalid_request'' ''Enter one valid JSON request object.'', d)
      | Some input0 \<Rightarrow>
          let input = (if rq_MaxAttempts input0 = 0 then input0\<lparr>rq_MaxAttempts := DefaultMaxAttempts\<rparr> else input0)
          in case validateSubmission input of
               Some message \<Rightarrow> (writeAPIError 400 ''invalid_job'' message, d)
             | None \<Rightarrow>
                 let idempotencyKey = TrimSpace key
                 in if length idempotencyKey > 128
                    then (writeAPIError 400 ''invalid_idempotency_key'' ''Idempotency-Key must be at most 128 characters.'', d)
                    else case Submit (env_hash env) (env_now env) (env_id env)
                           ((submission_of (rq_Type input) (rq_Payload input) (rq_MaxAttempts input))
                              \<lparr>sIdempotencyKey := idempotencyKey, sRequestHash := requestHash (env_hash env) (env_num env) input\<rparr>) d of
                      Inl ErrIdempotencyConflict \<Rightarrow> (writeAPIError 409 ''idempotency_conflict'' ''idempotency key reused with different input'', d)
                    | Inl _ \<Rightarrow> (writeAPIError 500 ''internal_error'' ''The job could not be submitted.'', d)
                    | Inr ((v, created), d') \<Rightarrow> (writeJSON (if created then 202 else 200) (JobBody v), d'))"

section \<open>The other endpoints\<close>

definition validStatus :: "string \<Rightarrow> bool" where
  "validStatus s \<longleftrightarrow> s \<in> set (map status_text all_statuses)"

definition api_list :: "string \<Rightarrow> string \<Rightarrow> string \<Rightarrow> string \<Rightarrow> string \<Rightarrow> db \<Rightarrow> response" where
  "api_list limit status q type cursor d =
     (if status \<noteq> [] \<and> \<not> validStatus status then writeAPIError 400 ''invalid_query'' ''The job status is invalid.''
      else if length q > 128 then writeAPIError 400 ''invalid_query'' ''The search query must be at most 128 characters.''
      else case List \<lparr>lf_Status = status, lf_Type = type, lf_Query = q, lf_Limit = fst (Atoi limit), lf_Cursor = cursor\<rparr> d of
             Inl _ \<Rightarrow> writeAPIError 400 ''invalid_query'' ''The job filters or cursor are invalid.''
           | Inr page \<Rightarrow> writeJSON 200 (ListBody page))"

definition api_get :: "id \<Rightarrow> db \<Rightarrow> response" where
  "api_get i d = (case Get i d of Inl e \<Rightarrow> handleStoreError e | Inr det \<Rightarrow> writeJSON 200 (DetailBody det))"

definition api_cancel :: "api_env \<Rightarrow> id \<Rightarrow> db \<Rightarrow> response \<times> db" where
  "api_cancel env i d =
     (case Cancel (env_now env) i d of
        Inl e \<Rightarrow> (handleStoreError e, d)
      | Inr (v, d') \<Rightarrow> (writeJSON 200 (JobBody v), d'))"

definition limit_ok :: "int \<Rightarrow> bool" where
  "limit_ok n \<longleftrightarrow> \<not> (n < 0 \<or> n > 20)"

definition api_retry :: "api_env \<Rightarrow> id \<Rightarrow> request_body \<Rightarrow> db \<Rightarrow> response \<times> db" where
  "api_retry env i body d =
     (case decode_retry body of
        None \<Rightarrow> (writeAPIError 400 ''invalid_request'' ''Enter one valid JSON request object.'', d)
      | Some n \<Rightarrow>
          if \<not> limit_ok n then (writeAPIError 400 ''invalid_job'' ''maxAttempts must be between 1 and 20.'', d)
          else case Retry (env_hash env) (env_now env) (env_id env) i n d of
                 Inl e \<Rightarrow> (handleStoreError e, d)
               | Inr (v, d') \<Rightarrow> (writeJSON 202 (JobBody v), d'))"

definition api_listDLQ :: "string \<Rightarrow> string \<Rightarrow> db \<Rightarrow> response" where
  "api_listDLQ limit cursor d =
     (case ListDLQ (fst (Atoi limit)) cursor d of
        Inl _ \<Rightarrow> writeAPIError 400 ''invalid_query'' ''The DLQ cursor is invalid.''
      | Inr page \<Rightarrow> writeJSON 200 (DLQBody page))"

definition api_replayDLQ :: "api_env \<Rightarrow> string \<Rightarrow> request_body \<Rightarrow> db \<Rightarrow> response \<times> db" where
  "api_replayDLQ env entry body d =
     (let (i, ok) = Atoi entry
      in if \<not> ok then (writeAPIError 400 ''invalid_request'' ''The DLQ entry ID is invalid.'', d)
         else case decode_retry body of
                None \<Rightarrow> (writeAPIError 400 ''invalid_request'' ''Enter one valid JSON request object.'', d)
              | Some n \<Rightarrow>
                  if \<not> limit_ok n then (writeAPIError 400 ''invalid_job'' ''maxAttempts must be between 1 and 20.'', d)
                  else case ReplayDLQ (env_now env) (env_id env) i n d of
                         Inl e \<Rightarrow> (handleStoreError e, d)
                       | Inr (v, d') \<Rightarrow> (writeJSON 202 (JobBody v), d'))"

text \<open>\<open>ready\<close>: the readiness check is absent, or whether the database answered it.\<close>

definition api_readiness :: "bool option \<Rightarrow> response" where
  "api_readiness ready =
     (if ready = Some False then writeAPIError 503 ''not_ready'' ''PostgreSQL is unavailable.'' else writeJSON 200 (StatusBody ''ready''))"

definition api_metrics :: "api_env \<Rightarrow> db \<Rightarrow> response" where
  "api_metrics env d = writeJSON 200 (MetricsBody (Metrics (env_now env) d))"

datatype api_request =
    GetHealth
  | GetReady "bool option"
  | GetMetrics
  | PostJob string request_body
  | GetJobs string string string string string
  | GetJob id
  | PostCancel id
  | PostRetry id request_body
  | GetDLQ string string
  | PostReplay string request_body

fun Routes :: "api_env \<Rightarrow> api_request \<Rightarrow> db \<Rightarrow> response \<times> db" where
  "Routes env GetHealth d = (writeJSON 200 (StatusBody ''ok''), d)"
| "Routes env (GetReady ready) d = (api_readiness ready, d)"
| "Routes env GetMetrics d = (api_metrics env d, d)"
| "Routes env (PostJob key body) d = api_submit env key body d"
| "Routes env (GetJobs limit status q type cursor) d = (api_list limit status q type cursor d, d)"
| "Routes env (GetJob i) d = (api_get i d, d)"
| "Routes env (PostCancel i) d = api_cancel env i d"
| "Routes env (PostRetry i body) d = api_retry env i body d"
| "Routes env (GetDLQ limit cursor) d = (api_listDLQ limit cursor d, d)"
| "Routes env (PostReplay entry body) d = api_replayDLQ env entry body d"

end
