(* ===== verification/Api_Theorems.thy ===== *)
theory Api_Theorems
  imports Http_Api Worker_Theorems
begin

text \<open>
  The API in front of the job service: its requests are steps of the service, its errors
  leave no trace, and its limit on attempts is what keeps the workers' delays computable.
\<close>

section \<open>Requests are steps of the service\<close>

lemma validated_limit: "validateSubmission q = None \<Longrightarrow> rq_MaxAttempts q \<noteq> 0 \<Longrightarrow> 1 \<le> rq_MaxAttempts q \<and> rq_MaxAttempts q \<le> 20"
  by (simp add: validateSubmission_def Let_def split: if_splits)

definition submitted :: "api_env \<Rightarrow> string \<Rightarrow> submit_request \<Rightarrow> submission" where
  "submitted env key q = (submission_of (rq_Type q) (rq_Payload q) (rq_MaxAttempts q))
     \<lparr>sIdempotencyKey := TrimSpace key, sRequestHash := requestHash (env_hash env) (env_num env) q\<rparr>"

definition with_default_limit :: "submit_request \<Rightarrow> submit_request" where
  "with_default_limit q = (if rq_MaxAttempts q = 0 then q\<lparr>rq_MaxAttempts := DefaultMaxAttempts\<rparr> else q)"

lemma with_default_limit_not_0: "rq_MaxAttempts (with_default_limit q) \<noteq> 0"
  by (simp add: with_default_limit_def DefaultMaxAttempts_def)

lemma api_submit_step:
  assumes "api_submit env key body d = (resp, d')"
  shows "(d' = d \<and> 400 \<le> rs_Status resp)
    \<or> (rs_Status resp < 400 \<and> (\<exists>q res. Submit (env_hash env) (env_now env) (env_id env) (submitted env key q) d = Inr (res, d')
        \<and> 1 \<le> rq_MaxAttempts q \<and> rq_MaxAttempts q \<le> 20))"
proof (cases "decode_submit body")
  case None
  then show ?thesis using assms by (auto simp: api_submit_def writeAPIError_def)
next
  case (Some q0)
  let ?q = "with_default_limit q0"
  show ?thesis
  proof (cases "validateSubmission ?q")
    case None
    note lim = validated_limit [OF None with_default_limit_not_0]
    show ?thesis
    proof (cases "length (TrimSpace key) > 128")
      case True
      then show ?thesis using assms Some None by (auto simp: api_submit_def with_default_limit_def [symmetric] Let_def writeAPIError_def)
    next
      case False
      show ?thesis
      proof (cases "Submit (env_hash env) (env_now env) (env_id env) (submitted env key ?q) d")
        case (Inl e)
        then show ?thesis using assms Some None False
          by (cases e) (auto simp: api_submit_def with_default_limit_def [symmetric] submitted_def [symmetric] Let_def writeAPIError_def)
      next
        case (Inr x)
        obtain v created d1 where x: "x = ((v, created), d1)" by (metis prod.exhaust)
        have "resp = writeJSON (if created then 202 else 200) (JobBody v)" "d' = d1"
          using assms Some None False Inr x
          by (auto simp: api_submit_def with_default_limit_def [symmetric] submitted_def [symmetric] Let_def)
        then show ?thesis using Inr x lim by (auto simp: writeJSON_def)
      qed
    qed
  next
    case (Some m)
    then show ?thesis using assms \<open>decode_submit body = Some q0\<close>
      by (auto simp: api_submit_def with_default_limit_def [symmetric] Let_def writeAPIError_def)
  qed
qed

lemma api_retry_step:
  assumes "api_retry env i body d = (resp, d')"
  shows "(d' = d \<and> 400 \<le> rs_Status resp) \<or> (rs_Status resp < 400 \<and> (\<exists>n v. Retry (env_hash env) (env_now env) (env_id env) i n d = Inr (v, d') \<and> 0 \<le> n \<and> n \<le> 20))"
  using assms
  by (auto simp: api_retry_def writeAPIError_def writeJSON_def handleStoreError_def limit_ok_def
      split: option.splits if_splits sum.splits prod.splits)

lemma api_replay_step:
  assumes "api_replayDLQ env e body d = (resp, d')"
  shows "(d' = d \<and> 400 \<le> rs_Status resp) \<or> (rs_Status resp < 400 \<and> (\<exists>k n v. ReplayDLQ (env_now env) (env_id env) k n d = Inr (v, d') \<and> 0 \<le> n \<and> n \<le> 20))"
  using assms
  by (cases "Atoi e") (auto simp: api_replayDLQ_def Let_def writeAPIError_def writeJSON_def handleStoreError_def limit_ok_def not_less
      split: option.splits if_splits sum.splits prod.splits intro!: exI)

lemma api_cancel_step:
  assumes "api_cancel env i d = (resp, d')"
  shows "(d' = d \<and> 400 \<le> rs_Status resp) \<or> (rs_Status resp < 400 \<and> (\<exists>v. Cancel (env_now env) i d = Inr (v, d')))"
  using assms
  by (auto simp: api_cancel_def writeAPIError_def writeJSON_def handleStoreError_def split: if_splits sum.splits prod.splits)

text \<open>What a request may do to the database, with the limits the API has checked.\<close>

inductive api_effect :: "api_env \<Rightarrow> db \<Rightarrow> db \<Rightarrow> bool" for env d where
  effect_submit: "Submit (env_hash env) (env_now env) (env_id env) input d = Inr (res, d') \<Longrightarrow>
     1 \<le> sMaxAttempts input \<Longrightarrow> sMaxAttempts input \<le> 20 \<Longrightarrow> sRootJobID input = [] \<Longrightarrow> \<not> sInternal input \<Longrightarrow> api_effect env d d'"
| effect_retry: "Retry (env_hash env) (env_now env) (env_id env) i n d = Inr (v, d') \<Longrightarrow> 0 \<le> n \<Longrightarrow> n \<le> 20 \<Longrightarrow> api_effect env d d'"
| effect_replay: "ReplayDLQ (env_now env) (env_id env) k n d = Inr (v, d') \<Longrightarrow> 0 \<le> n \<Longrightarrow> n \<le> 20 \<Longrightarrow> api_effect env d d'"
| effect_cancel: "Cancel (env_now env) i d = Inr (v, d') \<Longrightarrow> api_effect env d d'"

lemma Routes_effect:
  assumes "Routes env rq d = (resp, d')"
  shows "(d' = d \<or> api_effect env d d') \<and> (400 \<le> rs_Status resp \<longrightarrow> d' = d)"
proof (cases rq)
  case (PostJob key body)
  then have "api_submit env key body d = (resp, d')" using assms by simp
  from api_submit_step [OF this] show ?thesis by (auto simp: submitted_def submission_of_def intro: effect_submit)
next
  case (PostRetry i body)
  then show ?thesis using api_retry_step [of env i body d resp d'] assms by (auto intro: effect_retry)
next
  case (PostReplay e body)
  then show ?thesis using api_replay_step [of env e body d resp d'] assms by (auto intro: effect_replay)
next
  case (PostCancel i)
  then show ?thesis using api_cancel_step [of env i d resp d'] assms by (auto intro: effect_cancel)
qed (use assms in auto)

lemma effect_step:
  assumes "api_effect env (sdb s) d'"
  shows "store_step (env_hash env) s (s\<lparr>sdb := d'\<rparr>)"
  using assms
  by cases (auto intro: step_submit step_retry step_replay step_cancel simp: valid_limit_def)


definition demo_env :: api_env where
  "demo_env = \<lparr>env_hash = (\<lambda>t n p. t), env_num = Some, env_now = 7, env_id = ''j1''\<rparr>"

definition demo_body :: request_body where
  "demo_body = \<lparr>rb_ContentLength = 40, rb_Bytes = 40, rb_Values = [JObj [(''type'', JStr ''demo''), (''payload'', JObj [])]], rb_Malformed = False\<rparr>"

lemma demo_decoded:
  "decode_submit demo_body = Some \<lparr>rq_Type = ''demo'', rq_Payload = Some (JObj []), rq_MaxAttempts = 0\<rparr>"
  by (simp add: decode_submit_def decodeBody_def demo_body_def maxJobRequestBytes_def submit_member_def field_for_def Let_def)

lemma demo_validated: "validateSubmission \<lparr>rq_Type = ''demo'', rq_Payload = Some (JObj []), rq_MaxAttempts = 5\<rparr> = None"
  by (simp add: validateSubmission_def validate_payload_def demo_payload_of_def zero_demo_def demo_bounds_def)

lemma demo_request: "length (jobs (snd (Routes demo_env (PostJob ''k'' demo_body) empty_db))) = 1"
proof -
  have "TrimSpace ''k'' = ''k''" by (rule TrimSpace_id) (simp add: trimmed_def is_space_def)
  then show ?thesis
    by (simp add: api_submit_def demo_decoded demo_validated DefaultMaxAttempts_def Let_def Submit_def with_default_attempts_def
        submission_of_def submit_row_def insert_job_def job_exists_def empty_db_def demo_env_def insert_event_def find_job_def
        new_row_def writeJSON_def nullif_empty_def submissionHash_def requestHash_def split: option.splits)
qed


end
