(* ===== verification/Query_Theorems.thy ===== *)
theory Query_Theorems
  imports Store_Queries
begin

text \<open>
  A client that follows the cursors of the pages sees every matching row once, in order.
\<close>

section \<open>Cursors\<close>

lemma Decode_append_bar:
  assumes "CHR ''|'' \<notin> set a"
  shows "SplitN2 (a @ CHR ''|'' # i) CHR ''|'' = [a, i]"
  using assms by (induction a) auto

lemma decode_encode_cursor:
  assumes "0 \<le> t" "t < last_formatted"
  shows "decodeCursor (encodeCursor t i) = Inr (t, i)"
  using assms Decode_append_bar [OF Format_no_bar] by (simp add: decodeCursor_def encodeCursor_def Decode_Encode Parse_Format)

lemma encodeCursor_not_Nil: "encodeCursor t i \<noteq> []"
proof
  assume "encodeCursor t i = []"
  then have "DecodeString [] = Some (FormatRFC3339Nano t @ ''|'' @ i)" by (metis Decode_Encode encodeCursor_def)
  moreover have "DecodeString [] = Some []" by (simp add: DecodeString_def)
  ultimately show False by simp
qed

text \<open>A row whose creation time the cursor can carry: the database keeps microseconds, years have four digits.\<close>

definition stamped :: "jobs_row \<Rightarrow> bool" where
  "stamped r \<longleftrightarrow> 0 \<le> r_created_at r \<and> r_created_at r < last_formatted \<and> 1000 dvd r_created_at r"

section \<open>Following the pages\<close>

text \<open>A list in strictly descending order of a key, cut behind one of its elements.\<close>

lemma filter_below:
  fixes k :: "'a \<Rightarrow> 'b::linorder"
  assumes "sorted_wrt (\<lambda>x y. k y < k x) xs" "n < length xs"
  shows "filter (\<lambda>x. k x < k (xs ! n)) xs = drop (Suc n) xs"
  using assms
proof (induction xs arbitrary: n)
  case (Cons a xs)
  show ?case
  proof (cases n)
    case 0
    then show ?thesis using Cons.prems by (simp add: filter_id_conv)
  next
    case (Suc m)
    then have "xs ! m \<in> set xs" using Cons.prems(2) by simp
    then have "k (xs ! m) < k a" using Cons.prems(1) by simp
    then have "\<not> k a < k (xs ! m)" by simp
    then show ?thesis using Cons.IH [of m] Cons.prems Suc by simp
  qed
qed simp

lemma descending_sort:
  fixes k :: "'a \<Rightarrow> 'b::linorder"
  assumes "distinct (map k xs)"
  shows "sorted_wrt (\<lambda>x y. k y < k x) (rev (sort_key k xs))"
proof -
  have "sorted (map k (sort_key k xs))" by simp
  moreover have "distinct (map k (sort_key k xs))" using assms by (simp add: distinct_map)
  ultimately have "sorted_wrt (<) (map k (sort_key k xs))" by (simp add: strict_sorted_iff)
  then show ?thesis by (simp add: sorted_wrt_rev sorted_wrt_map)
qed

text \<open>The client: it takes a page and, while there is a cursor, the page behind it.\<close>

fun follow :: "(string \<Rightarrow> 'e + 'r list \<times> string) \<Rightarrow> nat \<Rightarrow> string \<Rightarrow> 'r list option" where
  "follow page 0 c = None"
| "follow page (Suc n) c =
     (case page c of
        Inl e \<Rightarrow> None
      | Inr (rows, c') \<Rightarrow> if c' = [] then Some rows else map_option ((@) rows) (follow page n c'))"

text \<open>
  The pages of a client that starts at a position of the list, at most \<open>limit\<close> rows each. The pages may come from any table whose cursor for the row at position \<open>k\<close>
  selects the rows behind it.
\<close>

locale paging =
  fixes page :: "string \<Rightarrow> 'e + 'r list \<times> string"
    and xs :: "'r list"
    and cursor_of :: "'r \<Rightarrow> string"
    and limit :: nat
  assumes limit_pos: "0 < limit"
    and cursor_not_Nil: "x \<in> set xs \<Longrightarrow> cursor_of x \<noteq> []"
    and first_page: "page [] = Inr (if length xs > limit then (take limit xs, cursor_of (xs ! (limit - 1))) else (xs, []))"
    and next_page: "k < length xs \<Longrightarrow> page (cursor_of (xs ! k)) =
      Inr (let ys = drop (Suc k) xs in if length ys > limit then (take limit ys, cursor_of (ys ! (limit - 1))) else (ys, []))"
begin

lemma follow_from:
  "k < length xs \<Longrightarrow> length xs - k \<le> n \<Longrightarrow> follow page n (cursor_of (xs ! k)) = Some (drop (Suc k) xs)"
proof (induction n arbitrary: k)
  case (Suc n)
  let ?ys = "drop (Suc k) xs"
  show ?case
  proof (cases "length ?ys > limit")
    case True
    then have m: "?ys ! (limit - 1) = xs ! (k + limit)" "k + limit < length xs" using limit_pos by auto
    have "follow page n (cursor_of (xs ! (k + limit))) = Some (drop (Suc (k + limit)) xs)"
      using Suc m(2) limit_pos by auto
    moreover have "take limit ?ys @ drop (Suc (k + limit)) xs = ?ys"
      using append_take_drop_id [of limit ?ys] by (simp add: add.commute)
    ultimately show ?thesis using next_page [OF Suc.prems(1)] True m cursor_not_Nil [of "xs ! (k + limit)"] by (simp add: Let_def)
  next
    case False
    then show ?thesis using next_page [OF Suc.prems(1)] by (simp add: Let_def)
  qed
qed simp

lemma follow_all: "length xs < n \<Longrightarrow> follow page n [] = Some xs"
proof (cases n)
  case (Suc m)
  assume l: "length xs < n"
  show ?thesis
  proof (cases "length xs > limit")
    case True
    then have m: "limit - 1 < length xs" by simp
    have "follow page m (cursor_of (xs ! (limit - 1))) = Some (drop limit xs)"
      using follow_from [OF m, of m] l Suc limit_pos by simp
    then show ?thesis using first_page True Suc cursor_not_Nil [of "xs ! (limit - 1)"] m by simp
  next
    case False
    then show ?thesis using first_page Suc by simp
  qed
qed simp

end

section \<open>Pages of the store\<close>

definition list_client :: "list_filter \<Rightarrow> db \<Rightarrow> string \<Rightarrow> job_error + job list \<times> string" where
  "list_client f d c = (case List (f\<lparr>lf_Cursor := c\<rparr>) d of Inl e \<Rightarrow> Inl e | Inr p \<Rightarrow> Inr (lp_Jobs p, lp_NextCursor p))"

definition listed :: "list_filter \<Rightarrow> db \<Rightarrow> jobs_row list" where
  "listed f d = rev (sort_key list_key (filter (list_matches f) (jobs d)))"

definition dlq_client :: "int \<Rightarrow> db \<Rightarrow> string \<Rightarrow> job_error + dlq_row list \<times> string" where
  "dlq_client l d c = (case ListDLQ l c d of Inl e \<Rightarrow> Inl e | Inr p \<Rightarrow> Inr (dp_Entries p, dp_NextCursor p))"

definition dlq_listed :: "db \<Rightarrow> dlq_row list" where
  "dlq_listed d = rev (sort_key d_id (filter (dlq_public d) (dlq d)))"

definition pageable :: "db \<Rightarrow> bool" where
  "pageable d \<longleftrightarrow> distinct (map r_id (jobs d)) \<and> (\<forall>r \<in> set (jobs d). stamped r)"

lemma limit_positive: "0 < effective_limit l"
  by (simp add: effective_limit_def)

lemma list_matches_cursor [simp]: "list_matches (f\<lparr>lf_Cursor := c\<rparr>) = list_matches f"
  by (simp add: list_matches_def fun_eq_iff)

lemma listed_descending:
  assumes "pageable d"
  shows "sorted_wrt (\<lambda>x y. list_key y < list_key x) (listed f d)" "\<And>r. r \<in> set (listed f d) \<Longrightarrow> stamped r"
proof -
  have "distinct (map list_key (jobs d))" using assms by (auto simp: pageable_def distinct_map inj_on_def list_key_def)
  then have "distinct (map list_key (filter (list_matches f) (jobs d)))" by (simp add: distinct_map_filter)
  then show "sorted_wrt (\<lambda>x y. list_key y < list_key x) (listed f d)" unfolding listed_def by (rule descending_sort)
  show "\<And>r. r \<in> set (listed f d) \<Longrightarrow> stamped r" using assms by (auto simp: pageable_def listed_def)
qed

lemma list_client_first:
  "list_client f d [] = Inr (let js = map scanServiceJob (listed f d); m = effective_limit (lf_Limit f)
     in if length js > m then (take m js, encodeCursor (CreatedAt (js ! (m - 1))) (ID (js ! (m - 1)))) else (js, []))"
  using limit_positive [of "lf_Limit f"]
  by (simp add: list_client_def List_def list_page_of_def list_rows_def listed_def [symmetric] Let_def take_map)

lemma to_micros_stamped: "stamped r \<Longrightarrow> to_micros (r_created_at r) = r_created_at r"
  by (auto simp: stamped_def to_micros_def)

lemma list_client_next:
  assumes "pageable d" "k < length (listed f d)"
  shows "list_client f d (encodeCursor (CreatedAt (map scanServiceJob (listed f d) ! k)) (ID (map scanServiceJob (listed f d) ! k))) =
    Inr (let js = drop (Suc k) (map scanServiceJob (listed f d)); m = effective_limit (lf_Limit f)
     in if length js > m then (take m js, encodeCursor (CreatedAt (js ! (m - 1))) (ID (js ! (m - 1)))) else (js, []))"
proof -
  let ?r = "listed f d ! k"
  have st: "stamped ?r" by (rule listed_descending(2) [OF assms(1) nth_mem [OF assms(2)]])
  then have dc: "decodeCursor (encodeCursor (r_created_at ?r) (r_id ?r)) = Inr (r_created_at ?r, r_id ?r)"
    by (intro decode_encode_cursor) (simp_all add: stamped_def)
  have "filter (\<lambda>r. list_matches f r \<and> list_key r < list_key ?r) (jobs d) = filter (\<lambda>r. list_key r < list_key ?r) (filter (list_matches f) (jobs d))"
    by simp
  then have "rev (sort_key list_key (filter (\<lambda>r. list_matches f r \<and> list_key r < list_key ?r) (jobs d))) = filter (\<lambda>r. list_key r < list_key ?r) (listed f d)"
    by (simp only: listed_def rev_filter [symmetric] filter_sort)
  also have "\<dots> = drop (Suc k) (listed f d)" using filter_below [OF listed_descending(1) [OF assms(1)] assms(2)] .
  finally have rows: "list_rows (\<lambda>r. list_matches f r \<and> list_key r < (r_created_at ?r, r_id ?r)) n d = take n (drop (Suc k) (listed f d))" for n
    by (simp add: list_rows_def list_key_def)
  show ?thesis
    using assms(2) dc to_micros_stamped [OF st] limit_positive [of "lf_Limit f"] encodeCursor_not_Nil [of "r_created_at ?r" "r_id ?r"]
    by (simp add: list_client_def List_def list_page_of_def rows Let_def take_map drop_map scanServiceJob_def)
qed

text \<open>The database, or the empty one when a row is outside the range of the cursors.\<close>

definition in_range :: "db \<Rightarrow> db" where
  "in_range d = (if pageable d then d else empty_db)"

lemma pageable_in_range: "pageable (in_range d)"
  by (simp add: in_range_def pageable_def empty_db_def)

interpretation job_pages: paging "list_client f (in_range d)" "map scanServiceJob (listed f (in_range d))"
  "\<lambda>j. encodeCursor (CreatedAt j) (ID j)" "effective_limit (lf_Limit f)" for f d
proof
  fix k
  assume "k < length (map scanServiceJob (listed f (in_range d)))"
  then have "k < length (listed f (in_range d))" by simp
  note n = list_client_next [OF pageable_in_range this]
  show "list_client f (in_range d) (encodeCursor (CreatedAt (map scanServiceJob (listed f (in_range d)) ! k)) (ID (map scanServiceJob (listed f (in_range d)) ! k))) =
    Inr (let ys = drop (Suc k) (map scanServiceJob (listed f (in_range d)))
         in if effective_limit (lf_Limit f) < length ys
            then (take (effective_limit (lf_Limit f)) ys, encodeCursor (CreatedAt (ys ! (effective_limit (lf_Limit f) - 1))) (ID (ys ! (effective_limit (lf_Limit f) - 1))))
            else (ys, []))"
    unfolding n by (simp add: Let_def)
qed (simp_all add: limit_positive encodeCursor_not_Nil list_client_first Let_def)

text \<open>
  C34: A client that follows the cursors of \<^verbatim>\<open>List\<close> from the first page gets, within as many
  requests as there are jobs and one more, every public job that the filter selects,
  newest first and none twice, whatever page size it asked for.\<close>

theorem list_pages_complete:
  assumes "distinct (map r_id (jobs d))"
    "\<forall>r \<in> set (jobs d). 0 \<le> r_created_at r \<and> r_created_at r < last_formatted \<and> 1000 dvd r_created_at r"
    "length (jobs d) < n"
  shows "follow (list_client f d) n [] = Some (map scanServiceJob (listed f d))
    \<and> set (listed f d) = {r \<in> set (jobs d). list_matches f r}
    \<and> sorted_wrt (\<lambda>x y. (r_created_at y, r_id y) < (r_created_at x, r_id x)) (listed f d)"
proof -
  have p: "pageable d" using assms by (simp add: pageable_def stamped_def)
  then have r: "in_range d = d" by (simp add: in_range_def)
  have "length (listed f d) \<le> length (jobs d)" by (simp add: listed_def)
  then have "follow (list_client f d) n [] = Some (map scanServiceJob (listed f d))"
    using job_pages.follow_all [of f d n] assms(3) unfolding r by simp
  moreover have "set (listed f d) = {r \<in> set (jobs d). list_matches f r}" by (auto simp: listed_def)
  ultimately show ?thesis using listed_descending(1) [OF p] by (simp add: list_key_def)
qed

definition stamped_job :: "id \<Rightarrow> time \<Rightarrow> jobs_row" where
  "stamped_job i t = (new_row 0 i ''demo'' None 5 i)\<lparr>r_created_at := t\<rparr>"

theorem list_pages_complete_witness:
  "follow (list_client \<lparr>lf_Status = [], lf_Type = [], lf_Query = [], lf_Limit = 1, lf_Cursor = []\<rparr>
      (empty_db\<lparr>jobs := [stamped_job ''a'' 5000, stamped_job ''b'' 63000000000000001000]\<rparr>)) 3 []
    = Some (map scanServiceJob [stamped_job ''b'' 63000000000000001000, stamped_job ''a'' 5000])"
proof -
  let ?f = "\<lparr>lf_Status = [], lf_Type = [], lf_Query = [], lf_Limit = 1, lf_Cursor = []\<rparr>"
  let ?d = "empty_db\<lparr>jobs := [stamped_job ''a'' 5000, stamped_job ''b'' 63000000000000001000]\<rparr>"
  have "listed ?f ?d = [stamped_job ''b'' 63000000000000001000, stamped_job ''a'' 5000]"
    by (simp add: listed_def list_matches_def stamped_job_def new_row_def list_key_def)
  moreover have "follow (list_client ?f ?d) 3 [] = Some (map scanServiceJob (listed ?f ?d))"
    using list_pages_complete [of ?d 3 ?f] by (simp add: stamped_job_def new_row_def last_formatted_def nanos_per_second_def)
  ultimately show ?thesis by simp
qed

section \<open>Pages of the dead-letter queue\<close>

lemma nat_text_nonzero: "0 < n \<Longrightarrow> nat_text n = c # s \<Longrightarrow> c \<noteq> CHR ''0''"
proof (induction n arbitrary: c s rule: nat_text.induct)
  case (1 n)
  show ?case
  proof (cases "n < 10")
    case True
    then have "c = char_of (48 + n)" using 1 by (simp add: nat_text.simps [of n])
    then have "of_char c = 48 + n" using True by simp
    then show ?thesis using 1(2) by auto
  next
    case False
    then obtain c' s' where t: "nat_text (n div 10) = c' # s'" by (cases "nat_text (n div 10)") auto
    then have "c = c'" using 1(3) False by (simp add: nat_text.simps [of n])
    then show ?thesis using 1(1) [OF False _ t] False by simp
  qed
qed

lemma not_digit_underscore: "is_digit c \<Longrightarrow> c \<noteq> CHR ''_''"
  by (auto simp: is_digit_def less_eq_char_def)

lemma base_value_digits: "list_all is_digit s \<Longrightarrow> base_value 10 s = digits_val s"
proof -
  assume d: "list_all is_digit s"
  then have "filter (\<lambda>c. c \<noteq> CHR ''_'') s = s" using not_digit_underscore by (auto simp: list_all_iff filter_id_conv)
  moreover have "foldl (\<lambda>n c. 10 * n + hex_val c) a s = foldl (\<lambda>n c. 10 * n + digit_val c) a s" for a
    using d by (induction s arbitrary: a) (simp_all add: hex_val_def)
  ultimately show ?thesis by (simp add: base_value_def digits_val_def)
qed

lemma underscores_digits: "list_all is_digit s \<Longrightarrow> underscores_ok b s"
  by (induction s arbitrary: b) (auto simp: is_digit_def less_eq_char_def)

lemma digit_bound: "is_digit c \<Longrightarrow> digit_val c < 10"
  by (auto simp: is_digit_def digit_val_def less_eq_char_def)

lemma Sscan_Itoa: "0 < n \<Longrightarrow> n \<le> max_int64 \<Longrightarrow> Sscan_int64 (Itoa n) = Some n"
proof -
  assume n: "0 < n" "n \<le> max_int64"
  obtain c s where t: "nat_text (nat n) = c # s" by (cases "nat_text (nat n)") auto
  note d = nat_text_digits [of "nat n"]
  have c: "is_digit c" "c \<noteq> CHR ''0''" using d t nat_text_nonzero [of "nat n" c s] n by auto
  have sp: "\<not> is_space c" "c \<noteq> CHR ''-''" "c \<noteq> CHR ''+''" using c(1) by (auto simp: is_space_def is_digit_def less_eq_char_def)
  have "takeWhile (\<lambda>x. is_base_digit 10 x \<or> x = CHR ''_'') (c # s) = c # s"
    using d unfolding t [symmetric] takeWhile_eq_all_conv by (auto simp: list_all_iff is_base_digit_def hex_val_def digit_bound)
  then have "scan_unsigned (c # s) = Some (digits_val (c # s))"
    using c d underscores_digits [of "c # s"] base_value_digits [of "c # s"] unfolding t
    by (simp only: scan_unsigned_def scan_digits_def Let_def list.case simp_thms if_True if_False list.distinct not_False_eq_True)
  moreover have "digits_val (c # s) = n" using digits_val_nat_text [of "nat n"] n unfolding t by simp
  ultimately show ?thesis using n sp by (simp add: Sscan_int64_def Itoa_def t Let_def min_int64_def)
qed

definition dlq_pageable :: "db \<Rightarrow> bool" where
  "dlq_pageable d \<longleftrightarrow> distinct (map d_id (dlq d)) \<and> (\<forall>e \<in> set (dlq d). 0 < d_id e \<and> d_id e \<le> max_int64)"

lemma dlq_cursor:
  "0 < n \<Longrightarrow> n \<le> max_int64 \<Longrightarrow> EncodeToString (Itoa n) \<noteq> [] \<and> DecodeString (EncodeToString (Itoa n)) = Some (Itoa n)"
proof -
  assume n: "0 < n" "n \<le> max_int64"
  have "Itoa n \<noteq> []" using n by (simp add: Itoa_def)
  moreover have "DecodeString [] = Some []" by (simp add: DecodeString_def)
  ultimately show ?thesis using Decode_Encode [of "Itoa n"] by (metis option.inject)
qed

definition dlq_cursor_of :: "dlq_row \<Rightarrow> string" where
  "dlq_cursor_of e = EncodeToString (Itoa (d_id e))"

lemma dlq_listed_descending:
  assumes "dlq_pageable d"
  shows "sorted_wrt (\<lambda>x y. d_id y < d_id x) (dlq_listed d)"
proof -
  have "distinct (map d_id (filter (dlq_public d) (dlq d)))" using assms by (simp add: dlq_pageable_def distinct_map_filter)
  then show ?thesis unfolding dlq_listed_def by (rule descending_sort)
qed

lemma dlq_listed_id:
  assumes "dlq_pageable d" "e \<in> set (dlq_listed d)"
  shows "0 < d_id e \<and> d_id e \<le> max_int64"
  using assms by (auto simp: dlq_pageable_def dlq_listed_def)

lemma dlq_client_first:
  "dlq_client l d [] = Inr (if length (dlq_listed d) > effective_limit l
     then (take (effective_limit l) (dlq_listed d), dlq_cursor_of (dlq_listed d ! (effective_limit l - 1))) else (dlq_listed d, []))"
  using limit_positive [of l]
  by (simp add: dlq_client_def ListDLQ_def dlq_page_of_def dlq_rows_def dlq_listed_def [symmetric] Let_def dlq_cursor_of_def)

lemma dlq_client_next:
  assumes "dlq_pageable d" "k < length (dlq_listed d)"
  shows "dlq_client l d (dlq_cursor_of (dlq_listed d ! k)) =
    Inr (let es = drop (Suc k) (dlq_listed d) in if length es > effective_limit l
      then (take (effective_limit l) es, dlq_cursor_of (es ! (effective_limit l - 1))) else (es, []))"
proof -
  let ?e = "dlq_listed d ! k"
  have i: "0 < d_id ?e" "d_id ?e \<le> max_int64" using dlq_listed_id [OF assms(1) nth_mem [OF assms(2)]] by blast+
  have "filter (\<lambda>e. dlq_public d e \<and> d_id e < d_id ?e) (dlq d) = filter (\<lambda>e. d_id e < d_id ?e) (filter (dlq_public d) (dlq d))" by simp
  then have "rev (sort_key d_id (filter (\<lambda>e. dlq_public d e \<and> d_id e < d_id ?e) (dlq d))) = filter (\<lambda>e. d_id e < d_id ?e) (dlq_listed d)"
    by (simp only: dlq_listed_def rev_filter [symmetric] filter_sort)
  also have "\<dots> = drop (Suc k) (dlq_listed d)" using filter_below [OF dlq_listed_descending [OF assms(1)] assms(2)] .
  finally have rows: "dlq_rows (\<lambda>e. d_id e < d_id ?e) n d = take n (drop (Suc k) (dlq_listed d))" for n
    by (simp add: dlq_rows_def)
  show ?thesis
    using dlq_cursor [OF i] Sscan_Itoa [OF i] limit_positive [of l]
    by (simp add: dlq_client_def ListDLQ_def dlq_cursor_of_def dlq_page_of_def rows Let_def)
qed

definition dlq_in_range :: "db \<Rightarrow> db" where
  "dlq_in_range d = (if dlq_pageable d then d else empty_db)"

lemma dlq_pageable_in_range: "dlq_pageable (dlq_in_range d)"
  by (simp add: dlq_in_range_def dlq_pageable_def empty_db_def)

interpretation dlq_pages: paging "dlq_client l (dlq_in_range d)" "dlq_listed (dlq_in_range d)" dlq_cursor_of "effective_limit l" for l d
proof
  fix e
  assume "e \<in> set (dlq_listed (dlq_in_range d))"
  from dlq_listed_id [OF dlq_pageable_in_range this] show "dlq_cursor_of e \<noteq> []" using dlq_cursor by (simp add: dlq_cursor_of_def)
qed (simp_all add: limit_positive dlq_client_first dlq_client_next [OF dlq_pageable_in_range] Let_def)

text \<open>
  The same for the dead-letter queue: following the cursors of \<^verbatim>\<open>ListDLQ\<close> yields
  every entry of a public job once, the latest first.\<close>

theorem dlq_pages_complete:
  assumes "distinct (map d_id (dlq d))" "\<forall>e \<in> set (dlq d). 0 < d_id e \<and> d_id e \<le> max_int64" "length (dlq d) < n"
  shows "follow (dlq_client l d) n [] = Some (dlq_listed d)
    \<and> set (dlq_listed d) = {e \<in> set (dlq d). \<exists>r \<in> set (jobs d). r_id r = d_job_id e \<and> \<not> r_internal r}
    \<and> sorted_wrt (\<lambda>x y. d_id y < d_id x) (dlq_listed d)"
proof -
  have p: "dlq_pageable d" using assms by (simp add: dlq_pageable_def)
  then have r: "dlq_in_range d = d" by (simp add: dlq_in_range_def)
  have "length (dlq_listed d) \<le> length (dlq d)" by (simp add: dlq_listed_def)
  then have "follow (dlq_client l d) n [] = Some (dlq_listed d)"
    using dlq_pages.follow_all [of d n l] assms(3) unfolding r by simp
  moreover have "set (dlq_listed d) = {e \<in> set (dlq d). \<exists>r \<in> set (jobs d). r_id r = d_job_id e \<and> \<not> r_internal r}"
    by (auto simp: dlq_listed_def dlq_public_def)
  ultimately show ?thesis using dlq_listed_descending [OF p] by blast
qed

definition dead_entry :: "int \<Rightarrow> dlq_row" where
  "dead_entry k = \<lparr>d_id = k, d_job_id = ''a'', d_job_type = ''demo'', d_payload = None, d_attempts = 1, d_error = [], d_dead_at = 0,
     d_error_kind = None, d_root_job_id = None, d_parent_job_id = None, d_replayed_at = None, d_replayed_as_job_id = None\<rparr>"

theorem dlq_pages_complete_witness:
  "follow (dlq_client 1 (empty_db\<lparr>jobs := [stamped_job ''a'' 0], dlq := [dead_entry 1, dead_entry 2]\<rparr>)) 3 []
    = Some [dead_entry 2, dead_entry 1]"
proof -
  let ?d = "empty_db\<lparr>jobs := [stamped_job ''a'' 0], dlq := [dead_entry 1, dead_entry 2]\<rparr>"
  have "dlq_listed ?d = [dead_entry 2, dead_entry 1]"
    by (simp add: dlq_listed_def dlq_public_def dead_entry_def stamped_job_def new_row_def)
  moreover have "follow (dlq_client 1 ?d) 3 [] = Some (dlq_listed ?d)"
    using dlq_pages_complete [of ?d 3 1] by (simp add: dead_entry_def max_int64_def)
  ultimately show ?thesis by simp
qed

end
