(* ===== verification/Depfile.thy ===== *)
theory Depfile
  imports Pypi_Requirement Gomod_Selection Go_Json "HOL-Library.AList"
begin

text \<open>
  The dependency files of \<^verbatim>\<open>internal/depfile\<close>: \<^verbatim>\<open>package.json\<close>,
  \<^verbatim>\<open>pyproject.toml\<close>, \<^verbatim>\<open>requirements.txt\<close> and \<^verbatim>\<open>go.mod\<close>, and the parser of a
  dependency's \<^verbatim>\<open>go.mod\<close> in \<^verbatim>\<open>gomod/metadata.go\<close>. The texts of JSON, TOML and
  \<^verbatim>\<open>go.mod\<close> are read by libraries; the models start from the documents they decode to.
  Errors are messages; a wrapped error keeps its own text.
\<close>

section \<open>Manifests\<close>

record dependency =
  dep_Name :: string
  dep_VersionRange :: string
  dep_Indirect :: bool

record manifest =
  mf_Name :: string
  mf_Dependencies :: "dependency list"

definition direct :: "string \<Rightarrow> string \<Rightarrow> dependency" where
  "direct n v = \<lparr>dep_Name = n, dep_VersionRange = v, dep_Indirect = False\<rparr>"

text \<open>
  \<^verbatim>\<open>sort.Slice\<close> by name and range. Entries that compare equal are equal, so the
  result does not depend on the algorithm.
\<close>

definition sort_dependencies :: "dependency list \<Rightarrow> dependency list" where
  "sort_dependencies = sort_key (\<lambda>d. (dep_Name d, dep_VersionRange d))"

section \<open>package.json\<close>

record package_json =
  pj_Name :: string
  pj_Dependencies :: "(string \<times> string) list"
  pj_DevDependencies :: "(string \<times> string) list"

text \<open>Decoding into a \<^verbatim>\<open>map[string]string\<close>: a later member replaces an earlier one, \<^verbatim>\<open>null\<close> is the empty string.\<close>

fun string_map :: "(string \<times> json) list \<Rightarrow> (string \<times> string) list \<Rightarrow> (string \<times> string) list option" where
  "string_map [] m = Some m"
| "string_map ((k, JStr s) # ms) m = string_map ms (AList.update k s m)"
| "string_map ((k, JNull) # ms) m = string_map ms (AList.update k [] m)"
| "string_map ((k, v) # ms) m = None"

definition decode_map :: "json \<Rightarrow> (string \<times> string) list \<Rightarrow> (string \<times> string) list option" where
  "decode_map v m = (case v of JNull \<Rightarrow> Some [] | JObj ms \<Rightarrow> string_map ms m | _ \<Rightarrow> None)"

definition package_member :: "string \<Rightarrow> json \<Rightarrow> package_json \<Rightarrow> package_json option" where
  "package_member k v p =
     (case field_for [''name'', ''dependencies'', ''devDependencies''] k of
        None \<Rightarrow> Some p
      | Some f \<Rightarrow>
          if f = ''name'' then (case v of JStr s \<Rightarrow> Some (p\<lparr>pj_Name := s\<rparr>) | JNull \<Rightarrow> Some p | _ \<Rightarrow> None)
          else if f = ''dependencies'' then map_option (\<lambda>m. p\<lparr>pj_Dependencies := m\<rparr>) (decode_map v (pj_Dependencies p))
          else map_option (\<lambda>m. p\<lparr>pj_DevDependencies := m\<rparr>) (decode_map v (pj_DevDependencies p)))"

fun package_members :: "(string \<times> json) list \<Rightarrow> package_json \<Rightarrow> package_json option" where
  "package_members [] p = Some p"
| "package_members ((k, v) # ms) p = (case package_member k v p of None \<Rightarrow> None | Some q \<Rightarrow> package_members ms q)"

definition package_json_of :: "json option \<Rightarrow> package_json option" where
  "package_json_of doc =
     (let zero = \<lparr>pj_Name = [], pj_Dependencies = [], pj_DevDependencies = []\<rparr>
      in case doc of Some (JObj ms) \<Rightarrow> package_members ms zero | Some JNull \<Rightarrow> Some zero | _ \<Rightarrow> None)"

text \<open>\<open>doc\<close>: the first JSON value of the file, if there is one.\<close>

definition ParsePackageJSON :: "json option \<Rightarrow> bool \<Rightarrow> string + manifest" where
  "ParsePackageJSON doc includeDevDeps =
     (case package_json_of doc of
        None \<Rightarrow> Inl ''depfile: decode package.json''
      | Some pkg \<Rightarrow>
          let dependencies = map (\<lambda>(n, v). direct n v) (pj_Dependencies pkg)
                @ (if includeDevDeps then map (\<lambda>(n, v). direct n v) (pj_DevDependencies pkg) else [])
          in Inr \<lparr>mf_Name = pj_Name pkg, mf_Dependencies = sort_dependencies dependencies\<rparr>)"

section \<open>Python requirements\<close>

text \<open>
  The map from names to their constraints, in the order of the requirements. An entry is
  made even when the constraint is empty.
\<close>

definition add_constraint :: "python_requirement \<Rightarrow> (string \<times> string list) list \<Rightarrow> (string \<times> string list) list" where
  "add_constraint r m =
     (if \<not> pr_Active r then m
      else
        let constraint = TrimSpace (pr_Constraint r);
            present = (case map_of m (pr_Name r) of None \<Rightarrow> [] | Some cs \<Rightarrow> cs)
        in if constraint \<noteq> [] \<and> constraint \<notin> set present then AList.update (pr_Name r) (present @ [constraint]) m
           else if map_of m (pr_Name r) = None then AList.update (pr_Name r) [] m
           else m)"

definition pythonDependencies :: "python_requirement list \<Rightarrow> dependency list" where
  "pythonDependencies requirements =
     sort_dependencies (map (\<lambda>(n, values). direct n (Join (sort values) '','')) (fold add_constraint requirements []))"

text \<open>A requirement that evaluates a marker may not end (\<open>None\<close>), as in the parser of markers.\<close>

fun parse_requirements :: "(string \<times> nat) list \<Rightarrow> target \<Rightarrow> string \<Rightarrow> (string + python_requirement list) option" where
  "parse_requirements [] T what = Some (Inr [])"
| "parse_requirements ((v, n) # vs) T what =
     (case ParseRequirement v T of
        None \<Rightarrow> None
      | Some (Inl e) \<Rightarrow> Some (Inl (''depfile: '' @ what @ Itoa (int n) @ '': '' @ e))
      | Some (Inr r) \<Rightarrow>
          (case parse_requirements vs T what of
             None \<Rightarrow> None
           | Some (Inl e) \<Rightarrow> Some (Inl e)
           | Some (Inr rs) \<Rightarrow> Some (Inr (r # rs))))"

definition parsePythonRequirements :: "string list \<Rightarrow> target \<Rightarrow> string \<Rightarrow> (string + dependency list) option" where
  "parsePythonRequirements values T source =
     map_option (map_sum id pythonDependencies)
       (parse_requirements (map (\<lambda>(i, v). (v, Suc i)) (enumerate 0 values)) T (source @ '' requirement ''))"

section \<open>pyproject.toml\<close>

record pyproject =
  pp_Name :: string
  pp_Dependencies :: "string list"
  pp_Dynamic :: "string list"

definition ParsePyProject :: "pyproject option \<Rightarrow> target \<Rightarrow> (string + manifest) option" where
  "ParsePyProject doc T =
     (case doc of
        None \<Rightarrow> Some (Inl ''depfile: decode pyproject.toml'')
      | Some p \<Rightarrow>
          let name = TrimSpace (pp_Name p)
          in if name = [] then Some (Inl ''depfile: pyproject.toml requires [project].name'')
             else if list_ex (\<lambda>f. EqualFold (TrimSpace f) ''dependencies'') (pp_Dynamic p)
             then Some (Inl ''depfile: dynamic pyproject.toml dependencies are not supported'')
             else map_option (map_sum id (\<lambda>ds. \<lparr>mf_Name = name, mf_Dependencies = ds\<rparr>))
                    (parsePythonRequirements (pp_Dependencies p) T ''pyproject.toml''))"

section \<open>requirements.txt\<close>

definition backslash :: char where "backslash = CHR 0x5C"

definition trim_right_blank :: "string \<Rightarrow> string" where
  "trim_right_blank = TrimRightFunc (\<lambda>c. c = CHR '' '' \<or> c = CHR 0x09 \<or> c = CHR 0x0D)"

definition hasLineContinuation :: "string \<Rightarrow> bool" where
  "hasLineContinuation line \<longleftrightarrow> odd (length (takeWhile (\<lambda>c. c = backslash) (rev (trim_right_blank line))))"

text \<open>\<open>before\<close>: the byte in front; none at the start of the line.\<close>

fun strip_comment :: "char option \<Rightarrow> char option \<Rightarrow> string \<Rightarrow> string" where
  "strip_comment before quote [] = []"
| "strip_comment before (Some q) (c # s) = c # strip_comment (Some c) (if c = q then None else Some q) s"
| "strip_comment before None (c # s) =
     (if c = CHR 0x27 \<or> c = CHR 0x22 then c # strip_comment (Some c) (Some c) s
      else if c = CHR ''#'' \<and> (before = None \<or> before = Some (CHR '' '') \<or> before = Some (CHR 0x09)) then []
      else c # strip_comment (Some c) None s)"

definition stripRequirementsComment :: "string \<Rightarrow> string" where
  "stripRequirementsComment line = strip_comment None None line"

definition validateRequirementsLine :: "string \<Rightarrow> string option" where
  "validateRequirementsLine line =
     (let l = ToLower (TrimSpace line)
      in if HasPrefix l ''-'' then Some ''pip directives and options are not supported''
         else if Contains line ''${'' then Some ''environment-variable substitution is not supported''
         else if Contains l '' --hash'' \<or> Contains l '' --'' then Some ''per-requirement pip options are not supported''
         else None)"

text \<open>\<^verbatim>\<open>bufio.ScanLines\<close>: lines without their end; an unterminated last line counts unless it is empty.\<close>

definition scan_lines :: "string \<Rightarrow> string list" where
  "scan_lines text = (let ls = Split text CHR 0x0A in if last ls = [] then butlast ls else ls)"

definition drop_cr :: "string \<Rightarrow> string" where
  "drop_cr l = (if l \<noteq> [] \<and> last l = CHR 0x0D then butlast l else l)"

definition maxRequirementsLine :: nat where "maxRequirementsLine = 1048576"

definition line_error :: "nat \<Rightarrow> string \<Rightarrow> string" where
  "line_error n e = ''depfile: requirements.txt line '' @ Itoa (int n) @ '': '' @ e"

fun logical_lines :: "nat \<Rightarrow> string \<Rightarrow> nat \<Rightarrow> string list \<Rightarrow> string + (string \<times> nat) list" where
  "logical_lines lineNumber continued continuedLine [] =
     (if continued \<noteq> [] then Inl (line_error continuedLine ''unterminated line continuation'') else Inr [])"
| "logical_lines lineNumber continued continuedLine0 (raw # ls) =
     (if length raw \<ge> maxRequirementsLine then Inl ''depfile: read requirements.txt: bufio.Scanner: token too long''
      else
        let line = drop_cr raw;
            continuedLine = (if continued = [] then lineNumber else continuedLine0)
        in if hasLineContinuation line
           then logical_lines (Suc lineNumber) (continued @ TrimSpace (TrimSuffix (trim_right_blank line) [backslash]) @ '' '') continuedLine ls
           else
             let logicalLine = TrimSpace (stripRequirementsComment (continued @ line))
             in if logicalLine = [] then logical_lines (Suc lineNumber) [] continuedLine ls
                else case validateRequirementsLine logicalLine of
                       Some e \<Rightarrow> Inl (line_error continuedLine e)
                     | None \<Rightarrow>
                         (case logical_lines (Suc lineNumber) [] continuedLine ls of
                            Inl e \<Rightarrow> Inl e
                          | Inr rs \<Rightarrow> Inr ((logicalLine, continuedLine) # rs)))"

definition ParseRequirements :: "string \<Rightarrow> string \<Rightarrow> target \<Rightarrow> (string + manifest) option" where
  "ParseRequirements text rootName T =
     (if TrimSpace rootName = [] then Some (Inl ''depfile: requirements.txt root name is required'')
      else case logical_lines 1 [] 0 (scan_lines text) of
             Inl e \<Rightarrow> Some (Inl e)
           | Inr ls \<Rightarrow> map_option (map_sum id (\<lambda>rs. \<lparr>mf_Name = rootName, mf_Dependencies = pythonDependencies rs\<rparr>))
               (parse_requirements ls T ''requirements.txt line ''))"

section \<open>go.mod\<close>

text \<open>A parsed \<^verbatim>\<open>modfile.File\<close>: the directives the sources read.\<close>

record mod_file =
  fi_Module :: "string option"
  fi_Go :: "string option"
  fi_Require :: "(string \<times> string \<times> bool) list"
  fi_Replace :: nat
  fi_Exclude :: nat

record go_manifest =
  gm_Manifest :: manifest
  gm_GoVersion :: string

definition check_requirement :: "modlib \<Rightarrow> string \<Rightarrow> string \<Rightarrow> string option" where
  "check_requirement L path version =
     (if \<not> ml_Check L path version then Some (path @ ''@'' @ version)
      else if ml_CanonicalVersion L version \<noteq> version then Some (path @ ''@'' @ version @ '': version must be canonical'')
      else if ml_IsPseudoVersion L version \<and> \<not> (ml_PseudoVersionTime L version \<and> ml_PseudoVersionBase L version)
      then Some (path @ ''@'' @ version @ '': invalid pseudo-version'')
      else None)"

definition compare_dependencies :: "modlib \<Rightarrow> dependency \<Rightarrow> dependency \<Rightarrow> int" where
  "compare_dependencies L a b =
     (if dep_Name a \<noteq> dep_Name b then compareString (dep_Name a) (dep_Name b)
      else let c = ml_Compare L (dep_VersionRange a) (dep_VersionRange b)
           in if c \<noteq> 0 then c else compareString (dep_VersionRange a) (dep_VersionRange b))"

definition ParseGoMod :: "modlib \<Rightarrow> mod_file option \<Rightarrow> string + go_manifest" where
  "ParseGoMod L doc =
     (case doc of
        None \<Rightarrow> Inl ''depfile: parse go.mod''
      | Some file \<Rightarrow>
          (case fi_Module file of
             None \<Rightarrow> Inl ''depfile: go.mod requires a module directive''
           | Some path \<Rightarrow>
               if TrimSpace path = [] then Inl ''depfile: go.mod requires a module directive''
               else if \<not> ml_CheckPath L path then Inl (''depfile: go.mod module '' @ path)
               else (case fi_Go file of
                       None \<Rightarrow> Inl ''depfile: go.mod requires a go directive''
                     | Some go \<Rightarrow>
                         if TrimSpace go = [] then Inl ''depfile: go.mod requires a go directive''
                         else if fi_Replace file \<noteq> 0 then Inl ''depfile: go.mod replace directives are not supported''
                         else if fi_Exclude file \<noteq> 0 then Inl ''depfile: go.mod exclude directives are not supported''
                         else (case List.find (\<lambda>(p, v, i). check_requirement L p v \<noteq> None) (fi_Require file) of
                                 Some (p, v, i) \<Rightarrow> Inl (''depfile: go.mod requirement '' @ the (check_requirement L p v))
                               | None \<Rightarrow> Inr \<lparr>gm_Manifest = \<lparr>mf_Name = path,
                                   mf_Dependencies = sort_cmp (compare_dependencies L) (map (\<lambda>(p, v, i). \<lparr>dep_Name = p, dep_VersionRange = v, dep_Indirect = i\<rparr>) (fi_Require file))\<rparr>,
                                   gm_GoVersion = go\<rparr>))))"

definition compare_requirements :: "modlib \<Rightarrow> requirement \<Rightarrow> requirement \<Rightarrow> int" where
  "compare_requirements L a b =
     (if rq_path a \<noteq> rq_path b then compareString (rq_path a) (rq_path b)
      else let c = compareCanonicalVersions L (rq_version a) (rq_version b)
           in if c \<noteq> 0 then c else compareString (rq_version a) (rq_version b))"

definition ParseMetadata :: "modlib \<Rightarrow> mod_file option \<Rightarrow> string + metadata" where
  "ParseMetadata L doc =
     (case doc of
        None \<Rightarrow> Inl ''parse dependency go.mod''
      | Some file \<Rightarrow>
          (case fi_Module file of
             None \<Rightarrow> Inl ''dependency go.mod requires a module directive''
           | Some path \<Rightarrow>
               if TrimSpace path = [] then Inl ''dependency go.mod requires a module directive''
               else if \<not> ml_CheckPath L path then Inl (''dependency go.mod module '' @ path)
               else (case List.find (\<lambda>(p, v, i). \<not> ValidateCoordinate L p v) (fi_Require file) of
                       Some (p, v, i) \<Rightarrow> Inl (''dependency go.mod requirement '' @ p @ ''@'' @ v)
                     | None \<Rightarrow> Inr \<lparr>md_path = path, md_go = (case fi_Go file of None \<Rightarrow> [] | Some g \<Rightarrow> g),
                         md_requirements = sort_cmp (compare_requirements L) (map (\<lambda>(p, v, i). \<lparr>rq_path = p, rq_version = v, rq_indirect = i\<rparr>) (fi_Require file))\<rparr>)))"

end
