(* ===== verification/Depfile_Theorems.thy ===== *)
theory Depfile_Theorems
  imports Depfile
begin

text \<open>
  What the dependency lists mean: the lists of Python requirements are merged per package in
  a way that no order or repetition of the lines changes, and logical lines are put together
  from physical ones without losing any.
\<close>

section \<open>Merging Python requirements\<close>

definition required_names :: "python_requirement list \<Rightarrow> string set" where
  "required_names rs = pr_Name ` {r \<in> set rs. pr_Active r}"

definition required_constraints :: "python_requirement list \<Rightarrow> string \<Rightarrow> string set" where
  "required_constraints rs n = {TrimSpace (pr_Constraint r) | r. r \<in> set rs \<and> pr_Active r \<and> pr_Name r = n} - {[]}"

text \<open>The map that the loop builds: one entry for each name, its constraints once each.\<close>

definition collected :: "python_requirement list \<Rightarrow> (string \<times> string list) list \<Rightarrow> bool" where
  "collected rs m \<longleftrightarrow> distinct (map fst m) \<and> fst ` set m = required_names rs
     \<and> (\<forall>(n, cs) \<in> set m. distinct cs \<and> set cs = required_constraints rs n)"

lemma required_snoc:
  "required_names (rs @ [r]) = (if pr_Active r then insert (pr_Name r) (required_names rs) else required_names rs)"
  "required_constraints (rs @ [r]) n = (if pr_Active r \<and> pr_Name r = n \<and> TrimSpace (pr_Constraint r) \<noteq> []
     then insert (TrimSpace (pr_Constraint r)) (required_constraints rs n) else required_constraints rs n)"
  by (auto simp: required_names_def required_constraints_def)

lemma required_constraints_fresh: "n \<notin> required_names rs \<Longrightarrow> required_constraints rs n = {}"
  by (auto simp: required_names_def required_constraints_def)

lemma collected_lookup:
  assumes "collected rs m" "map_of m n = Some cs"
  shows "distinct cs \<and> set cs = required_constraints rs n"
  using map_of_SomeD [OF assms(2)] assms(1) unfolding collected_def by blast

lemma collected_update:
  assumes "collected rs m" "pr_Active r" "distinct cs" "set cs = required_constraints (rs @ [r]) (pr_Name r)"
  shows "collected (rs @ [r]) (AList.update (pr_Name r) cs m)"
proof -
  have d: "distinct (map fst (AList.update (pr_Name r) cs m))" using assms(1) by (simp add: collected_def distinct_update)
  have k: "fst ` set (AList.update (pr_Name r) cs m) = required_names (rs @ [r])"
    using assms(1,2) dom_update [of "pr_Name r" cs m] by (simp add: collected_def required_snoc)
  have "distinct v \<and> set v = required_constraints (rs @ [r]) n" if "(n, v) \<in> set (AList.update (pr_Name r) cs m)" for n v
  proof -
    have "map_of (AList.update (pr_Name r) cs m) n = Some v" using d that by simp
    then have v: "(if n = pr_Name r then Some cs else map_of m n) = Some v" by (simp add: update_conv')
    show ?thesis
    proof (cases "n = pr_Name r")
      case True
      then show ?thesis using v assms(3,4) by simp
    next
      case False
      then show ?thesis using v collected_lookup [OF assms(1), of n v] by (simp add: required_snoc)
    qed
  qed
  then show ?thesis using d k unfolding collected_def by blast
qed

lemma collected_add:
  assumes "collected rs m"
  shows "collected (rs @ [r]) (add_constraint r m)"
proof (cases "pr_Active r")
  case False
  then show ?thesis using assms by (simp add: add_constraint_def collected_def required_snoc case_prod_beta)
next
  case True
  let ?c = "TrimSpace (pr_Constraint r)"
  have none: "map_of m (pr_Name r) = None \<longleftrightarrow> pr_Name r \<notin> required_names rs" using assms by (simp add: collected_def map_of_eq_None_iff)
  show ?thesis
  proof (cases "map_of m (pr_Name r)")
    case None
    then have "required_constraints rs (pr_Name r) = {}" using none required_constraints_fresh by blast
    then show ?thesis using None True collected_update [OF assms True]
      by (auto simp: add_constraint_def Let_def required_snoc)
  next
    case (Some cs)
    note l = collected_lookup [OF assms Some]
    show ?thesis
    proof (cases "?c \<noteq> [] \<and> ?c \<notin> set cs")
      case new: True
      then have "add_constraint r m = AList.update (pr_Name r) (cs @ [?c]) m" using Some True by (simp add: add_constraint_def Let_def)
      then show ?thesis using collected_update [OF assms True, of "cs @ [?c]"] l new True by (simp add: required_snoc)
    next
      case False
      then have "add_constraint r m = m" using Some True by (auto simp: add_constraint_def Let_def)
      moreover have "required_constraints (rs @ [r]) n = required_constraints rs n" for n using False True l by (auto simp: required_snoc)
      moreover have "required_names (rs @ [r]) = required_names rs" using none Some True by (auto simp: required_snoc)
      ultimately show ?thesis using assms by (simp add: collected_def)
    qed
  qed
qed

lemma collected_fold: "collected rs (fold add_constraint rs [])"
proof (induction rs rule: rev_induct)
  case Nil
  then show ?case by (simp add: collected_def required_names_def)
next
  case (snoc r rs)
  then show ?case using collected_add by simp
qed

definition merged :: "python_requirement list \<Rightarrow> string \<Rightarrow> dependency" where
  "merged rs n = direct n (Join (sorted_list_of_set (required_constraints rs n)) '','')"

lemma merged_set: "set (pythonDependencies rs) = merged rs ` required_names rs"
proof -
  let ?m = "fold add_constraint rs []"
  have c: "collected rs ?m" by (rule collected_fold)
  have e: "sort cs = sorted_list_of_set (required_constraints rs n)" if "(n, cs) \<in> set ?m" for n cs
    using c that sorted_list_of_set_sort_remdups [of cs] by (auto simp: collected_def distinct_remdups_id)
  have "set (pythonDependencies rs) = (\<lambda>(n, cs). direct n (Join (sort cs) '','')) ` set ?m"
    by (simp add: pythonDependencies_def sort_dependencies_def)
  also have "\<dots> = merged rs ` fst ` set ?m" using e by (force simp: merged_def image_iff)
  finally show ?thesis using c by (simp add: collected_def)
qed

lemma merged_sorted: "sorted_wrt (\<lambda>a b. dep_Name a < dep_Name b) (pythonDependencies rs)"
proof -
  let ?k = "\<lambda>d. (dep_Name d, dep_VersionRange d)"
  have c: "collected rs (fold add_constraint rs [])" by (rule collected_fold)
  let ?ds = "map (\<lambda>(n, values). direct n (Join (sort values) '','')) (fold add_constraint rs [])"
  have n: "map dep_Name ?ds = map fst (fold add_constraint rs [])" by (simp add: direct_def case_prod_beta)
  have "distinct (map dep_Name ?ds)" unfolding n using c by (simp add: collected_def)
  then have d: "distinct (map dep_Name (pythonDependencies rs))"
    unfolding distinct_map [of dep_Name] by (simp add: pythonDependencies_def sort_dependencies_def)
  have "sorted (map ?k (pythonDependencies rs))" by (simp add: pythonDependencies_def sort_dependencies_def)
  then have "sorted_wrt (\<lambda>a b. ?k a \<le> ?k b) (pythonDependencies rs)" by (simp add: sorted_map)
  then have "sorted_wrt (\<lambda>a b. dep_Name a \<le> dep_Name b) (pythonDependencies rs)"
    by (rule sorted_wrt_mono_rel [rotated]) auto
  then have "sorted (map dep_Name (pythonDependencies rs))" by (simp add: sorted_map)
  with d have "sorted_wrt (<) (map dep_Name (pythonDependencies rs))" by (simp add: strict_sorted_iff)
  then show ?thesis by (simp add: sorted_wrt_map)
qed

lemma sorted_names_unique:
  assumes "sorted_wrt (\<lambda>a b. dep_Name a < dep_Name b) xs" "sorted_wrt (\<lambda>a b. dep_Name a < dep_Name b) ys" "set xs = set ys"
  shows "xs = ys"
proof -
  have "sorted_wrt (<) (map dep_Name xs)" "sorted_wrt (<) (map dep_Name ys)" using assms(1,2) by (simp_all add: sorted_wrt_map)
  then have s: "sorted (map dep_Name xs)" "distinct (map dep_Name xs)" "sorted (map dep_Name ys)" "distinct (map dep_Name ys)"
    by (simp_all add: strict_sorted_iff)
  then have "map dep_Name xs = map dep_Name ys" using assms(3) by (intro sorted_distinct_set_unique) simp_all
  moreover have "inj_on dep_Name (set xs \<union> set ys)" using s(2) assms(3) by (simp add: distinct_map)
  ultimately show ?thesis by (rule map_inj_on)
qed

text \<open>
  C35: The Python dependencies of a manifest depend only on which requirements are active:
  lists of requirements with the same members yield the same list, whatever their order
  and repetitions. Each required package appears once, in the order of names, with its
  distinct non-empty constraints sorted and joined.\<close>

theorem python_dependencies_canonical:
  assumes "set rs = set rs'"
  shows "pythonDependencies rs = pythonDependencies rs'
    \<and> sorted_wrt (\<lambda>a b. dep_Name a < dep_Name b) (pythonDependencies rs)
    \<and> set (pythonDependencies rs) = {direct n (Join (sorted_list_of_set (required_constraints rs n)) '','') | n. n \<in> required_names rs}"
proof -
  have e: "required_names rs = required_names rs'" "required_constraints rs = required_constraints rs'"
    using assms by (simp_all add: required_names_def required_constraints_def [abs_def])
  then have "set (pythonDependencies rs) = set (pythonDependencies rs')" by (simp add: merged_set merged_def [abs_def])
  then have "pythonDependencies rs = pythonDependencies rs'" by (rule sorted_names_unique [OF merged_sorted merged_sorted])
  moreover have "set (pythonDependencies rs) = {direct n (Join (sorted_list_of_set (required_constraints rs n)) '','') | n. n \<in> required_names rs}"
    unfolding merged_set merged_def by blast
  ultimately show ?thesis using merged_sorted by blast
qed

definition python_demo :: "string \<Rightarrow> string \<Rightarrow> python_requirement" where
  "python_demo n c = \<lparr>pr_Name = n, pr_Constraint = c, pr_Marker = [], pr_Active = True\<rparr>"

theorem python_dependencies_canonical_witness:
  "pythonDependencies [python_demo ''b'' ''<2'', python_demo ''a'' [], python_demo ''b'' ''<2'']
    = pythonDependencies [python_demo ''a'' [], python_demo ''b'' ''<2'']"
  using python_dependencies_canonical
    [of "[python_demo ''b'' ''<2'', python_demo ''a'' [], python_demo ''b'' ''<2'']" "[python_demo ''a'' [], python_demo ''b'' ''<2'']"]
  by auto

end
