(* ===== verification/App_Rows.thy ===== *)
theory App_Rows
  imports Api_Theorems Worker_Theorems
begin

text \<open>
  What stays true of the rows of the job table because it only speaks of the part of a row
  that no operation changes: its id, type, payload, limit, root, parent and key. Such a law
  has to be checked where rows are created and nowhere else.
\<close>

definition every_row :: "(jobs_row \<Rightarrow> bool) \<Rightarrow> db \<Rightarrow> bool" where
  "every_row P d \<longleftrightarrow> (\<forall>r \<in> set (jobs d). P r)"

lemma every_row_jobs: "jobs d' = jobs d \<Longrightarrow> every_row P d \<Longrightarrow> every_row P d'"
  by (simp add: every_row_def)

section \<open>Statements\<close>

text \<open>Legal statements keep the identity of every row and append rows.\<close>

lemma stmts_identity:
  "stmts legal d d' \<Longrightarrow> \<exists>rows ext. jobs d' = rows @ ext \<and> list_all2 same_identity (jobs d) rows"
proof (induction rule: rtranclp_induct)
  case base
  have "list_all2 same_identity (jobs d) (jobs d)" by (simp add: list_all2_same same_identity_def)
  then show ?case by (intro exI [of _ "jobs d"] exI [of _ "[]"]) simp
next
  case (step d' d'')
  then obtain rows ext where e: "jobs d' = rows @ ext" "list_all2 same_identity (jobs d) rows" by blast
  from step(2) show ?case
  proof (cases rule: stmt.cases)
    case (stmt_update p f)
    let ?u = "upd_where p f"
    have id: "same_identity r (f r)" if "r \<in> set (jobs d')" "p r" for r using stmt_update that by (auto simp: legal_def)
    have "list_all2 same_identity (jobs d) (?u rows)"
    proof (rule list_all2I)
      show "length (jobs d) = length (?u rows)" using e(2) by (simp add: list_all2_lengthD)
      show "\<forall>x \<in> set (zip (jobs d) (?u rows)). case x of (a, b) \<Rightarrow> same_identity a b"
      proof clarify
        fix a b assume "(a, b) \<in> set (zip (jobs d) (?u rows))"
        then obtain k where k: "k < length (jobs d)" "k < length rows" "a = jobs d ! k" "b = ?u rows ! k"
          by (auto simp: set_zip)
        then have 1: "same_identity a (rows ! k)" using list_all2_nthD [OF e(2)] by simp
        have "b = rows ! k \<or> p (rows ! k) \<and> b = f (rows ! k)" using k by (simp add: upd_where_def)
        moreover have "rows ! k \<in> set (jobs d')" using k(2) e(1) by simp
        ultimately show "same_identity a b" using 1 id [of "rows ! k"] by (auto simp: same_identity_def)
      qed
    qed
    moreover have "jobs d'' = ?u rows @ ?u ext" using stmt_update e(1) by (simp add: upd_where_append)
    ultimately show ?thesis by blast
  next
    case (stmt_insert r b)
    from stmt_insert(1) show ?thesis using e by (cases rule: insert_job_cases) auto
  next
    case stmt_other
    with e show ?thesis by auto
  qed
qed

section \<open>Operations that insert no job\<close>

lemma finalizeRoot_length: "finalizeRoot now rt d = Inr (u, d') \<Longrightarrow> length (jobs d') = length (jobs d)"
  by (erule finalizeRoot_jobs) simp_all

lemma Fail_length: "Fail now v kind m t d = Inr (u, d') \<Longrightarrow> length (jobs d') = length (jobs d)"
  by (erule Fail_cases) (auto dest: finalizeRoot_length)

lemma reclaim_all_length: "reclaim_all now vs d = Inr (u, d') \<Longrightarrow> length (jobs d') = length (jobs d)"
proof (induction now vs d rule: reclaim_all.induct)
  case (2 now v vs d)
  from "2.prems" obtain d1 where one: "reclaim_one now v d = Inr ((), d1)" and rest: "reclaim_all now vs d1 = Inr (u, d')"
    by (auto split: sum.splits)
  from one have "length (jobs d1) = length (jobs d)"
    by (cases rule: reclaim_one_cases) (auto dest: finalizeRoot_length)
  with "2.IH" [OF one _ rest] show ?case by simp
qed simp

lemma ReclaimExpired_length: "ReclaimExpired now d = Inr (m, d') \<Longrightarrow> length (jobs d') = length (jobs d)"
  by (auto simp: ReclaimExpired_def Let_def dest: reclaim_all_length split: sum.splits)

lemma Cancel_length:
  assumes "Cancel now i d = Inr (w, d')" "jobs_inv d"
  shows "length (jobs d') = length (jobs d)"
  using assms
proof (cases rule: Cancel_cases)
  case (one v)
  show ?thesis unfolding one(5) by (rule length_upd_where)
next
  case (req v)
  show ?thesis unfolding req(5) by (rule length_upd_where)
next
  case (tree v)
  show ?thesis unfolding tree(4) by simp
next
  case none
  then show ?thesis by simp
qed

section \<open>Laws on the immutable part of a row\<close>

locale row_law =
  fixes P :: "jobs_row \<Rightarrow> bool"
  assumes identity: "same_identity r r' \<Longrightarrow> P r \<Longrightarrow> P r'"
begin

lemma by_statements:
  assumes "stmts legal d d'" "length (jobs d') = length (jobs d)" "every_row P d"
  shows "every_row P d'"
proof -
  obtain rows ext where e: "jobs d' = rows @ ext" "list_all2 same_identity (jobs d) rows"
    using stmts_identity [OF assms(1)] by blast
  then have "ext = []" using assms(2) by (auto dest: list_all2_lengthD)
  moreover have "P r" if "r \<in> set rows" for r
  proof -
    obtain k where k: "k < length rows" "r = rows ! k" using \<open>r \<in> set rows\<close> by (auto simp: in_set_conv_nth)
    then have "jobs d ! k \<in> set (jobs d)" "same_identity (jobs d ! k) r"
      using list_all2_lengthD [OF e(2)] list_all2_nthD2 [OF e(2)] by auto
    then show ?thesis using identity assms(3) by (auto simp: every_row_def)
  qed
  ultimately show ?thesis using e(1) by (simp add: every_row_def)
qed

lemma kept: "stmts keeps d d' \<Longrightarrow> length (jobs d') = length (jobs d) \<Longrightarrow> every_row P d \<Longrightarrow> every_row P d'"
  by (rule by_statements [OF stmts_mono [OF _ keeps_legal]])

lemma updated:
  assumes "every_row P d" "\<And>r. same_identity r (f r)"
  shows "every_row P (update_jobs p f d)"
  using assms identity by (auto simp: every_row_def set_upd_where)

lemma inserted: "insert_job r d = Inr (b, d') \<Longrightarrow> P r \<Longrightarrow> every_row P d \<Longrightarrow> every_row P d'"
  by (auto simp: every_row_def elim!: insert_job_cases)

lemma submitted_row:
  assumes "Submit H now i input d = Inr (res, d')" "P (submit_row H now i (with_default_attempts input))" "every_row P d"
  shows "every_row P d'"
proof -
  from assms(1) obtain b d1 where ins: "insert_job (submit_row H now i (with_default_attempts input)) d = Inr (b, d1)"
    and jobs: "jobs d' = jobs d1"
    by (auto simp: Submit_def Let_def split: sum.splits prod.splits if_splits option.splits)
  show ?thesis by (rule every_row_jobs [OF jobs inserted [OF ins assms(2,3)]])
qed

lemma finalized: "finalizeRoot now rt d = Inr (u, d') \<Longrightarrow> every_row P d \<Longrightarrow> every_row P d'"
  by (erule finalizeRoot_jobs)
    (auto simp: every_row_def set_upd_where finalize_row_def Let_def same_identity_def intro: identity split: if_splits)

lemma children_inserted:
  "insert_children H now newid n v cs d = Inr (u, d') \<Longrightarrow>
   \<forall>c \<in> set cs. \<forall>i. P (child_row H now i (with_default_attempts (adopt v c))) \<Longrightarrow> every_row P d \<Longrightarrow> every_row P d'"
proof (induction H now newid n v cs d rule: insert_children.induct)
  case (2 H now newid n v c cs d)
  from "2.prems"(1) obtain d1 d2 where rel: "insertAuditRelationship (adopt v c) d = Inr ((), d1)"
    and sub: "insertSubmission H now (newid n) (adopt v c) d1 = Inr ((), d2)"
    and rest: "insert_children H now newid (Suc n) v cs d2 = Inr (u, d')"
    by (auto split: sum.splits)
  from sub obtain b where ins: "insert_job (child_row H now (newid n) (with_default_attempts (adopt v c))) d1 = Inr (b, d2)"
    by (auto simp: insertSubmission_def split: sum.splits prod.splits)
  have "every_row P d1" using every_row_jobs [OF insertAuditRelationship_jobs [OF rel]] "2.prems"(3) by blast
  then have "every_row P d2" using inserted [OF ins] "2.prems"(2) by simp
  then show ?case using "2.IH" [OF rel _ sub _ rest] "2.prems"(2) by simp
qed simp

lemma completed:
  assumes C: "Complete H now newid v res d = Inr (u, d')" and law: "every_row P d"
    and cs: "\<forall>c \<in> set (Children res). \<forall>i. P (child_row H now i (with_default_attempts (adopt v c)))"
  shows "every_row P d'"
  using C
proof (cases rule: Complete_cases)
  case (1 d3 d4)
  have "every_row P (update_jobs (owns v) (complete_row now (complete_status v res)) d)"
    by (rule updated [OF law]) (simp add: same_identity_def complete_row_def release_row_def)
  then have "every_row P (complete_attempt now v (update_jobs (owns v) (complete_row now (complete_status v res)) d))"
    by (rule every_row_jobs [rotated]) simp
  then have "every_row P d3" using children_inserted [OF 1(2) cs] by blast
  then have "every_row P d4" using insert_audit_result_jobs [OF 1(3)] by (simp add: every_row_def)
  then have "every_row P (insert_event now (ID v) (status_text (complete_status v res)) (Some (Attempts v)) (Some (LockedBy v)) (JObj []) d4)"
    by (rule every_row_jobs [rotated]) simp
  then show ?thesis using 1(4) finalized by (auto simp: Let_def split: if_splits)
qed

lemma failed: "Fail now v kind m t d = Inr (u, d') \<Longrightarrow> value_ok v d \<Longrightarrow> every_row P d \<Longrightarrow> every_row P d'"
  by (rule kept [OF Fail_keeps Fail_length])

lemma reclaimed: "ReclaimExpired now d = Inr (m, d') \<Longrightarrow> jobs_inv d \<Longrightarrow> every_row P d \<Longrightarrow> every_row P d'"
  by (rule kept [OF ReclaimExpired_keeps ReclaimExpired_length])

lemma cancelled: "Cancel now i d = Inr (w, d') \<Longrightarrow> jobs_inv d \<Longrightarrow> every_row P d \<Longrightarrow> every_row P d'"
  by (rule kept [OF Cancel_keeps Cancel_length])

lemma after_fail: "value_ok v d \<Longrightarrow> every_row P d \<Longrightarrow> every_row P (after (Fail now v kind m t d) d)"
  by (auto simp: after_def split: sum.splits dest: failed)

lemma heartbeat: "every_row P d \<Longrightarrow> every_row P (snd (Heartbeat now v lease d))"
  by (auto simp: Heartbeat_def Let_def intro!: updated simp: same_identity_def)

lemma maintained:
  assumes "jobs_inv d" "every_row P d"
  shows "every_row P (maintenanceLoop (pg_store H) worker [m] d)"
proof (cases m)
  case (WorkerHeartbeatDue now)
  then show ?thesis using assms(2) by (simp add: every_row_def WorkerHeartbeat_def)
next
  case (RecoveryDue now)
  then show ?thesis using assms reclaimed by (auto simp: after_def split: sum.splits)
qed (use assms(2) in simp)

end

end
