(* ===== verification/Registry.thy ===== *)
theory Registry
  imports Depfile Auditor_Graph
begin

text \<open>
  Version ranges (\<^verbatim>\<open>internal/semver\<close>), the classification of version gaps
  (\<^verbatim>\<open>internal/updater\<close>) and the npm registry client (\<^verbatim>\<open>auditor/registry.go\<close>). The
  functions of \<^verbatim>\<open>Masterminds/semver\<close> and the HTTP exchange are arguments. Where the
  source quotes a text with \<^verbatim>\<open>%q\<close> the model puts it between quotation marks.
\<close>

definition quoted :: "string \<Rightarrow> string" where
  "quoted s = ''\"'' @ s @ ''\"''"

section \<open>Version ranges\<close>

text \<open>The library: constraints are predicates on versions, versions are compared by precedence.\<close>

record 'v mslib =
  ms_NewConstraint :: "string \<Rightarrow> ('v \<Rightarrow> bool) option"
  ms_NewVersion :: "string \<Rightarrow> 'v option"
  ms_Compare :: "'v \<Rightarrow> 'v \<Rightarrow> int"
  ms_Major :: "'v \<Rightarrow> nat"
  ms_Minor :: "'v \<Rightarrow> nat"
  ms_Patch :: "'v \<Rightarrow> nat"

record 'v semver_constraint =
  sc_inner :: "'v \<Rightarrow> bool"
  sc_raw :: string

text \<open>
  \<^verbatim>\<open>sort.Slice\<close> is not stable: the algorithm is an argument, and a candidate is kept
  with the text \<^verbatim>\<open>Original\<close> returns.
\<close>

type_synonym 'v candidate_sort = "(string \<times> 'v \<Rightarrow> string \<times> 'v \<Rightarrow> bool) \<Rightarrow> (string \<times> 'v) list \<Rightarrow> (string \<times> 'v) list"

definition ParseRange :: "'v mslib \<Rightarrow> string \<Rightarrow> go_error + 'v semver_constraint" where
  "ParseRange L rangeStr =
     (case ms_NewConstraint L rangeStr of
        None \<Rightarrow> Inl (WrapError (''semver: parse range '' @ quoted rangeStr) (PlainError ''constraint''))
      | Some c \<Rightarrow> Inr \<lparr>sc_inner = c, sc_raw = rangeStr\<rparr>)"

definition satisfying :: "'v mslib \<Rightarrow> 'v semver_constraint \<Rightarrow> string list \<Rightarrow> (string \<times> 'v) list" where
  "satisfying L c available =
     List.map_filter (\<lambda>v. case ms_NewVersion L v of None \<Rightarrow> None | Some parsed \<Rightarrow> if sc_inner c parsed then Some (v, parsed) else None) available"

definition Resolve :: "'v mslib \<Rightarrow> 'v candidate_sort \<Rightarrow> 'v semver_constraint \<Rightarrow> string list \<Rightarrow> go_error + string" where
  "Resolve L srt c available =
     (let cands = satisfying L c available
      in if cands = [] then Inl (PlainError (''semver: no version satisfies constraint '' @ quoted (sc_raw c)))
         else Inr (fst (last (srt (\<lambda>a b. ms_Compare L (snd a) (snd b) < 0) cands))))"

section \<open>Version gaps\<close>

datatype staleness = StalenessUpToDate | StalenessPatch | StalenessMinor | StalenessMajor | StalenessUnknown

fun staleness_text :: "staleness \<Rightarrow> string" where
  "staleness_text StalenessUpToDate = ''up_to_date''"
| "staleness_text StalenessPatch = ''patch''"
| "staleness_text StalenessMinor = ''minor''"
| "staleness_text StalenessMajor = ''major''"
| "staleness_text StalenessUnknown = ''unknown''"

definition Classify :: "'v mslib \<Rightarrow> string \<Rightarrow> string \<Rightarrow> staleness" where
  "Classify L current latest =
     (case (ms_NewVersion L current, ms_NewVersion L latest) of
        (Some c, Some l) \<Rightarrow>
          if \<not> ms_Compare L l c > 0 then StalenessUpToDate
          else if ms_Major L l > ms_Major L c then StalenessMajor
          else if ms_Minor L l > ms_Minor L c then StalenessMinor
          else if ms_Patch L l > ms_Patch L c then StalenessPatch
          else StalenessUnknown
      | _ \<Rightarrow> StalenessUnknown)"

section \<open>HTTP exchanges\<close>

text \<open>
  A GET request of an address ends with a transport error (and whether it is a timeout), or
  with a status; then reading the body fails the same way or yields its size and what its
  bytes decode to.
\<close>

type_synonym failure = "bool \<times> go_error"
type_synonym 'b exchange = "string \<Rightarrow> failure + nat \<times> (failure + nat \<times> 'b)"

section \<open>The npm registry\<close>

record npm_version_meta =
  nv_Name :: string
  nv_Version :: string
  nv_License :: string
  nv_Dependencies :: "(string \<times> string) list"

definition version_meta_member :: "string \<Rightarrow> json \<Rightarrow> npm_version_meta \<Rightarrow> npm_version_meta option" where
  "version_meta_member k v m =
     (case field_for [''name'', ''version'', ''license'', ''dependencies''] k of
        None \<Rightarrow> Some m
      | Some f \<Rightarrow>
          if f = ''dependencies'' then map_option (\<lambda>d. m\<lparr>nv_Dependencies := d\<rparr>) (decode_map v (nv_Dependencies m))
          else (case v of
                  JNull \<Rightarrow> Some m
                | JStr s \<Rightarrow> Some (if f = ''name'' then m\<lparr>nv_Name := s\<rparr> else if f = ''version'' then m\<lparr>nv_Version := s\<rparr> else m\<lparr>nv_License := s\<rparr>)
                | _ \<Rightarrow> None))"

fun version_meta_members :: "(string \<times> json) list \<Rightarrow> npm_version_meta \<Rightarrow> npm_version_meta option" where
  "version_meta_members [] m = Some m"
| "version_meta_members ((k, v) # ms) m = (case version_meta_member k v m of None \<Rightarrow> None | Some n \<Rightarrow> version_meta_members ms n)"

definition version_meta_of :: "json option \<Rightarrow> npm_version_meta option" where
  "version_meta_of doc =
     (let zero = \<lparr>nv_Name = [], nv_Version = [], nv_License = [], nv_Dependencies = []\<rparr>
      in case doc of Some (JObj ms) \<Rightarrow> version_meta_members ms zero | Some JNull \<Rightarrow> Some zero | _ \<Rightarrow> None)"

text \<open>The keys of the map \<^verbatim>\<open>versions\<close>.\<close>

fun versions_members :: "(string \<times> json) list \<Rightarrow> string list \<Rightarrow> string list option" where
  "versions_members [] vs = Some vs"
| "versions_members ((k, v) # ms) vs =
     (if field_for [''versions''] k = None then versions_members ms vs
      else case v of
             JNull \<Rightarrow> versions_members ms []
           | JObj es \<Rightarrow> versions_members ms (remdups (vs @ map fst es))
           | _ \<Rightarrow> None)"

definition versions_of :: "json option \<Rightarrow> string list option" where
  "versions_of doc = (case doc of Some (JObj ms) \<Rightarrow> versions_members ms [] | Some JNull \<Rightarrow> Some [] | _ \<Rightarrow> None)"

text \<open>The client, with the order in which a map is iterated.\<close>

record 'v npm_client =
  nc_http :: "json option exchange"
  nc_baseURL :: string
  nc_semver :: "'v mslib"
  nc_sort :: "'v candidate_sort"
  nc_order :: "string list \<Rightarrow> string list"

definition fetchAllVersions :: "'v npm_client \<Rightarrow> string \<Rightarrow> go_error + string list" where
  "fetchAllVersions C name =
     (let url = nc_baseURL C @ ''/'' @ name
      in case nc_http C url of
           Inl (_, e) \<Rightarrow> Inl (WrapError (''npm: GET '' @ url) e)
         | Inr (status, body) \<Rightarrow>
             if status \<noteq> 200 then Inl (PlainError (''npm: GET '' @ url @ '': unexpected status '' @ Itoa (int status)))
             else (case body of
                     Inl (_, e) \<Rightarrow> Inl (WrapError (''npm: decode versions for '' @ name) e)
                   | Inr (_, doc) \<Rightarrow>
                       (case versions_of doc of
                          None \<Rightarrow> Inl (WrapError (''npm: decode versions for '' @ name) (PlainError ''json''))
                        | Some vs \<Rightarrow> Inr (nc_order C vs))))"

definition fetchVersionMeta :: "'v npm_client \<Rightarrow> string \<Rightarrow> string \<Rightarrow> go_error + npm_version_meta" where
  "fetchVersionMeta C name version =
     (let url = nc_baseURL C @ ''/'' @ name @ ''/'' @ version; what = ''npm: decode metadata for '' @ name @ ''@'' @ version
      in case nc_http C url of
           Inl (_, e) \<Rightarrow> Inl (WrapError (''npm: GET '' @ url) e)
         | Inr (status, body) \<Rightarrow>
             if status = 404 then Inl (PlainError (''npm: '' @ name @ ''@'' @ version @ '' not found (404)''))
             else if status \<noteq> 200 then Inl (PlainError (''npm: GET '' @ url @ '': unexpected status '' @ Itoa (int status)))
             else (case body of
                     Inl (_, e) \<Rightarrow> Inl (WrapError what e)
                   | Inr (_, doc) \<Rightarrow>
                       (case version_meta_of doc of None \<Rightarrow> Inl (WrapError what (PlainError ''json'')) | Some m \<Rightarrow> Inr m)))"

text \<open>A text that is no range is taken for a tag and returned unchanged.\<close>

definition resolveVersion :: "'v npm_client \<Rightarrow> string \<Rightarrow> string \<Rightarrow> go_error + string" where
  "resolveVersion C name rangeStr =
     (case ParseRange (nc_semver C) rangeStr of
        Inl _ \<Rightarrow> Inr rangeStr
      | Inr c \<Rightarrow>
          (case fetchAllVersions C name of
             Inl e \<Rightarrow> Inl e
           | Inr available \<Rightarrow> Resolve (nc_semver C) (nc_sort C) c available))"

definition npm_FetchPackage :: "'v npm_client \<Rightarrow> string \<Rightarrow> string \<Rightarrow> go_error + package_metadata" where
  "npm_FetchPackage C name version =
     (case resolveVersion C name version of
        Inl e \<Rightarrow> Inl (WrapError (''npm: resolve '' @ name @ ''@'' @ version) e)
      | Inr exact \<Rightarrow>
          (case fetchVersionMeta C name exact of
             Inl e \<Rightarrow> Inl (WrapError (''npm: fetch '' @ name @ ''@'' @ exact) e)
           | Inr m \<Rightarrow> Inr \<lparr>pm_Name = nv_Name m, pm_Version = nv_Version m, pm_License = nv_License m, pm_Dependencies = nv_Dependencies m\<rparr>))"

text \<open>The highest version of any kind, the first one of several that compare equal.\<close>

definition highest :: "'v mslib \<Rightarrow> string list \<Rightarrow> (string \<times> 'v) option" where
  "highest L versions = fold (\<lambda>v best.
     (case ms_NewVersion L v of
        None \<Rightarrow> best
      | Some candidate \<Rightarrow>
          (case best of
             None \<Rightarrow> Some (v, candidate)
           | Some b \<Rightarrow> if ms_Compare L candidate (snd b) > 0 then Some (v, candidate) else best))) versions None"

definition npm_LatestVersion :: "'v npm_client \<Rightarrow> string \<Rightarrow> go_error + string" where
  "npm_LatestVersion C name =
     (case fetchAllVersions C name of
        Inl e \<Rightarrow> Inl (WrapError (''npm: latest version for '' @ name) e)
      | Inr versions \<Rightarrow>
          (case ParseRange (nc_semver C) ''>=0.0.0'' of
             Inl e \<Rightarrow> Inl e
           | Inr c \<Rightarrow>
               (case Resolve (nc_semver C) (nc_sort C) c versions of
                  Inr latest \<Rightarrow> Inr latest
                | Inl _ \<Rightarrow>
                    (case highest (nc_semver C) versions of
                       None \<Rightarrow> Inl (PlainError (''npm: latest version for '' @ name @ '': no usable releases''))
                     | Some (v, _) \<Rightarrow> Inr v))))"

end
