(* ===== verification/Pypi_Client.thy ===== *)
theory Pypi_Client
  imports Registry
begin

text \<open>
  The PyPI client of \<^verbatim>\<open>internal/pypi/client.go\<close> with its production base URL: which
  releases are available, the metadata of one release, licenses, and the two operations of
  \<^verbatim>\<open>auditor.RegistryClient\<close>. The HTTP exchange is an argument that takes the path of
  the request.
\<close>

section \<open>Responses\<close>

text \<open>\<^verbatim>\<open>releaseFile\<close>: whether the file is yanked.\<close>

fun file_members :: "(string \<times> json) list \<Rightarrow> bool \<Rightarrow> bool option" where
  "file_members [] yanked = Some yanked"
| "file_members ((k, v) # ms) yanked =
     (if field_for [''yanked''] k = None then file_members ms yanked
      else case v of JNull \<Rightarrow> file_members ms yanked | JBool b \<Rightarrow> file_members ms b | _ \<Rightarrow> None)"

definition file_of :: "json \<Rightarrow> bool option" where
  "file_of v = (case v of JNull \<Rightarrow> Some False | JObj ms \<Rightarrow> file_members ms False | _ \<Rightarrow> None)"

fun all_some :: "'a option list \<Rightarrow> 'a list option" where
  "all_some [] = Some []"
| "all_some (x # xs) = (case (x, all_some xs) of (Some y, Some ys) \<Rightarrow> Some (y # ys) | _ \<Rightarrow> None)"

definition files_of :: "json \<Rightarrow> bool list option" where
  "files_of v = (case v of JNull \<Rightarrow> Some [] | JArr vs \<Rightarrow> all_some (map file_of vs) | _ \<Rightarrow> None)"

fun release_entries :: "(string \<times> json) list \<Rightarrow> (string \<times> bool list) list \<Rightarrow> (string \<times> bool list) list option" where
  "release_entries [] m = Some m"
| "release_entries ((k, v) # ms) m = (case files_of v of None \<Rightarrow> None | Some fs \<Rightarrow> release_entries ms (AList.update k fs m))"

fun project_members :: "(string \<times> json) list \<Rightarrow> (string \<times> bool list) list \<Rightarrow> (string \<times> bool list) list option" where
  "project_members [] m = Some m"
| "project_members ((k, v) # ms) m =
     (if field_for [''releases''] k = None then project_members ms m
      else case v of
             JNull \<Rightarrow> project_members ms []
           | JObj es \<Rightarrow> (case release_entries es m of None \<Rightarrow> None | Some n \<Rightarrow> project_members ms n)
           | _ \<Rightarrow> None)"

definition project_of :: "json option \<Rightarrow> (string \<times> bool list) list option" where
  "project_of doc = (case doc of Some (JObj ms) \<Rightarrow> project_members ms [] | Some JNull \<Rightarrow> Some [] | _ \<Rightarrow> None)"

record release_response =
  ri_Name :: string
  ri_Version :: string
  ri_License :: string
  ri_LicenseExpression :: string
  ri_Classifiers :: "string list"
  ri_RequiresDist :: "string list"

definition string_of :: "json \<Rightarrow> string option" where
  "string_of v = (case v of JNull \<Rightarrow> Some [] | JStr s \<Rightarrow> Some s | _ \<Rightarrow> None)"

definition strings_of :: "json \<Rightarrow> string list option" where
  "strings_of v = (case v of JNull \<Rightarrow> Some [] | JArr vs \<Rightarrow> all_some (map string_of vs) | _ \<Rightarrow> None)"

definition set_text :: "string \<Rightarrow> string \<Rightarrow> release_response \<Rightarrow> release_response" where
  "set_text f s r =
     (if f = ''name'' then r\<lparr>ri_Name := s\<rparr> else if f = ''version'' then r\<lparr>ri_Version := s\<rparr>
      else if f = ''license'' then r\<lparr>ri_License := s\<rparr> else r\<lparr>ri_LicenseExpression := s\<rparr>)"

definition info_member :: "string \<Rightarrow> json \<Rightarrow> release_response \<Rightarrow> release_response option" where
  "info_member k v r =
     (case field_for [''name'', ''version'', ''license'', ''license_expression'', ''classifiers'', ''requires_dist''] k of
        None \<Rightarrow> Some r
      | Some f \<Rightarrow>
          if f = ''classifiers'' then map_option (\<lambda>vs. r\<lparr>ri_Classifiers := vs\<rparr>) (strings_of v)
          else if f = ''requires_dist'' then map_option (\<lambda>vs. r\<lparr>ri_RequiresDist := vs\<rparr>) (strings_of v)
          else (case v of JNull \<Rightarrow> Some r | JStr s \<Rightarrow> Some (set_text f s r) | _ \<Rightarrow> None))"

fun info_members :: "(string \<times> json) list \<Rightarrow> release_response \<Rightarrow> release_response option" where
  "info_members [] r = Some r"
| "info_members ((k, v) # ms) r = (case info_member k v r of None \<Rightarrow> None | Some q \<Rightarrow> info_members ms q)"

fun release_members :: "(string \<times> json) list \<Rightarrow> release_response \<Rightarrow> release_response option" where
  "release_members [] r = Some r"
| "release_members ((k, v) # ms) r =
     (if field_for [''info''] k = None then release_members ms r
      else case v of
             JNull \<Rightarrow> release_members ms r
           | JObj is \<Rightarrow> (case info_members is r of None \<Rightarrow> None | Some q \<Rightarrow> release_members ms q)
           | _ \<Rightarrow> None)"

definition release_of :: "json option \<Rightarrow> release_response option" where
  "release_of doc =
     (let zero = \<lparr>ri_Name = [], ri_Version = [], ri_License = [], ri_LicenseExpression = [], ri_Classifiers = [], ri_RequiresDist = []\<rparr>
      in case doc of Some (JObj ms) \<Rightarrow> release_members ms zero | Some JNull \<Rightarrow> Some zero | _ \<Rightarrow> None)"

section \<open>Requests\<close>

text \<open>5 MiB, the bound of both metadata clients.\<close>

definition maxMetadataBytes :: nat where "maxMetadataBytes = 5242880"

record pypi_client =
  pc_http :: "json option exchange"
  pc_Target :: target
  pc_sort :: sort_slice
  pc_order :: "string list \<Rightarrow> string list"

definition getJSON :: "pypi_client \<Rightarrow> string list \<Rightarrow> (json option \<Rightarrow> 'd option) \<Rightarrow> go_error + 'd" where
  "getJSON C segments decode =
     (let path = ''/'' @ Join segments ''/''
      in case pc_http C path of
           Inl (_, e) \<Rightarrow> Inl (WrapError ''PyPI request failed'' e)
         | Inr (status, body) \<Rightarrow>
             if status = 404 then Inl (PlainError (''PyPI resource '' @ quoted path @ '' was not found (404)''))
             else if status = 429 then Inl (PlainError (''PyPI rate limit exceeded for '' @ quoted path @ '' (429)''))
             else if status \<noteq> 200 then Inl (PlainError (''PyPI returned status '' @ Itoa (int status) @ '' for '' @ quoted path))
             else (case body of
                     Inl (_, e) \<Rightarrow> Inl (WrapError ''read PyPI response'' e)
                   | Inr (n, doc) \<Rightarrow>
                       if n > maxMetadataBytes then Inl (PlainError ''PyPI metadata exceeds the 5 MiB limit'')
                       else (case decode doc of
                               None \<Rightarrow> Inl (WrapError ''decode PyPI response'' (PlainError ''json''))
                             | Some d \<Rightarrow> Inr d)))"

text \<open>A release counts when its version parses and one of its files is not yanked.\<close>

definition usable_release :: "string \<times> bool list \<Rightarrow> bool" where
  "usable_release r \<longleftrightarrow> \<not> isl (ParseVersion (fst r)) \<and> \<not> list_all id (snd r)"

definition fetchAvailableVersions :: "pypi_client \<Rightarrow> string \<Rightarrow> go_error + string list" where
  "fetchAvailableVersions C name =
     map_sum id (\<lambda>releases. pc_order C (map fst (filter usable_release releases)))
       (getJSON C [''pypi'', name, ''json''] project_of)"

definition fetchRelease :: "pypi_client \<Rightarrow> string \<Rightarrow> string \<Rightarrow> go_error + release_response" where
  "fetchRelease C name version = getJSON C [''pypi'', name, version, ''json''] release_of"

section \<open>Dependencies and licenses\<close>

fun parse_dists :: "string list \<Rightarrow> target \<Rightarrow> (go_error + python_requirement list) option" where
  "parse_dists [] T = Some (Inr [])"
| "parse_dists (v # vs) T =
     (case ParseRequirement v T of
        None \<Rightarrow> None
      | Some (Inl e) \<Rightarrow> Some (Inl (WrapError (''Requires-Dist '' @ quoted v) (PlainError e)))
      | Some (Inr r) \<Rightarrow>
          (case parse_dists vs T of
             None \<Rightarrow> None
           | Some (Inl e) \<Rightarrow> Some (Inl e)
           | Some (Inr rs) \<Rightarrow> Some (Inr (r # rs))))"

definition parseReleaseDependencies :: "pypi_client \<Rightarrow> string list \<Rightarrow> (go_error + (string \<times> string) list) option" where
  "parseReleaseDependencies C values =
     map_option (map_sum id (\<lambda>rs. map (\<lambda>(n, cs). (n, Join (sort cs) '','')) (fold add_constraint rs [])))
       (parse_dists values (pc_Target C))"

definition normalizeLicense :: "string \<Rightarrow> string" where
  "normalizeLicense value =
     (let l = ToLower value
      in if l \<in> {''mit'', ''mit license''} then ''MIT''
         else if l \<in> {''apache-2.0'', ''apache 2.0'', ''apache software license''} then ''Apache-2.0''
         else if l \<in> {''isc'', ''isc license''} then ''ISC''
         else if l \<in> {''bsd-2-clause'', ''2-clause bsd'', ''bsd 2-clause''} then ''BSD-2-Clause''
         else if l \<in> {''bsd-3-clause'', ''3-clause bsd'', ''bsd 3-clause'', ''bsd''} then ''BSD-3-Clause''
         else value)"

definition classifierLicense :: "string \<Rightarrow> string" where
  "classifierLicense classifier =
     (let l = ToLower classifier
      in if Contains l ''mit license'' then ''MIT''
         else if Contains l ''apache software license'' then ''Apache-2.0''
         else if Contains l ''isc license'' then ''ISC''
         else if Contains l ''bsd license'' then ''BSD-3-Clause''
         else if Contains l ''mozilla public license 2.0'' then ''MPL-2.0''
         else if Contains l ''gnu general public license v3'' then ''GPL-3.0-only''
         else [])"

definition pythonLicense :: "string \<Rightarrow> string \<Rightarrow> string list \<Rightarrow> string" where
  "pythonLicense expression legacy classifiers =
     (if TrimSpace expression \<noteq> [] then TrimSpace expression
      else if normalizeLicense (TrimSpace legacy) \<noteq> [] then normalizeLicense (TrimSpace legacy)
      else case find (\<lambda>l. l \<noteq> []) (map classifierLicense classifiers) of Some l \<Rightarrow> l | None \<Rightarrow> ''UNKNOWN'')"

definition displayConstraint :: "string \<Rightarrow> string" where
  "displayConstraint c = (if TrimSpace c = [] then [] else '' '' @ c)"

section \<open>The registry operations\<close>

definition release_metadata :: "pypi_client \<Rightarrow> string \<Rightarrow> string \<Rightarrow> release_response \<Rightarrow> (go_error + package_metadata) option" where
  "release_metadata C name exact release =
     (let what = ''pypi: fetch '' @ name @ ''@'' @ exact
      in if TrimSpace (ri_Name release) = [] \<or> TrimSpace (ri_Version release) = []
         then Some (Inl (PlainError (what @ '': response is missing package name or version'')))
         else if isl (ParseVersion (ri_Version release))
         then Some (Inl (PlainError (what @ '': invalid resolved version '' @ quoted (ri_Version release))))
         else (case parseReleaseDependencies C (ri_RequiresDist release) of
                 None \<Rightarrow> None
               | Some (Inl e) \<Rightarrow> Some (Inl (WrapError (''pypi: parse dependencies for '' @ name @ ''@'' @ exact) e))
               | Some (Inr deps) \<Rightarrow>
                   Some (Inr \<lparr>pm_Name = (let n = NormalizeName (ri_Name release) in if n = [] then name else n),
                     pm_Version = ri_Version release,
                     pm_License = pythonLicense (ri_LicenseExpression release) (ri_License release) (ri_Classifiers release),
                     pm_Dependencies = deps\<rparr>)))"

definition pypi_FetchPackage :: "pypi_client \<Rightarrow> string \<Rightarrow> string \<Rightarrow> (go_error + package_metadata) option" where
  "pypi_FetchPackage C package rng =
     (let name = NormalizeName package; what = ''pypi: resolve '' @ name @ displayConstraint rng
      in case fetchAvailableVersions C name of
           Inl e \<Rightarrow> Some (Inl (WrapError what e))
         | Inr available \<Rightarrow>
             (case ResolveVersion (pc_sort C) rng available of
                None \<Rightarrow> None
              | Some (Inl e) \<Rightarrow> Some (Inl (WrapError what (PlainError e)))
              | Some (Inr exact) \<Rightarrow>
                  (case fetchRelease C name exact of
                     Inl e \<Rightarrow> Some (Inl (WrapError (''pypi: fetch '' @ name @ ''@'' @ exact) e))
                   | Inr release \<Rightarrow> release_metadata C name exact release)))"

definition pypi_LatestVersion :: "pypi_client \<Rightarrow> string \<Rightarrow> (go_error + string) option" where
  "pypi_LatestVersion C name =
     (let what = ''pypi: latest version for '' @ name
      in case fetchAvailableVersions C (NormalizeName name) of
           Inl e \<Rightarrow> Some (Inl (WrapError what e))
         | Inr versions \<Rightarrow> map_option (map_sum (\<lambda>e. WrapError what (PlainError e)) id) (ResolveVersion (pc_sort C) [] versions))"

end
