(* ===== verification/Gomod_Client.thy ===== *)
theory Gomod_Client
  imports Pypi_Client Github_Url
begin

text \<open>
  The Go module proxy client of \<^verbatim>\<open>internal/gomod/client.go\<close>: the errors it reports and
  their classification, the fetch of one \<^verbatim>\<open>go.mod\<close>, and the latest version. Path and
  version escaping and \<^verbatim>\<open>url.Parse\<close> are arguments, as are the two HTTP exchanges.
\<close>

section \<open>Errors\<close>

datatype proxy_error_kind =
    ErrorNotFound | ErrorRateLimited | ErrorHTTPStatus | ErrorTimeout | ErrorRequest | ErrorResponseTooLarge | ErrorDecode

fun proxy_kind_text :: "proxy_error_kind \<Rightarrow> string" where
  "proxy_kind_text ErrorNotFound = ''not_found''"
| "proxy_kind_text ErrorRateLimited = ''rate_limited''"
| "proxy_kind_text ErrorHTTPStatus = ''http_status''"
| "proxy_kind_text ErrorTimeout = ''timeout''"
| "proxy_kind_text ErrorRequest = ''request''"
| "proxy_kind_text ErrorResponseTooLarge = ''response_too_large''"
| "proxy_kind_text ErrorDecode = ''decode''"

record proxy_error =
  pe_Kind :: proxy_error_kind
  pe_ModulePath :: string
  pe_Version :: string
  pe_StatusCode :: nat
  pe_Err :: "go_error option"

definition proxy_error_text :: "proxy_error \<Rightarrow> string" where
  "proxy_error_text e =
     (let what = ''go proxy: fetch '' @ pe_ModulePath e @ ''@'' @ pe_Version e @ '': '' @ proxy_kind_text (pe_Kind e)
      in if pe_StatusCode e \<noteq> 0 then what @ '' (HTTP '' @ Itoa (int (pe_StatusCode e)) @ '')''
         else case pe_Err e of Some c \<Rightarrow> what @ '': '' @ error_text c | None \<Rightarrow> what)"

definition Retryable :: "proxy_error \<Rightarrow> bool" where
  "Retryable e =
     (case pe_Kind e of
        ErrorRateLimited \<Rightarrow> True
      | ErrorTimeout \<Rightarrow> True
      | ErrorRequest \<Rightarrow> True
      | ErrorHTTPStatus \<Rightarrow> pe_StatusCode e = 408 \<or> pe_StatusCode e \<ge> 500
      | _ \<Rightarrow> False)"

text \<open>How the callers see it: an error that tells whether a retry may help.\<close>

definition proxy_go_error :: "proxy_error \<Rightarrow> go_error" where
  "proxy_go_error e = RetryableError (Retryable e) (proxy_error_text e)"

definition newProxyError :: "proxy_error_kind \<Rightarrow> string \<Rightarrow> string \<Rightarrow> nat \<Rightarrow> go_error option \<Rightarrow> go_error" where
  "newProxyError kind path version status err =
     proxy_go_error \<lparr>pe_Kind = kind, pe_ModulePath = path, pe_Version = version, pe_StatusCode = status, pe_Err = err\<rparr>"

definition classifyRequestError :: "string \<Rightarrow> string \<Rightarrow> failure \<Rightarrow> go_error" where
  "classifyRequestError path version f =
     newProxyError (if fst f then ErrorTimeout else ErrorRequest) path version 0 (Some (snd f))"

text \<open>A status other than 200.\<close>

definition status_error :: "string \<Rightarrow> string \<Rightarrow> nat \<Rightarrow> go_error" where
  "status_error path version status =
     newProxyError (if status \<in> {404, 410} then ErrorNotFound else if status = 429 then ErrorRateLimited else ErrorHTTPStatus)
       path version status None"

section \<open>Requests\<close>

text \<open>\<open>px_Parse\<close> stands for \<^verbatim>\<open>url.Parse\<close>; an empty \<open>px_BaseURL\<close> selects the public proxy.\<close>

record proxy_client =
  px_modlib :: modlib
  px_EscapePath :: "string \<Rightarrow> string option"
  px_EscapeVersion :: "string \<Rightarrow> string option"
  px_Parse :: "string \<Rightarrow> url option"
  px_BaseURL :: string
  px_mod :: "mod_file option exchange"
  px_json :: "json option exchange"

definition base_url :: "proxy_client \<Rightarrow> string" where
  "base_url C = (if px_BaseURL C = [] then ''https://proxy.golang.org'' else px_BaseURL C)"

definition validateBaseURL :: "url option \<Rightarrow> go_error option" where
  "validateBaseURL parsed =
     (case parsed of
        None \<Rightarrow> Some (WrapError ''go proxy: invalid base URL'' (PlainError ''url''))
      | Some u \<Rightarrow>
          if u_Scheme u \<notin> {''http'', ''https''} \<or> u_Host u = [] \<or> u_User u \<or> u_RawQuery u \<noteq> [] \<or> u_Fragment u \<noteq> []
          then Some (PlainError ''go proxy: invalid base URL'') else None)"

text \<open>
  The exchange both operations share: the request, its status, the size of the body, and the
  decoding of the body by \<open>decode\<close>, whose errors are decode errors.
\<close>

definition proxy_get :: "'b exchange \<Rightarrow> string \<Rightarrow> string \<Rightarrow> string \<Rightarrow> string \<Rightarrow> ('b \<Rightarrow> go_error + 'd) \<Rightarrow> go_error + 'd" where
  "proxy_get http endpoint path version too_large decode =
     (case http endpoint of
        Inl f \<Rightarrow> Inl (classifyRequestError path version f)
      | Inr (status, body) \<Rightarrow>
          if status \<noteq> 200 then Inl (status_error path version status)
          else (case body of
                  Inl f \<Rightarrow> Inl (classifyRequestError path version f)
                | Inr (n, b) \<Rightarrow>
                    if n > maxMetadataBytes then Inl (newProxyError ErrorResponseTooLarge path version 0 (Some (PlainError too_large)))
                    else (case decode b of
                            Inl e \<Rightarrow> Inl (newProxyError ErrorDecode path version 0 (Some e))
                          | Inr d \<Rightarrow> Inr d)))"

definition endpoint_of :: "proxy_client \<Rightarrow> string \<Rightarrow> go_error + string" where
  "endpoint_of C path =
     (case px_EscapePath C path of
        None \<Rightarrow> Inl (WrapError (''go proxy: escape module path '' @ quoted path) (PlainError ''path''))
      | Some p \<Rightarrow> Inr (TrimRightFunc (\<lambda>c. c = CHR ''/'') (base_url C) @ ''/'' @ p))"

definition Fetch :: "proxy_client \<Rightarrow> string \<Rightarrow> string \<Rightarrow> go_error + metadata" where
  "Fetch C path version =
     (if \<not> ValidateCoordinate (px_modlib C) path version
      then Inl (WrapError (''go proxy: invalid coordinate '' @ path @ ''@'' @ version) (PlainError ''coordinate''))
      else case (endpoint_of C path, px_EscapeVersion C version) of
             (Inl e, _) \<Rightarrow> Inl e
           | (Inr _, None) \<Rightarrow> Inl (WrapError (''go proxy: escape module version '' @ quoted version) (PlainError ''version''))
           | (Inr endpoint, Some v) \<Rightarrow>
               (case validateBaseURL (px_Parse C (base_url C)) of
                  Some e \<Rightarrow> Inl e
                | None \<Rightarrow>
                    proxy_get (px_mod C) (endpoint @ ''/@v/'' @ v @ ''.mod'') path version ''.mod response exceeds 5 MiB''
                      (\<lambda>doc. case ParseMetadata (px_modlib C) doc of
                               Inl e \<Rightarrow> Inl (PlainError e)
                             | Inr m \<Rightarrow> if md_path m \<noteq> path then Inl (PlainError (''module directive declares '' @ quoted (md_path m))) else Inr m)))"

text \<open>The version of a \<^verbatim>\<open>@latest\<close> answer.\<close>

definition latest_of :: "json option \<Rightarrow> string option" where
  "latest_of doc = map_option (\<lambda>f. f ''Version'') (unmarshal_strings [''Version''] doc)"

definition go_LatestVersion :: "proxy_client \<Rightarrow> string \<Rightarrow> go_error + string" where
  "go_LatestVersion C path =
     (case endpoint_of C path of
        Inl e \<Rightarrow> Inl e
      | Inr endpoint \<Rightarrow>
          (case validateBaseURL (px_Parse C (base_url C)) of
             Some e \<Rightarrow> Inl e
           | None \<Rightarrow>
               proxy_get (px_json C) (endpoint @ ''/@latest'') path ''@latest'' ''latest response exceeds 5 MiB''
                 (\<lambda>doc. case latest_of doc of
                          None \<Rightarrow> Inl (PlainError ''json'')
                        | Some v \<Rightarrow> if ValidateCoordinate (px_modlib C) path v then Inr v else Inl (PlainError ''coordinate''))))"

section \<open>Facts\<close>

text \<open>The errors of the proxy itself tell whether to retry; those that reject a coordinate or an address do not.\<close>

lemma status_error_retry: "status_error path version status = RetryableError r m \<Longrightarrow> r \<longleftrightarrow> status \<in> {429, 408} \<or> status \<ge> 500"
  by (auto simp: status_error_def newProxyError_def proxy_go_error_def Retryable_def split: if_splits)

text \<open>What a fetch returns was validated, and declares the module it was asked for.\<close>

lemma Fetch_sound:
  assumes "Fetch C path version = Inr m"
  shows "ValidateCoordinate (px_modlib C) path version \<and> md_path m = path"
  using assms unfolding Fetch_def proxy_get_def
  by (auto split: if_splits sum.splits option.splits prod.splits)

end
