(* ===== verification/Service_Handlers.thy ===== *)
theory Service_Handlers
  imports Gomod_Client Demo_Handler
begin

text \<open>
  The handlers the worker runs: \<^verbatim>\<open>internal/handlers\<close> (repository audits, update scans,
  update checks, Go modules), \<^verbatim>\<open>auditor/service_handler.go\<close> (npm and PyPI packages) and
  the table of \<^verbatim>\<open>cmd/worker/main.go\<close>. \<open>hash\<close> is the hexadecimal SHA-256 of the
  library. A handler that panics yields \<open>None\<close>.
\<close>

section \<open>Classifying errors\<close>

text \<open>\<^verbatim>\<open>errors.As\<close> for a \<^verbatim>\<open>net.Error\<close> and for an error with a method \<^verbatim>\<open>Retryable\<close>.\<close>

fun is_net :: "go_error \<Rightarrow> bool" where
  "is_net (NetError m) = True"
| "is_net (WrapError m e) = is_net e"
| "is_net (ClassifiedError k e) = is_net e"
| "is_net _ = False"

fun retryable_of :: "go_error \<Rightarrow> bool option" where
  "retryable_of (RetryableError r m) = Some r"
| "retryable_of (WrapError m e) = retryable_of e"
| "retryable_of (ClassifiedError k e) = retryable_of e"
| "retryable_of _ = None"

definition permanent :: "go_error \<Rightarrow> go_error" where
  "permanent e = ClassifiedError ErrorPermanent e"

definition classifyError :: "go_error \<Rightarrow> go_error" where
  "classifyError e =
     (let message = ToLower (error_text e)
      in if list_ex (Contains message) [''rate limit'', ''status 429'', ''status 502'', ''status 503'', ''status 504''] \<or> is_net e
         then ClassifiedError ErrorTransient e else permanent e)"

definition classifyServiceError :: "go_error \<Rightarrow> go_error" where
  "classifyServiceError e =
     (if Contains (ToLower (error_text e)) ''rate limit''
         \<or> list_ex (Contains (error_text e)) [''status 429'', ''status 502'', ''status 503'', ''status 504'']
      then ClassifiedError ErrorTransient e
      else if is_net e then ClassifiedError ErrorTransient e
      else permanent e)"

definition classify_proxy :: "go_error \<Rightarrow> go_error" where
  "classify_proxy e = (if retryable_of e = Some True then ClassifiedError ErrorTransient e else permanent e)"

section \<open>Submissions of children\<close>

definition NUL :: string where "NUL = [CHR 0x00]"

definition dependencyChildKey :: "(string \<Rightarrow> string) \<Rightarrow> string \<Rightarrow> id \<Rightarrow> string \<Rightarrow> string \<Rightarrow> string \<Rightarrow> string" where
  "dependencyChildKey hash prefix root ecosystem name versionRange =
     prefix @ hash (root @ NUL @ ecosystem @ NUL @ name @ NUL @ versionRange)"

text \<open>An internal job under the root of its parent, with the parent's limit of attempts.\<close>

definition child_submission :: "job \<Rightarrow> string \<Rightarrow> json \<Rightarrow> string \<Rightarrow> submission" where
  "child_submission v t body k =
     (submission_of t (Some body) (MaxAttempts v))
       \<lparr>sRootJobID := RootJobID v, sParentJobID := ID v, sInternal := True, sIdempotencyKey := k\<rparr>"

section \<open>The manifests of a repository\<close>

record repository_manifest =
  rm_ecosystem :: string
  rm_jobType :: string
  rm_manifest :: manifest

text \<open>The readers of the libraries for JSON, TOML and \<^verbatim>\<open>go.mod\<close> texts.\<close>

record readers =
  rd_json :: "string \<Rightarrow> json option"
  rd_toml :: "string \<Rightarrow> pyproject option"
  rd_mod :: "string \<Rightarrow> mod_file option"

definition zero_target :: target where
  "zero_target = \<lparr>t_PythonVersion = [], t_PythonFullVersion = [], t_Platform = [], t_SysPlatform = [], t_OSName = [],
     t_PlatformSystem = [], t_Implementation = []\<rparr>"

definition python_target :: target where
  "python_target = (case NewTarget ''3.12'' ''linux'' of Inl _ \<Rightarrow> zero_target | Inr T \<Rightarrow> T)"

record manifest_spec =
  sp_path :: string
  sp_ecosystem :: string
  sp_jobType :: string
  sp_parse :: "string \<Rightarrow> (string + manifest) option"

definition manifest_specs :: "readers \<Rightarrow> modlib \<Rightarrow> repository \<Rightarrow> manifest_spec list" where
  "manifest_specs rd L repo =
     [\<lparr>sp_path = ''package.json'', sp_ecosystem = ''npm'', sp_jobType = ''audit_npm_package'',
        sp_parse = (\<lambda>s. Some (ParsePackageJSON (rd_json rd s) True))\<rparr>,
      \<lparr>sp_path = ''pyproject.toml'', sp_ecosystem = ''pypi'', sp_jobType = ''audit_pypi_package'',
        sp_parse = (\<lambda>s. ParsePyProject (rd_toml rd s) python_target)\<rparr>,
      \<lparr>sp_path = ''requirements.txt'', sp_ecosystem = ''pypi'', sp_jobType = ''audit_pypi_package'',
        sp_parse = (\<lambda>s. ParseRequirements s (repo_Name repo) python_target)\<rparr>,
      \<lparr>sp_path = ''go.mod'', sp_ecosystem = ''go'', sp_jobType = ''audit_go_module'',
        sp_parse = (\<lambda>s. Some (map_sum id gm_Manifest (ParseGoMod L (rd_mod rd s))))\<rparr>]"

type_synonym manifest_fetcher = "repository \<Rightarrow> string \<Rightarrow> string \<Rightarrow> go_error + string"

fun load_manifests ::
  "manifest_fetcher \<Rightarrow> repository \<Rightarrow> string \<Rightarrow> manifest_spec list \<Rightarrow> repository_manifest list \<Rightarrow> (go_error + repository_manifest list) option"
where
  "load_manifests fetch repo ref [] ms = Some (Inr ms)"
| "load_manifests fetch repo ref (sp # sps) ms =
     (case fetch repo (sp_path sp) ref of
        Inl e \<Rightarrow> if Contains (error_text e) ''was not found'' then load_manifests fetch repo ref sps ms
                 else Some (Inl (classifyError e))
      | Inr content \<Rightarrow>
          (case sp_parse sp content of
             None \<Rightarrow> None
           | Some (Inl e) \<Rightarrow> Some (Inl (permanent (PlainError e)))
           | Some (Inr m) \<Rightarrow> load_manifests fetch repo ref sps
               (ms @ [\<lparr>rm_ecosystem = sp_ecosystem sp, rm_jobType = sp_jobType sp, rm_manifest = m\<rparr>])))"

definition loadRepositoryManifests ::
  "manifest_fetcher \<Rightarrow> readers \<Rightarrow> modlib \<Rightarrow> repository \<Rightarrow> string \<Rightarrow> (go_error + repository_manifest list) option"
where
  "loadRepositoryManifests fetch rd L repo ref =
     (case load_manifests fetch repo (TrimSpace ref) (manifest_specs rd L repo) [] of
        Some (Inr []) \<Rightarrow> Some (Inl (permanent (PlainError ''repository contains no supported dependency manifest'')))
      | r \<Rightarrow> r)"

section \<open>Repository audits and update scans\<close>

type_synonym answer = "(go_error + handler_result) option"

record dependency_audit_payload =
  da_RepositoryURL :: string
  da_Ref :: string

definition audit_request_of :: "raw_message \<Rightarrow> dependency_audit_payload option" where
  "audit_request_of raw =
     map_option (\<lambda>f. \<lparr>da_RepositoryURL = f ''repositoryUrl'', da_Ref = f ''ref''\<rparr>) (unmarshal_strings [''repositoryUrl'', ''ref''] raw)"

text \<open>What both handlers do before they build the children; \<open>what\<close> names the payload.\<close>

definition with_manifests ::
  "string \<Rightarrow> manifest_fetcher \<Rightarrow> readers \<Rightarrow> modlib \<Rightarrow> job \<Rightarrow> (dependency_audit_payload \<Rightarrow> repository_manifest list \<Rightarrow> handler_result) \<Rightarrow> answer"
where
  "with_manifests what fetch rd L v build =
     (case audit_request_of (Payload v) of
        None \<Rightarrow> Some (Inl (permanent (WrapError (''invalid '' @ what @ '' payload'') (PlainError ''json''))))
      | Some p \<Rightarrow>
          (case ParseRepositoryURL (TrimSpace (da_RepositoryURL p)) of
             Inl e \<Rightarrow> Some (Inl (permanent (PlainError e)))
           | Inr repo \<Rightarrow> map_option (map_sum id (build p)) (loadRepositoryManifests fetch rd L repo (da_Ref p))))"

definition audit_child :: "(string \<Rightarrow> string) \<Rightarrow> job \<Rightarrow> repository_manifest \<Rightarrow> dependency \<Rightarrow> submission" where
  "audit_child hash v entry d =
     child_submission v (rm_jobType entry)
       (audit_payload_json \<lparr>ap_Name = dep_Name d, ap_Version = dep_VersionRange d, ap_ParentName = mf_Name (rm_manifest entry), ap_ParentVersion = []\<rparr>)
       (dependencyChildKey hash ''audit-child:'' (RootJobID v) (rm_ecosystem entry) (dep_Name d) (dep_VersionRange d))"

definition audit_seeds :: "(string \<Rightarrow> string) \<Rightarrow> job \<Rightarrow> repository_manifest list \<Rightarrow> submission list" where
  "audit_seeds hash v ms = concat (map (\<lambda>entry. map (audit_child hash v entry) (mf_Dependencies (rm_manifest entry))) ms)"

definition dependency_audit_Handle :: "(string \<Rightarrow> string) \<Rightarrow> manifest_fetcher \<Rightarrow> readers \<Rightarrow> modlib \<Rightarrow> job \<Rightarrow> answer" where
  "dependency_audit_Handle hash fetch rd L v =
     with_manifests ''dependency audit'' fetch rd L v (\<lambda>p ms.
       let seeds = audit_seeds hash v ms
       in \<lparr>Result = Some (JObj [(''auditId'', JStr (RootJobID v)), (''repositoryUrl'', JStr (da_RepositoryURL p)),
             (''roots'', JArr (map (\<lambda>m. JStr (rm_ecosystem m @ '':'' @ mf_Name (rm_manifest m))) ms)), (''seedCount'', json_int (int (length seeds)))]),
           Children = seeds\<rparr>)"

definition update_check_json :: "string \<Rightarrow> dependency \<Rightarrow> json" where
  "update_check_json ecosystem d = JObj [(''ecosystem'', JStr ecosystem), (''name'', JStr (dep_Name d)), (''versionRange'', JStr (dep_VersionRange d))]"

definition update_key :: "(string \<Rightarrow> string) \<Rightarrow> job \<Rightarrow> string \<Rightarrow> dependency \<Rightarrow> string" where
  "update_key hash v ecosystem d = dependencyChildKey hash ''update-child:'' (RootJobID v) ecosystem (dep_Name d) (dep_VersionRange d)"

text \<open>The double loop over manifests and dependencies, with the keys seen so far.\<close>

fun scan_children :: "(string \<Rightarrow> string) \<Rightarrow> job \<Rightarrow> (string \<times> dependency) list \<Rightarrow> string set \<Rightarrow> submission list" where
  "scan_children hash v [] seen = []"
| "scan_children hash v ((eco, d) # ds) seen =
     (if dep_Indirect d then scan_children hash v ds seen
      else let k = update_key hash v eco d
           in if k \<in> seen then scan_children hash v ds seen
              else child_submission v ''package_update_check'' (update_check_json eco d) k # scan_children hash v ds (insert k seen))"

definition manifest_entries :: "repository_manifest list \<Rightarrow> (string \<times> dependency) list" where
  "manifest_entries ms = concat (map (\<lambda>entry. map (Pair (rm_ecosystem entry)) (mf_Dependencies (rm_manifest entry))) ms)"

definition update_scan_Handle :: "(string \<Rightarrow> string) \<Rightarrow> manifest_fetcher \<Rightarrow> readers \<Rightarrow> modlib \<Rightarrow> job \<Rightarrow> answer" where
  "update_scan_Handle hash fetch rd L v =
     with_manifests ''dependency update scan'' fetch rd L v (\<lambda>p ms.
       let children = scan_children hash v (manifest_entries ms) {}
       in \<lparr>Result = Some (JObj [(''auditId'', JStr (RootJobID v)), (''dependencyCount'', json_int (int (length children))),
             (''ref'', JStr (da_Ref p)), (''repositoryUrl'', JStr (da_RepositoryURL p))]),
           Children = children\<rparr>)"

section \<open>Update checks\<close>

text \<open>The two methods of \<^verbatim>\<open>auditor.RegistryClient\<close>.\<close>

record registry_client =
  rc_FetchPackage :: "string \<Rightarrow> string \<Rightarrow> (go_error + package_metadata) option"
  rc_LatestVersion :: "string \<Rightarrow> (go_error + string) option"

record update_check_registries =
  ur_NPM :: "registry_client option"
  ur_PyPI :: "registry_client option"
  ur_Go :: "(string \<Rightarrow> go_error + string) option"

record update_check_payload =
  uc_Ecosystem :: string
  uc_Name :: string
  uc_VersionRange :: string

definition update_check_of :: "raw_message \<Rightarrow> update_check_payload option" where
  "update_check_of raw =
     map_option (\<lambda>f. \<lparr>uc_Ecosystem = f ''ecosystem'', uc_Name = f ''name'', uc_VersionRange = f ''versionRange''\<rparr>)
       (unmarshal_strings [''ecosystem'', ''name'', ''versionRange''] raw)"

text \<open>The current and the latest version of a package, by ecosystem.\<close>

definition registry_versions :: "registry_client option \<Rightarrow> update_check_payload \<Rightarrow> (go_error + string \<times> string) option" where
  "registry_versions registry p =
     (case registry of
        None \<Rightarrow> Some (Inl (permanent (PlainError (''missing '' @ uc_Ecosystem p @ '' registry''))))
      | Some r \<Rightarrow>
          if uc_Ecosystem p = ''npm'' \<and> TrimSpace (uc_VersionRange p) = []
          then Some (Inl (permanent (PlainError ''npm update check requires a version range'')))
          else (case rc_FetchPackage r (uc_Name p) (uc_VersionRange p) of
                  None \<Rightarrow> None
                | Some (Inl e) \<Rightarrow> Some (Inl (classifyError e))
                | Some (Inr m) \<Rightarrow> map_option (map_sum classifyError (Pair (pm_Version m))) (rc_LatestVersion r (uc_Name p))))"

definition go_versions :: "modlib \<Rightarrow> (string \<Rightarrow> go_error + string) option \<Rightarrow> update_check_payload \<Rightarrow> go_error + string \<times> string" where
  "go_versions L go p =
     (if \<not> ValidateCoordinate L (uc_Name p) (uc_VersionRange p) then Inl (permanent (PlainError ''coordinate''))
      else case go of
             None \<Rightarrow> Inl (permanent (PlainError ''missing Go registry''))
           | Some latest \<Rightarrow> map_sum classify_proxy (Pair (uc_VersionRange p)) (latest (uc_Name p)))"

definition versions_for :: "modlib \<Rightarrow> update_check_registries \<Rightarrow> update_check_payload \<Rightarrow> (go_error + string \<times> string) option" where
  "versions_for L rs p =
     (if uc_Ecosystem p = ''npm'' then registry_versions (ur_NPM rs) p
      else if uc_Ecosystem p = ''pypi'' then registry_versions (ur_PyPI rs) p
      else if uc_Ecosystem p = ''go'' then Some (go_versions L (ur_Go rs) p)
      else Some (Inl (permanent (PlainError (''unsupported update ecosystem '' @ quoted (uc_Ecosystem p))))))"

definition update_result_json :: "'v mslib \<Rightarrow> update_check_payload \<Rightarrow> string \<times> string \<Rightarrow> json" where
  "update_result_json ms p vs =
     JObj [(''ecosystem'', JStr (uc_Ecosystem p)), (''name'', JStr (uc_Name p)), (''currentVersion'', JStr (fst vs)),
       (''latestVersion'', JStr (snd vs)), (''staleness'', JStr (staleness_text (Classify ms (fst vs) (snd vs))))]"

definition update_check_Handle :: "'v mslib \<Rightarrow> modlib \<Rightarrow> update_check_registries \<Rightarrow> job \<Rightarrow> answer" where
  "update_check_Handle ms L rs v =
     (case update_check_of (Payload v) of
        None \<Rightarrow> Some (Inl (permanent (WrapError ''invalid package update check payload'' (PlainError ''json''))))
      | Some p \<Rightarrow>
          if TrimSpace (uc_Name p) = [] then Some (Inl (permanent (PlainError ''package update check requires a name'')))
          else map_option (map_sum id (\<lambda>vs. \<lparr>Result = Some (update_result_json ms p vs), Children = []\<rparr>)) (versions_for L rs p))"

section \<open>Audits of one package\<close>

fun verdict_text :: "verdict \<Rightarrow> string" where
  "verdict_text VerdictPass = ''pass''"
| "verdict_text VerdictPolicyViolation = ''policy_violation''"

text \<open>The result both audit handlers store; an absent parent is left out.\<close>

definition audit_result_json :: "string \<Rightarrow> string \<Rightarrow> string \<Rightarrow> string \<Rightarrow> verdict \<Rightarrow> string \<Rightarrow> string \<Rightarrow> json" where
  "audit_result_json ecosystem name version license verdict parentName parentVersion =
     JObj ([(''ecosystem'', JStr ecosystem), (''name'', JStr name), (''version'', JStr version), (''license'', JStr license),
       (''verdict'', JStr (verdict_text verdict))] @ omit_empty ''parentName'' parentName @ omit_empty ''parentVersion'' parentVersion)"

record package_handler =
  ph_Registry :: "string \<Rightarrow> string \<Rightarrow> (go_error + package_metadata) option"
  ph_Policy :: "package_metadata \<Rightarrow> verdict"
  ph_JobType :: string
  ph_Ecosystem :: string

definition auditChild :: "(string \<Rightarrow> string) \<Rightarrow> package_handler \<Rightarrow> job \<Rightarrow> package_metadata \<Rightarrow> string \<times> string \<Rightarrow> submission" where
  "auditChild hash h v m d =
     child_submission v (ph_JobType h)
       (audit_payload_json \<lparr>ap_Name = fst d, ap_Version = snd d, ap_ParentName = pm_Name m, ap_ParentVersion = pm_Version m\<rparr>)
       (dependencyChildKey hash ''audit-child:'' (RootJobID v) (ph_Ecosystem h) (fst d) (snd d))"

text \<open>\<open>order\<close>: the order in which the map of dependencies is iterated.\<close>

definition audit_package_Handle ::
  "(string \<Rightarrow> string) \<Rightarrow> ((string \<times> string) list \<Rightarrow> (string \<times> string) list) \<Rightarrow> package_handler \<Rightarrow> job \<Rightarrow> answer"
where
  "audit_package_Handle hash order h v =
     (case audit_payload_of (Payload v) of
        None \<Rightarrow> Some (Inl (permanent (WrapError ''invalid audit package payload'' (PlainError ''json''))))
      | Some p \<Rightarrow>
          map_option (map_sum classifyServiceError (\<lambda>m.
              \<lparr>Result = Some (audit_result_json (ph_Ecosystem h) (pm_Name m) (pm_Version m) (pm_License m) (ph_Policy h m)
                  (ap_ParentName p) (ap_ParentVersion p)),
               Children = map (auditChild hash h v m) (order (pm_Dependencies m))\<rparr>))
            (ph_Registry h (ap_Name p) (ap_Version p)))"

record go_module_payload =
  gp_Name :: string
  gp_Version :: string
  gp_ParentName :: string
  gp_ParentVersion :: string

definition go_payload_of :: "raw_message \<Rightarrow> go_module_payload option" where
  "go_payload_of raw =
     map_option (\<lambda>f. \<lparr>gp_Name = f ''name'', gp_Version = f ''version'', gp_ParentName = f ''parentName'', gp_ParentVersion = f ''parentVersion''\<rparr>)
       (unmarshal_strings [''name'', ''version'', ''parentName'', ''parentVersion''] raw)"

definition go_payload_json :: "go_module_payload \<Rightarrow> json" where
  "go_payload_json p = JObj ([(''name'', JStr (gp_Name p)), (''version'', JStr (gp_Version p))]
     @ omit_empty ''parentName'' (gp_ParentName p) @ omit_empty ''parentVersion'' (gp_ParentVersion p))"

definition go_child :: "(string \<Rightarrow> string) \<Rightarrow> job \<Rightarrow> go_module_payload \<Rightarrow> metadata \<Rightarrow> requirement \<Rightarrow> submission" where
  "go_child hash v p m d =
     child_submission v ''audit_go_module''
       (go_payload_json \<lparr>gp_Name = rq_path d, gp_Version = rq_version d, gp_ParentName = md_path m, gp_ParentVersion = gp_Version p\<rparr>)
       (dependencyChildKey hash ''audit-child:'' (RootJobID v) ''go'' (rq_path d) (rq_version d))"

definition go_module_Handle :: "(string \<Rightarrow> string) \<Rightarrow> (string \<Rightarrow> string \<Rightarrow> go_error + metadata) \<Rightarrow> job \<Rightarrow> answer" where
  "go_module_Handle hash fetch v =
     (case go_payload_of (Payload v) of
        None \<Rightarrow> Some (Inl (permanent (WrapError ''invalid Go module payload'' (PlainError ''json''))))
      | Some p \<Rightarrow>
          Some (map_sum classify_proxy (\<lambda>m.
              \<lparr>Result = Some (audit_result_json ''go'' (md_path m) (gp_Version p) ''UNKNOWN'' VerdictPolicyViolation
                  (gp_ParentName p) (gp_ParentVersion p)),
               Children = map (go_child hash v p m) (md_requirements m)\<rparr>)
            (fetch (gp_Name p) (gp_Version p))))"

section \<open>The table of the worker\<close>

text \<open>What surrounds the handlers: the clients, the readers, and whether the context of the call ends.\<close>

record 'v worker_env =
  we_hash :: "string \<Rightarrow> string"
  we_order :: "(string \<times> string) list \<Rightarrow> (string \<times> string) list"
  we_github :: manifest_fetcher
  we_readers :: readers
  we_npm :: "'v npm_client"
  we_pypi :: pypi_client
  we_proxy :: proxy_client
  we_cancelled :: bool

definition npm_registry :: "'v npm_client \<Rightarrow> registry_client" where
  "npm_registry C = \<lparr>rc_FetchPackage = (\<lambda>n r. Some (npm_FetchPackage C n r)), rc_LatestVersion = (\<lambda>n. Some (npm_LatestVersion C n))\<rparr>"

definition pypi_registry :: "pypi_client \<Rightarrow> registry_client" where
  "pypi_registry C = \<lparr>rc_FetchPackage = pypi_FetchPackage C, rc_LatestVersion = pypi_LatestVersion C\<rparr>"

definition worker_registries :: "'v worker_env \<Rightarrow> update_check_registries" where
  "worker_registries E = \<lparr>ur_NPM = Some (npm_registry (we_npm E)), ur_PyPI = Some (pypi_registry (we_pypi E)), ur_Go = Some (go_LatestVersion (we_proxy E))\<rparr>"

definition npm_handler :: "'v worker_env \<Rightarrow> package_handler" where
  "npm_handler E = \<lparr>ph_Registry = rc_FetchPackage (npm_registry (we_npm E)), ph_Policy = license_check,
     ph_JobType = ''audit_npm_package'', ph_Ecosystem = ''npm''\<rparr>"

definition pypi_handler :: "'v worker_env \<Rightarrow> package_handler" where
  "pypi_handler E = \<lparr>ph_Registry = rc_FetchPackage (pypi_registry (we_pypi E)), ph_Policy = license_check,
     ph_JobType = ''audit_pypi_package'', ph_Ecosystem = ''pypi''\<rparr>"

definition worker_handlers :: "'v worker_env \<Rightarrow> string \<Rightarrow> (job \<Rightarrow> answer) option" where
  "worker_handlers E t =
     (let L = px_modlib (we_proxy E)
      in if t = ''demo'' then Some (\<lambda>v. Some (demo_Handle (we_cancelled E) v))
         else if t = ''dependency_update_scan'' then Some (update_scan_Handle (we_hash E) (we_github E) (we_readers E) L)
         else if t = ''package_update_check'' then Some (update_check_Handle (nc_semver (we_npm E)) L (worker_registries E))
         else if t = ''dependency_audit'' then Some (dependency_audit_Handle (we_hash E) (we_github E) (we_readers E) L)
         else if t = ''audit_npm_package'' then Some (audit_package_Handle (we_hash E) (we_order E) (npm_handler E))
         else if t = ''audit_pypi_package'' then Some (audit_package_Handle (we_hash E) (we_order E) (pypi_handler E))
         else if t = ''audit_go_module'' then Some (go_module_Handle (we_hash E) (Fetch (we_proxy E)))
         else None)"

section \<open>What every handler keeps\<close>

text \<open>
  The contract between a handler and the service: a child keeps the limit of attempts, the
  root and the parent of the job that asks for it, and is internal.
\<close>

definition inherits :: "job \<Rightarrow> submission \<Rightarrow> bool" where
  "inherits v c \<longleftrightarrow> sMaxAttempts c = MaxAttempts v \<and> sRootJobID c = RootJobID v \<and> sParentJobID c = ID v \<and> sInternal c
     \<and> sIdempotencyKey c \<noteq> []"

definition answer_inherits :: "job \<Rightarrow> answer \<Rightarrow> bool" where
  "answer_inherits v a \<longleftrightarrow> (\<forall>res. a = Some (Inr res) \<longrightarrow> (\<forall>c \<in> set (Children res). inherits v c))"

lemma map_sum_Inr: "map_sum f g x = Inr y \<longleftrightarrow> (\<exists>z. x = Inr z \<and> y = g z)"
  by (cases x) auto

lemma child_inherits: "k \<noteq> [] \<Longrightarrow> inherits v (child_submission v t b k)"
  by (simp add: inherits_def child_submission_def submission_of_def)

lemma key_not_Nil: "prefix \<noteq> [] \<Longrightarrow> dependencyChildKey hash prefix r e n s \<noteq> []"
  by (simp add: dependencyChildKey_def)

lemma scan_children_inherit: "c \<in> set (scan_children hash v ds seen) \<Longrightarrow> inherits v c"
  by (induction hash v ds seen rule: scan_children.induct)
    (auto simp: Let_def child_inherits update_key_def key_not_Nil split: if_splits)

lemma audit_seeds_inherit: "c \<in> set (audit_seeds hash v ms) \<Longrightarrow> inherits v c"
  by (auto simp: audit_seeds_def audit_child_def child_inherits key_not_Nil)

lemma with_manifests_inherits:
  assumes "\<And>p ms c. c \<in> set (Children (build p ms)) \<Longrightarrow> inherits v c"
  shows "answer_inherits v (with_manifests what fetch rd L v build)"
  using assms by (auto simp: answer_inherits_def with_manifests_def map_sum_Inr split: option.splits sum.splits)

lemma worker_handlers_inherit:
  assumes "worker_handlers E t = Some h"
  shows "answer_inherits v (h v)"
proof -
  have demo: "answer_inherits v (Some (demo_Handle b v))" for b
    by (auto simp: answer_inherits_def demo_Handle_def split: option.splits if_splits)
  have scan: "answer_inherits v (update_scan_Handle H f rd L v)" for H f rd L
    unfolding update_scan_Handle_def by (rule with_manifests_inherits) (simp add: Let_def scan_children_inherit)
  have audit: "answer_inherits v (dependency_audit_Handle H f rd L v)" for H f rd L
    unfolding dependency_audit_Handle_def by (rule with_manifests_inherits) (simp add: Let_def audit_seeds_inherit)
  have check: "answer_inherits v (update_check_Handle ms L rs v)" for ms :: "'a mslib" and L rs
    by (auto simp: answer_inherits_def update_check_Handle_def map_sum_Inr split: option.splits sum.splits if_splits)
  have pkg: "answer_inherits v (audit_package_Handle H ord ph v)" for H ord ph
    by (auto simp: answer_inherits_def audit_package_Handle_def map_sum_Inr auditChild_def child_inherits key_not_Nil split: option.splits sum.splits)
  have go: "answer_inherits v (go_module_Handle H f v)" for H f
    by (auto simp: answer_inherits_def go_module_Handle_def map_sum_Inr go_child_def child_inherits key_not_Nil split: option.splits sum.splits)
  show ?thesis
    using assms unfolding worker_handlers_def Let_def
    by (simp split: if_splits) (auto intro: demo scan audit check pkg go)
qed

end
