(* ===== verification/App_System.thy ===== *)
theory App_System
  imports App_Rows Service_Handlers
begin

text \<open>
  The deployed system: HTTP requests, and workers that run the handlers of
  \<^verbatim>\<open>cmd/worker/main.go\<close>, over one database, interleaved at the grain of requests,
  claims and the signals a processing loop sees. A law on the rows of the job table has to be
  checked at the five places that create a row; the limit of attempts is such a law, so
  what the API checks carries through retries, replays and the children of handlers to
  every job a worker claims.
\<close>

section \<open>The deployed system\<close>

text \<open>
  The signals a processing loop may see: an answer of a handler is the answer of the table of
  the worker on the claimed job, in one of the environments \<open>W\<close> (what the network and
  the contexts do at that moment).
\<close>

definition handled :: "'v worker_env set \<Rightarrow> job \<Rightarrow> signal \<Rightarrow> bool" where
  "handled W v x = (case x of
     HandlerDone _ _ out \<Rightarrow> (\<exists>E \<in> W. \<exists>h. worker_handlers E (Type v) = Some h \<and> h v = Some out)
   | _ \<Rightarrow> True)"

text \<open>The job types of the table; it is the same in every environment.\<close>

definition handled_types :: "string \<Rightarrow> bool" where
  "handled_types t \<longleftrightarrow> t \<in> {''demo'', ''dependency_update_scan'', ''package_update_check'', ''dependency_audit'',
     ''audit_npm_package'', ''audit_pypi_package'', ''audit_go_module''}"

lemma handled_types_table: "handled_types t \<longleftrightarrow> worker_handlers E t \<noteq> None"
  by (auto simp: handled_types_def worker_handlers_def Let_def)

inductive app_step :: "hash \<Rightarrow> 'v worker_env set \<Rightarrow> sys \<Rightarrow> sys \<Rightarrow> bool" for H W where
  app_request: "Routes env rq (sdb s) = (resp, d') \<Longrightarrow> env_hash env = H \<Longrightarrow> app_step H W s (s\<lparr>sdb := d'\<rparr>)"
| app_claim: "Claim now tok worker lease (sdb s) = Inr (Some v, d') \<Longrightarrow> tok \<notin> LeaseToken ` set (issued s) \<Longrightarrow>
     app_step H W s (s\<lparr>sdb := d', issued := issued s @ [v]\<rparr>)"
| app_start: "v \<in> set (issued s) \<Longrightarrow> app_step H W s (s\<lparr>sdb := snd (process (pg_store H) c over rnd handled_types now v [] (sdb s))\<rparr>)"
| app_signal: "v \<in> set (issued s) \<Longrightarrow> handled W v x \<Longrightarrow>
     app_step H W s (s\<lparr>sdb := snd (process_loop (pg_store H) c over rnd v armed [x] (sdb s))\<rparr>)"
| app_maintenance: "app_step H W s (s\<lparr>sdb := maintenanceLoop (pg_store H) worker [m] (sdb s)\<rparr>)"
| app_register: "app_step H W s (s\<lparr>sdb := RegisterWorker now worker (sdb s)\<rparr>)"

inductive app_reachable :: "hash \<Rightarrow> 'v worker_env set \<Rightarrow> sys \<Rightarrow> bool" for H W where
  app_init: "app_reachable H W init_sys"
| app_next: "app_reachable H W s \<Longrightarrow> app_step H W s s' \<Longrightarrow> app_reachable H W s'"

section \<open>Laws of the system\<close>

text \<open>
  A law \<open>P\<close> of rows and a law \<open>Q\<close> of claimed jobs: submissions and retries over HTTP,
  replays and the children of handlers create rows with \<open>P\<close>, and a claim of such a row
  hands out a job with \<open>Q\<close>.
\<close>

locale creation_law = row_law P for P :: "jobs_row \<Rightarrow> bool" +
  fixes Q :: "job \<Rightarrow> bool" and H :: hash and W :: "'v worker_env set"
  assumes submitted: "1 \<le> sMaxAttempts input \<Longrightarrow> sMaxAttempts input \<le> 20 \<Longrightarrow> \<not> sInternal input \<Longrightarrow>
      P (submit_row H now i (with_default_attempts input))"
    and retried: "P r \<Longrightarrow> 0 \<le> n \<Longrightarrow> n \<le> 20 \<Longrightarrow>
      P (submit_row H now i (with_default_attempts
        ((submission_of (r_type r) (r_payload r) (if n = 0 then r_max_attempts r else n))\<lparr>sRetriedFromJobID := r_id r\<rparr>)))"
    and replayed: "0 \<le> n \<Longrightarrow> n \<le> 20 \<Longrightarrow> P (replay_row now i (if n = 0 then DefaultMaxAttempts else n) source)"
    and children: "Q v \<Longrightarrow> handled W v (HandlerDone now ids (Inr res)) \<Longrightarrow> c \<in> set (Children res) \<Longrightarrow>
      P (child_row H now i (with_default_attempts (adopt v c)))"
    and claimed: "P r \<Longrightarrow> row_ok r \<Longrightarrow> Q (scanServiceJob (claim_row now lease w tok r))"
begin

lemma api_keeps:
  assumes "api_effect env d d'" "env_hash env = H" "jobs_inv d" "every_row P d"
  shows "every_row P d'"
  using assms(1)
proof cases
  case (effect_submit input res)
  then show ?thesis using submitted_row submitted assms(2,4) by blast
next
  case (effect_retry i n v)
  from effect_retry(1) show ?thesis
  proof (cases rule: Retry_cases)
    case (1 r m b)
    have "P r" using find_job_SomeD [OF 1(1)] assms(4) by (simp add: every_row_def)
    from submitted_row [OF 1(4) _ assms(4)] retried [OF this effect_retry(2,3)] 1(3) assms(2) show ?thesis by auto
  qed
next
  case (effect_replay k n v)
  from effect_replay(1) show ?thesis
  proof (cases rule: ReplayDLQ_cases)
    case (1 source row)
    then show ?thesis using replayed [OF effect_replay(2,3)] assms(4) by (simp add: every_row_def)
  qed
next
  case (effect_cancel i v)
  then show ?thesis by (intro cancelled [OF _ assms(3,4)])
qed

lemma finish_keeps:
  assumes "value_ok v d" "every_row P d" "Q v" "handled W v (HandlerDone now ids out)"
  shows "every_row P (snd (finish_handler (pg_store H) over rnd v now ids out d))"
proof (cases out)
  case (Inl err)
  then show ?thesis using after_fail [OF assms(1,2)] assms(2)
    by (auto simp: finish_handler_def split: error_kind.splits option.splits)
next
  case (Inr res)
  have "\<forall>c \<in> set (Children res). \<forall>i. P (child_row H now i (with_default_attempts (adopt v c)))"
    using children assms(3,4) Inr by blast
  then have "every_row P (after (Complete H now ids v res d) d)"
    using completed [OF _ assms(2)] assms(2) by (auto simp: after_def split: sum.splits)
  then show ?thesis using Inr by (simp add: finish_handler_def)
qed

lemma signal_keeps:
  assumes "value_ok v d" "every_row P d" "Q v" "handled W v x"
  shows "every_row P (snd (process_loop (pg_store H) c over rnd v armed [x] d))"
proof (cases x)
  case RunDone
  then show ?thesis using assms(2) by simp
next
  case (ShutdownFired now)
  then show ?thesis using after_fail [OF assms(1,2)] assms(2) by simp
next
  case (HandlerDone now ids out)
  then show ?thesis using finish_keeps [OF assms(1-3)] assms(4) by simp
next
  case (HeartbeatDue now failed)
  let ?d1 = "snd (Heartbeat now v (LeaseDuration c) d)"
  have 1: "every_row P ?d1" by (rule heartbeat [OF assms(2)])
  have "value_ok v ?d1" using assms(1)
    by (auto simp: value_ok_def Heartbeat_def Let_def owns_def agrees_def elim!: upd_where_cases)
  then show ?thesis using after_fail [OF assms(1,2)] after_fail [OF _ 1] 1 assms(2) HeartbeatDue
    by (auto simp: Let_def split: prod.splits if_splits)
qed

lemma step_keeps:
  assumes st: "app_step H W s s'" and inv: "sys_inv s" and rows: "every_row P (sdb s)" and vals: "\<forall>v \<in> set (issued s). Q v"
  shows "every_row P (sdb s') \<and> (\<forall>v \<in> set (issued s'). Q v)"
proof -
  have j: "jobs_inv (sdb s)" and ok: "v \<in> set (issued s) \<Longrightarrow> value_ok v (sdb s)" for v
    using inv leases_value_ok by (auto simp: sys_inv_def)
  from st show ?thesis
  proof cases
    case (app_request env rq resp d')
    then show ?thesis using Routes_effect [OF app_request(2)] api_keeps [OF _ _ j rows] rows vals by auto
  next
    case (app_claim now tok worker lease v d')
    from app_claim(2) show ?thesis
    proof (cases rule: Claim_cases)
      case (1 r)
      have r: "r \<in> set (jobs (sdb s))" by (rule next_claim_SomeD [OF 1(1)])
      have "Q v" using claimed r jobs_invD(2) [OF j r] rows unfolding 1(2) by (simp add: every_row_def)
      moreover have "same_identity x (claim_row now lease worker tok x)" for x by (simp add: same_identity_def claim_row_def)
      then have "every_row P d'" unfolding every_row_def 1(3) using rows identity by (auto simp: every_row_def elim!: upd_where_cases)
      ultimately show ?thesis using app_claim(1) vals by auto
    qed
  next
    case (app_start v c over rnd now)
    then show ?thesis using after_fail [OF ok rows] rows vals by (auto simp: process_def)
  next
    case (app_signal v x c over rnd armed)
    then show ?thesis using signal_keeps [OF ok rows] vals by auto
  next
    case (app_maintenance worker m)
    then show ?thesis using maintained [OF j rows] vals by auto
  next
    case (app_register now worker)
    then show ?thesis using rows vals by (auto simp: every_row_def RegisterWorker_def)
  qed
qed

end

section \<open>The limit of attempts\<close>

text \<open>What handlers ask for is valid, because a child has the limit of its parent.\<close>

lemma handled_children:
  assumes "handled W v (HandlerDone now ids (Inr res))" "c \<in> set (Children res)"
  shows "inherits v c"
proof -
  obtain E :: "'a worker_env" and h where "worker_handlers E (Type v) = Some h" "h v = Some (Inr res)"
    using assms(1) by (auto simp: handled_def)
  then show ?thesis using worker_handlers_inherit [of E "Type v" h v] assms(2) by (simp add: answer_inherits_def)
qed

lemma handled_signal_ok: "handled W v x \<Longrightarrow> 0 \<le> MaxAttempts v \<Longrightarrow> signal_ok x"
  using handled_children [of W v] by (auto simp: signal_ok_def valid_limit_def inherits_def split: signal.splits sum.splits)

definition within_limit :: "job \<Rightarrow> bool" where
  "within_limit v \<longleftrightarrow> 1 \<le> Attempts v \<and> 0 \<le> MaxAttempts v \<and> MaxAttempts v \<le> 20"

lemma inserted_limits [simp]:
  "r_max_attempts (submit_row H now i v) = sMaxAttempts v" "r_max_attempts (child_row H now i v) = sMaxAttempts v"
  "r_max_attempts (replay_row now i n x) = n" "sMaxAttempts (submission_of t p n) = n"
  by (simp_all add: submit_row_def child_row_def replay_row_def new_row_def submission_of_def)

lemma default_attempts_limit: "sMaxAttempts v \<le> 20 \<Longrightarrow> sMaxAttempts (with_default_attempts v) \<le> 20"
  by (simp add: with_default_attempts_def DefaultMaxAttempts_def)

interpretation limit: creation_law "\<lambda>r. r_max_attempts r \<le> 20" within_limit H W for H and W :: "'v worker_env set"
proof unfold_locales
  show "r_max_attempts r' \<le> 20" if "same_identity r r'" "r_max_attempts r \<le> 20" for r r'
    using that by (simp add: same_identity_def)
  show "r_max_attempts (child_row H now i (with_default_attempts (adopt v c))) \<le> 20"
    if "within_limit v" "handled W v (HandlerDone now ids (Inr res))" "c \<in> set (Children res)" for v now ids res c i
  proof -
    have "inherits v c" using handled_children that by blast
    then have "sMaxAttempts (adopt v c) \<le> 20" using that(1) by (simp add: adopt_def inherits_def within_limit_def)
    then show ?thesis using default_attempts_limit by simp
  qed
  show "within_limit (scanServiceJob (claim_row now lease w tok r))" if "r_max_attempts r \<le> 20" "row_ok r" for r now lease w tok
    using that by (simp add: within_limit_def scanServiceJob_def claim_row_def row_ok_def)
qed (auto simp: DefaultMaxAttempts_def intro!: default_attempts_limit)

definition limits_ok :: "sys \<Rightarrow> bool" where
  "limits_ok s \<longleftrightarrow> every_row (\<lambda>r. r_max_attempts r \<le> 20) (sdb s) \<and> (\<forall>v \<in> set (issued s). within_limit v)"

text \<open>Every step of the system is a sequence of steps of the service.\<close>

lemma maintenance_steps: "(store_step H)\<^sup>*\<^sup>* s (s\<lparr>sdb := maintenanceLoop (pg_store H) worker [m] (sdb s)\<rparr>)"
proof (cases m)
  case (WorkerHeartbeatDue now)
  then show ?thesis by (auto intro: r_into_rtranclp step_worker_heartbeat)
next
  case (RecoveryDue now)
  then show ?thesis by (auto simp: after_def split: sum.splits intro: r_into_rtranclp step_reclaim)
qed simp

lemma app_step_steps:
  assumes "app_step H W s s'" "limits_ok s"
  shows "(store_step H)\<^sup>*\<^sup>* s s'"
  using assms(1)
proof cases
  case (app_request env rq resp d')
  then show ?thesis using Routes_effect [of env rq "sdb s" resp d'] effect_step [of env s d'] by auto
next
  case (app_claim now tok worker lease v d')
  then show ?thesis by (auto intro: r_into_rtranclp step_claim)
next
  case (app_start v c over rnd now)
  then show ?thesis using process_steps [of v s "[]"] by simp
next
  case (app_signal v x c over rnd armed)
  then have "signal_ok x" using handled_signal_ok assms(2) by (auto simp: limits_ok_def within_limit_def)
  then show ?thesis using loop_steps [of v s "[x]"] app_signal by simp
next
  case app_maintenance
  then show ?thesis using maintenance_steps by blast
next
  case (app_register now worker)
  then show ?thesis by (auto intro: r_into_rtranclp step_register)
qed

lemma reachable_steps: "(store_step H)\<^sup>*\<^sup>* s s' \<Longrightarrow> reachable H s \<Longrightarrow> reachable H s'"
  by (induction rule: rtranclp_induct) (auto intro: reach_step)

lemma app_reachable_inv: "app_reachable H W s \<Longrightarrow> reachable H s \<and> limits_ok s"
proof (induction rule: app_reachable.induct)
  case app_init
  have "limits_ok init_sys" by (simp add: limits_ok_def init_sys_def empty_db_def every_row_def)
  then show ?case using reach_init by blast
next
  case (app_next s s')
  have "(store_step H)\<^sup>*\<^sup>* s s'" using app_step_steps app_next by blast
  then have "reachable H s'" using reachable_steps app_next by blast
  moreover have "sys_inv s" using reachable_sys_inv app_next(3) by blast
  then have "limits_ok s'" using limit.step_keeps [OF app_next(2)] app_next(3) unfolding limits_ok_def by blast
  ultimately show ?case ..
qed

lemma app_reachable_sys_inv: "app_reachable H W s \<Longrightarrow> sys_inv s"
  using app_reachable_inv reachable_sys_inv by blast

section \<open>No panic\<close>

lemma issued_attempts:
  assumes "sys_inv s" "limits_ok s" "v \<in> set (issued s)"
  shows "1 \<le> Attempts v \<and> Attempts v \<le> 20"
proof -
  obtain r where r: "r \<in> set (jobs (sdb s))" "Attempts v \<le> r_attempts r"
    using assms(1,3) by (auto simp: sys_inv_def leases_ok_def)
  have "row_ok r" using jobs_invD(2) r(1) assms(1) by (auto simp: sys_inv_def)
  then have "r_attempts r \<le> r_max_attempts r" by (simp add: row_ok_def)
  moreover have "r_max_attempts r \<le> 20" using assms(2) r(1) by (simp add: limits_ok_def every_row_def)
  ultimately show ?thesis using r(2) assms(2,3) by (auto simp: limits_ok_def within_limit_def)
qed

lemma Backoff_defined: "1 \<le> n \<Longrightarrow> n \<le> 34 \<Longrightarrow> Backoff over rnd n \<noteq> None"
  using window_bounds(2) [of n over] by (simp add: Backoff_def Let_def maxDelay_def second_def millisecond_def)

lemma loop_no_panic:
  assumes "Backoff over rnd (Attempts v) \<noteq> None"
  shows "fst (process_loop S c over rnd v armed sigs d) \<noteq> Panicked"
proof (induction sigs arbitrary: armed d)
  case (Cons x sigs)
  then show ?case using assms
    by (cases x) (auto simp: finish_handler_def Let_def split: sum.splits error_kind.splits option.splits prod.splits)
qed simp

text \<open>
  C36: in every state of the deployed system, requests and workers with their handlers interleaved in
  any order, the claimed attempt is between 1 and the limit of 20 the API admits, although
  handlers, retries and replays create jobs without passing the API's check; so computing a
  retry delay never panics, whatever signals the processing loop sees. The system stays
  within the steps of the job service.\<close>

theorem deployed_attempts_capped:
  assumes "app_reachable H W s" "v \<in> set (issued s)"
  shows "reachable H s \<and> 1 \<le> Attempts v \<and> Attempts v \<le> 20
    \<and> fst (process (pg_store H) c over rnd handlers now v sigs (sdb s)) \<noteq> Panicked"
proof -
  have inv: "reachable H s" "limits_ok s" "sys_inv s" using app_reachable_inv assms(1) reachable_sys_inv by blast+
  have a: "1 \<le> Attempts v \<and> Attempts v \<le> 20" by (rule issued_attempts [OF inv(3,2) assms(2)])
  then have "Backoff over rnd (Attempts v) \<noteq> None" by (intro Backoff_defined) auto
  then have "fst (process_loop (pg_store H) c over rnd v False sigs (sdb s)) \<noteq> Panicked" by (rule loop_no_panic)
  then show ?thesis using a inv(1) by (simp add: process_def)
qed

text \<open>A submission over HTTP followed by a claim.\<close>

definition posted :: sys where
  "posted = init_sys\<lparr>sdb := snd (Routes demo_env (PostJob ''k'' demo_body) empty_db)\<rparr>"

lemma posted_reachable: "app_reachable (env_hash demo_env) W posted"
  unfolding posted_def
  by (rule app_next [OF app_init app_request [of demo_env "PostJob ''k'' demo_body" _ "fst (Routes demo_env (PostJob ''k'' demo_body) empty_db)"]])
    (simp_all add: init_sys_def)

lemma posted_claimable: "\<exists>r \<in> set (jobs (sdb posted)). claimable 7 r"
proof -
  have "TrimSpace ''k'' = ''k''" by (rule TrimSpace_id) (simp add: trimmed_def is_space_def)
  then show ?thesis
    by (simp add: posted_def api_submit_def demo_decoded demo_validated DefaultMaxAttempts_def Let_def Submit_def with_default_attempts_def
        submission_of_def submit_row_def insert_job_def job_exists_def empty_db_def demo_env_def insert_event_def find_job_def
        new_row_def writeJSON_def nullif_empty_def submissionHash_def requestHash_def claimable_def split: option.splits)
qed

theorem deployed_attempts_capped_witness:
  "\<exists>s v. app_reachable (env_hash demo_env) ({} :: nat worker_env set) s \<and> issued s = [v] \<and> Attempts v \<le> 20
     \<and> fst (process (pg_store (env_hash demo_env)) demo_options 0 (\<lambda>n. 0) handled_types 9 v [] (sdb s)) \<noteq> Panicked"
proof -
  have inv: "sys_inv posted" using app_reachable_inv [OF posted_reachable] reachable_sys_inv by blast
  obtain v d where C: "Claim 7 ''t'' ''w'' 30 (sdb posted) = Inr (v, d)"
    using Claim_total inv by (metis sys_inv_def)
  have "next_claim 7 (sdb posted) \<noteq> None" using posted_claimable by (simp add: next_claim_None)
  then obtain w where v: "v = Some w" using C by (auto simp: Claim_def Let_def split: option.splits if_splits)
  let ?s = "posted\<lparr>sdb := d, issued := issued posted @ [w]\<rparr>"
  have i: "issued posted = []" by (simp add: posted_def init_sys_def)
  have "app_reachable (env_hash demo_env) ({} :: nat worker_env set) ?s"
    by (rule app_next [OF posted_reachable app_claim]) (use C v i in auto)
  from this deployed_attempts_capped [OF this, of w demo_options 0 "\<lambda>n. 0" handled_types 9 "[]"] i show ?thesis
    by (intro exI [of _ ?s] exI [of _ w]) auto
qed

end
