(* ===== verification/App_Audit.thy ===== *)
theory App_Audit
  imports App_System
begin

text \<open>
  Audits and update scans in the deployed system: each job a handler asks for carries the key
  of the package it is about, under the root that asked first. With the unique index on
  keys, a package is looked at once per root, however many packages depend on it and
  whether or not the dependency graph has cycles.
\<close>

section \<open>What a job is about\<close>

text \<open>Ecosystem, name and version, read as the handler of the job reads its payload.\<close>

definition audit_coordinate :: "string \<Rightarrow> raw_message \<Rightarrow> (string \<times> string \<times> string) option" where
  "audit_coordinate t raw =
     (if t = ''audit_npm_package'' then map_option (\<lambda>p. (''npm'', ap_Name p, ap_Version p)) (audit_payload_of raw)
      else if t = ''audit_pypi_package'' then map_option (\<lambda>p. (''pypi'', ap_Name p, ap_Version p)) (audit_payload_of raw)
      else if t = ''audit_go_module'' then map_option (\<lambda>p. (''go'', gp_Name p, gp_Version p)) (go_payload_of raw)
      else if t = ''package_update_check''
      then map_option (\<lambda>p. (uc_Ecosystem p, uc_Name p, uc_VersionRange p)) (update_check_of raw)
      else None)"

definition key_prefix :: "string \<Rightarrow> string" where
  "key_prefix t = (if t = ''package_update_check'' then ''update-child:'' else ''audit-child:'')"

definition coordinate_key :: "(string \<Rightarrow> string) \<Rightarrow> string \<Rightarrow> id \<Rightarrow> string \<times> string \<times> string \<Rightarrow> string" where
  "coordinate_key hash t rt c = dependencyChildKey hash (key_prefix t) rt (fst c) (fst (snd c)) (snd (snd c))"

definition names_child :: "(string \<Rightarrow> string) \<Rightarrow> submission \<Rightarrow> bool" where
  "names_child hash c \<longleftrightarrow>
     (\<exists>x. audit_coordinate (sType c) (sPayload c) = Some x \<and> sIdempotencyKey c = coordinate_key hash (sType c) (sRootJobID c) x)"

section \<open>The payloads are read back\<close>

lemmas decode_defs = audit_payload_of_def audit_payload_json_def go_payload_of_def go_payload_json_def update_check_of_def
  update_check_json_def field_for_def omit_empty_def EqualFold_def ToLower_def

lemma audit_payload_back: "audit_payload_of (Some (audit_payload_json p)) = Some p"
  by (simp add: decode_defs)

lemma go_payload_back: "go_payload_of (Some (go_payload_json p)) = Some p"
  by (simp add: decode_defs)

lemma update_check_back: "update_check_of (Some (update_check_json e d)) = Some \<lparr>uc_Ecosystem = e, uc_Name = dep_Name d, uc_VersionRange = dep_VersionRange d\<rparr>"
  by (simp add: decode_defs)

text \<open>
  A direct dependency on a Go module is sent as the payload of a package, whose parent has
  other field names than the payload of a module: the parent does not arrive.
\<close>

lemma go_seed_parent_lost:
  "go_payload_of (Some (audit_payload_json p)) = Some \<lparr>gp_Name = ap_Name p, gp_Version = ap_Version p, gp_ParentName = [], gp_ParentVersion = []\<rparr>"
  by (simp add: decode_defs)

section \<open>Children of the handlers\<close>

lemma named_child:
  assumes "audit_coordinate t (Some body) = Some x" "k = coordinate_key hash t (RootJobID v) x"
  shows "names_child hash (child_submission v t body k)"
  using assms by (simp add: names_child_def child_submission_def submission_of_def)

text \<open>A job type and its ecosystem belong together in the table of manifests.\<close>

definition audited_type :: "string \<Rightarrow> string \<Rightarrow> bool" where
  "audited_type t e \<longleftrightarrow> (t, e) \<in> {(''audit_npm_package'', ''npm''), (''audit_pypi_package'', ''pypi''), (''audit_go_module'', ''go'')}"

lemma audited_payload:
  "audited_type t e \<Longrightarrow> audit_coordinate t (Some (audit_payload_json p)) = Some (e, ap_Name p, ap_Version p)"
  "audited_type t e \<Longrightarrow> key_prefix t = ''audit-child:''"
  by (auto simp: audited_type_def audit_coordinate_def audit_payload_back go_seed_parent_lost key_prefix_def)

lemma loaded_types:
  assumes "load_manifests fetch repo ref sps ms = Some (Inr out)" "\<forall>sp \<in> set sps. audited_type (sp_jobType sp) (sp_ecosystem sp)"
    "\<forall>m \<in> set ms. audited_type (rm_jobType m) (rm_ecosystem m)"
  shows "\<forall>m \<in> set out. audited_type (rm_jobType m) (rm_ecosystem m)"
  using assms
proof (induction fetch repo ref sps ms rule: load_manifests.induct)
  case (2 fetch repo ref sp sps ms)
  show ?case
  proof (cases "fetch repo (sp_path sp) ref")
    case (Inl e)
    then have more: "Contains (error_text e) ''was not found''" using "2.prems"(1) by (auto split: if_splits)
    show ?thesis by (rule "2.IH"(1) [OF Inl more]) (use "2.prems" Inl more in simp_all)
  next
    case (Inr content)
    then obtain m where m: "sp_parse sp content = Some (Inr m)" using "2.prems"(1) by (auto split: option.splits sum.splits)
    show ?thesis by (rule "2.IH"(2) [OF Inr m refl]) (use "2.prems" Inr m in simp_all)
  qed
qed simp

lemma manifests_types:
  assumes "loadRepositoryManifests fetch rd L repo ref = Some (Inr out)"
  shows "\<forall>m \<in> set out. audited_type (rm_jobType m) (rm_ecosystem m)"
proof -
  let ?x = "load_manifests fetch repo (TrimSpace ref) (manifest_specs rd L repo) []"
  have "?x = Some (Inr out)"
    using assms unfolding loadRepositoryManifests_def by (cases ?x; cases "the ?x"; cases "projr (the ?x)") simp_all
  moreover have "\<forall>sp \<in> set (manifest_specs rd L repo). audited_type (sp_jobType sp) (sp_ecosystem sp)"
    by (simp add: manifest_specs_def audited_type_def)
  ultimately show ?thesis by (rule loaded_types) simp
qed

lemma seeds_named:
  assumes "\<forall>m \<in> set ms. audited_type (rm_jobType m) (rm_ecosystem m)" "c \<in> set (audit_seeds hash v ms)"
  shows "names_child hash c"
proof -
  obtain m d where m: "m \<in> set ms" "c = audit_child hash v m d" using assms(2) by (auto simp: audit_seeds_def)
  then have t: "audited_type (rm_jobType m) (rm_ecosystem m)" using assms(1) by blast
  show ?thesis unfolding m(2) audit_child_def
    by (rule named_child [OF audited_payload(1) [OF t]]) (simp add: coordinate_key_def audited_payload(2) [OF t])
qed

lemma scan_named: "c \<in> set (scan_children hash v ds seen) \<Longrightarrow> names_child hash c"
proof (induction hash v ds seen rule: scan_children.induct)
  case (2 hash v eco d ds seen)
  have "names_child hash (child_submission v ''package_update_check'' (update_check_json eco d) (update_key hash v eco d))"
    by (rule named_child [where x = "(eco, dep_Name d, dep_VersionRange d)"])
      (simp_all add: audit_coordinate_def update_check_back coordinate_key_def key_prefix_def update_key_def)
  then show ?case using 2 by (auto simp: Let_def split: if_splits)
qed simp

lemma with_manifests_children:
  assumes "with_manifests what fetch rd L v build = Some (Inr res)" "c \<in> set (Children res)"
  obtains p ms where "\<forall>m \<in> set ms. audited_type (rm_jobType m) (rm_ecosystem m)" "c \<in> set (Children (build p ms))"
proof -
  obtain p repo ms where ms: "loadRepositoryManifests fetch rd L repo (da_Ref p) = Some (Inr ms)" "res = build p ms"
    using assms(1) by (auto simp: with_manifests_def map_sum_Inr split: option.splits sum.splits)
  show ?thesis by (rule that [OF manifests_types [OF ms(1)]]) (use assms(2) ms(2) in simp)
qed

lemma worker_children_named:
  assumes "worker_handlers E t = Some h" "h v = Some (Inr res)" "c \<in> set (Children res)"
  shows "names_child (we_hash E) c"
proof -
  have scan: ?thesis if "update_scan_Handle (we_hash E) f rd L v = Some (Inr res)" for f rd L
    using that unfolding update_scan_Handle_def by (rule with_manifests_children [OF _ assms(3)]) (simp add: Let_def scan_named)
  have audit: ?thesis if "dependency_audit_Handle (we_hash E) f rd L v = Some (Inr res)" for f rd L
    using that unfolding dependency_audit_Handle_def by (rule with_manifests_children [OF _ assms(3)]) (simp add: Let_def seeds_named)
  have pkg: ?thesis if a: "audit_package_Handle (we_hash E) ord ph v = Some (Inr res)" and t: "audited_type (ph_JobType ph) (ph_Ecosystem ph)" for ord ph
  proof -
    obtain m d where c: "c = auditChild (we_hash E) ph v m d"
      using a assms(3) by (auto simp: audit_package_Handle_def map_sum_Inr split: option.splits)
    show ?thesis unfolding c auditChild_def
      by (rule named_child [OF audited_payload(1) [OF t]]) (simp add: coordinate_key_def audited_payload(2) [OF t])
  qed
  have go: ?thesis if a: "go_module_Handle (we_hash E) f v = Some (Inr res)" for f
  proof -
    obtain p m d where c: "c = go_child (we_hash E) v p m d"
      using a assms(3) by (auto simp: go_module_Handle_def map_sum_Inr split: option.splits)
    show ?thesis unfolding c go_child_def
      by (rule named_child [where x = "(''go'', rq_path d, rq_version d)"]) (simp_all add: audit_coordinate_def go_payload_back coordinate_key_def key_prefix_def)
  qed
  have none: "Children res = []" if "update_check_Handle ms L rs v = Some (Inr res)" for ms :: "'a mslib" and L rs
    using that by (auto simp: update_check_Handle_def map_sum_Inr split: option.splits if_splits)
  have demo: "Children res = []" if "demo_Handle b v = Inr res" for b
    using that by (auto simp: demo_Handle_def split: option.splits if_splits)
  show ?thesis
    using assms none demo scan audit pkg go unfolding worker_handlers_def Let_def
    by (auto simp: npm_handler_def pypi_handler_def audited_type_def split: if_splits)
qed

section \<open>The law of the rows\<close>

definition named_row :: "(string \<Rightarrow> string) \<Rightarrow> jobs_row \<Rightarrow> bool" where
  "named_row hash r \<longleftrightarrow> (r_internal r \<longrightarrow>
     (\<exists>x. audit_coordinate (r_type r) (r_payload r) = Some x
        \<and> r_idempotency_key r = Some (coordinate_key hash (r_type r) (r_root_job_id r) x)))"

lemma named_public: "\<not> r_internal r \<Longrightarrow> named_row hash r"
  by (simp add: named_row_def)

lemma named_inserted:
  assumes "names_child hash c" "inherits v c"
  shows "named_row hash (child_row H now i (with_default_attempts (adopt v c)))"
  using assms by (auto simp: named_row_def names_child_def child_row_def new_row_def with_default_attempts_def adopt_def inherits_def)

lemma named_law:
  assumes "\<forall>E \<in> W. we_hash E = hash"
  shows "creation_law (named_row hash) (\<lambda>v. True) H W"
proof unfold_locales
  show "named_row hash r'" if "same_identity r r'" "named_row hash r" for r r'
    using that by (simp add: same_identity_def named_row_def)
  show "named_row hash (child_row H now i (with_default_attempts (adopt v c)))"
    if a: "handled W v (HandlerDone t ids (Inr res))" and c: "c \<in> set (Children res)" for v t ids res c now i
  proof -
    obtain E h where E: "E \<in> W" "worker_handlers E (Type v) = Some h" "h v = Some (Inr res)"
      using a by (auto simp: handled_def)
    show ?thesis
      by (rule named_inserted [OF _ handled_children [OF a c]]) (use worker_children_named [OF E(2,3) c] E(1) assms in simp)
  qed
qed (auto intro!: named_public simp: submit_row_def replay_row_def new_row_def with_default_attempts_def submission_of_def)

lemma app_reachable_named:
  assumes "\<forall>E \<in> W. we_hash E = hash"
  shows "app_reachable H W s \<Longrightarrow> every_row (named_row hash) (sdb s)"
proof (induction rule: app_reachable.induct)
  case app_init
  show ?case by (simp add: init_sys_def empty_db_def every_row_def)
next
  case (app_next s s')
  from creation_law.step_keeps [OF named_law [OF assms] app_next(2) app_reachable_sys_inv [OF app_next(1)] app_next(3)]
  show ?case by simp
qed

end
