(* ===== verification/App_Demo.thy ===== *)
theory App_Demo
  imports App_Audit
begin

text \<open>
  A run of the deployed system, evaluated step by step: a repository is audited whose only
  dependency depends on itself. The first handler asks for the package, the second asks
  for it again, and the audit ends with one internal job.
\<close>

section \<open>The request\<close>

definition audit_env :: api_env where
  "audit_env = \<lparr>env_hash = (\<lambda>t n p. t), env_num = Some, env_now = 7, env_id = ''j1''\<rparr>"

definition audit_json :: json where
  "audit_json = JObj [(''repositoryUrl'', JStr ''https://github.com/o/r'')]"

definition audit_body :: request_body where
  "audit_body = \<lparr>rb_ContentLength = 90, rb_Bytes = 90, rb_Values = [JObj [(''type'', JStr ''dependency_audit''),
     (''payload'', audit_json)]], rb_Malformed = False\<rparr>"

lemma audit_decoded:
  "decode_submit audit_body = Some \<lparr>rq_Type = ''dependency_audit'', rq_Payload = Some audit_json, rq_MaxAttempts = 0\<rparr>"
  by (simp add: decode_submit_def decodeBody_def audit_body_def maxJobRequestBytes_def submit_member_def field_for_def Let_def)

lemma audit_url: "ParseRepositoryURL (TrimSpace ''https://github.com/o/r'') = Inr \<lparr>repo_Owner = ''o'', repo_Name = ''r''\<rparr>"
  by code_simp

lemma audit_validated: "validateSubmission \<lparr>rq_Type = ''dependency_audit'', rq_Payload = Some audit_json, rq_MaxAttempts = 5\<rparr> = None"
  by (simp add: validateSubmission_def validate_payload_def audit_json_def field_for_def audit_url)

definition audit_row :: jobs_row where
  "audit_row = submit_row (\<lambda>t n p. t) 7 ''j1'' ((submission_of ''dependency_audit'' (Some audit_json) 5)\<lparr>sIdempotencyKey := ''k'', sRequestHash := ''dependency_audit''\<rparr>)"

definition audit_d1 :: db where
  "audit_d1 = insert_event 7 ''j1'' ''submitted'' None None (JObj []) (empty_db\<lparr>jobs := [audit_row]\<rparr>)"

lemma audit_posted: "snd (Routes audit_env (PostJob ''k'' audit_body) empty_db) = audit_d1"
proof -
  have "TrimSpace ''k'' = ''k''" by (rule TrimSpace_id) (simp add: trimmed_def is_space_def)
  then show ?thesis
    by (simp add: audit_d1_def api_submit_def audit_decoded audit_validated DefaultMaxAttempts_def Let_def Submit_def with_default_attempts_def
        submission_of_def submit_row_def insert_job_def job_exists_def empty_db_def audit_env_def insert_event_def find_job_def audit_row_def
        new_row_def writeJSON_def nullif_empty_def submissionHash_def requestHash_def split: option.splits)
qed

section \<open>A worker and what its network answers\<close>

definition audit_page :: "string \<Rightarrow> json option" where
  "audit_page url = Some (JObj [(''name'', JStr ''a''), (''version'', JStr ''1''), (''license'', JStr ''MIT''), (''dependencies'', JObj [(''a'', JStr ''1'')])])"

definition audit_lib :: modlib where
  "audit_lib = \<lparr>ml_CheckPath = (\<lambda>p. True), ml_Check = (\<lambda>p v. True), ml_IsValid = (\<lambda>v. True), ml_CanonicalVersion = id, ml_IsPseudoVersion = (\<lambda>v. False),
     ml_PseudoVersionTime = (\<lambda>v. False), ml_PseudoVersionBase = (\<lambda>v. False), ml_Compare = (\<lambda>a b. 0)\<rparr>"

definition audit_worker :: "nat worker_env" where
  "audit_worker = \<lparr>we_hash = (\<lambda>s. s), we_order = (\<lambda>ds. ds),
     we_github = (\<lambda>repo path ref. if path = ''package.json'' then Inr ''manifest'' else Inl (PlainError ''manifest was not found'')),
     we_readers = \<lparr>rd_json = (\<lambda>s. Some (JObj [(''name'', JStr ''app''), (''dependencies'', JObj [(''a'', JStr ''1'')])])), rd_toml = (\<lambda>s. None), rd_mod = (\<lambda>s. None)\<rparr>,
     we_npm = \<lparr>nc_http = (\<lambda>url. Inr (200, Inr (1, audit_page url))), nc_baseURL = ''r'',
        nc_semver = \<lparr>ms_NewConstraint = (\<lambda>s. None), ms_NewVersion = (\<lambda>s. None), ms_Compare = (\<lambda>a b. 0), ms_Major = id, ms_Minor = id, ms_Patch = id\<rparr>,
        nc_sort = (\<lambda>le xs. xs), nc_order = (\<lambda>vs. vs)\<rparr>,
     we_pypi = \<lparr>pc_http = (\<lambda>url. Inl (False, PlainError ''offline'')), pc_Target = python_target, pc_sort = (\<lambda>le xs. xs), pc_order = (\<lambda>vs. vs)\<rparr>,
     we_proxy = \<lparr>px_modlib = audit_lib, px_EscapePath = Some, px_EscapeVersion = Some, px_Parse = (\<lambda>s. None), px_BaseURL = [],
        px_mod = (\<lambda>url. Inl (False, PlainError ''offline'')), px_json = (\<lambda>url. Inl (False, PlainError ''offline''))\<rparr>,
      we_cancelled = False\<rparr>"

section \<open>The states of the run\<close>

definition audit_v1 :: job where "audit_v1 = the (fst (projr (Claim 8 ''t1'' ''w'' 30 audit_d1)))"
definition audit_d2 :: db where "audit_d2 = committed (Claim 8 ''t1'' ''w'' 30 audit_d1)"

definition audit_seed :: submission where
  "audit_seed = child_submission audit_v1 ''audit_npm_package'' (audit_payload_json \<lparr>ap_Name = ''a'', ap_Version = ''1'', ap_ParentName = ''app'', ap_ParentVersion = []\<rparr>)
     (dependencyChildKey (\<lambda>s. s) ''audit-child:'' ''j1'' ''npm'' ''a'' ''1'')"

definition audit_res1 :: handler_result where
  "audit_res1 = \<lparr>Result = Some (JObj [(''auditId'', JStr ''j1''), (''repositoryUrl'', JStr ''https://github.com/o/r''),
     (''roots'', JArr [JStr ''npm:app'']), (''seedCount'', json_int 1)]), Children = [audit_seed]\<rparr>"

definition audit_d3 :: db where
  "audit_d3 = committed (Complete (\<lambda>t n p. t) 9 (\<lambda>n. ''c1'') audit_v1 audit_res1 audit_d2)"

definition audit_v2 :: job where "audit_v2 = the (fst (projr (Claim 10 ''t2'' ''w'' 30 audit_d3)))"
definition audit_d4 :: db where "audit_d4 = committed (Claim 10 ''t2'' ''w'' 30 audit_d3)"

definition audit_self :: submission where
  "audit_self = child_submission audit_v2 ''audit_npm_package'' (audit_payload_json \<lparr>ap_Name = ''a'', ap_Version = ''1'', ap_ParentName = ''a'', ap_ParentVersion = ''1''\<rparr>)
     (dependencyChildKey (\<lambda>s. s) ''audit-child:'' ''j1'' ''npm'' ''a'' ''1'')"

definition audit_res2 :: handler_result where
  "audit_res2 = \<lparr>Result = Some (audit_result_json ''npm'' ''a'' ''1'' ''MIT'' VerdictPass ''app'' []), Children = [audit_self]\<rparr>"

definition audit_d5 :: db where
  "audit_d5 = committed (Complete (\<lambda>t n p. t) 11 (\<lambda>n. ''c2'') audit_v2 audit_res2 audit_d4)"

lemma audit_run:
  "\<not> isl (Claim 8 ''t1'' ''w'' 30 audit_d1)" "fst (projr (Claim 8 ''t1'' ''w'' 30 audit_d1)) \<noteq> None"
  "\<not> isl (Complete (\<lambda>t n p. t) 9 (\<lambda>n. ''c1'') audit_v1 audit_res1 audit_d2)"
  "\<not> isl (Claim 10 ''t2'' ''w'' 30 audit_d3)" "fst (projr (Claim 10 ''t2'' ''w'' 30 audit_d3)) \<noteq> None"
  "\<not> isl (Complete (\<lambda>t n p. t) 11 (\<lambda>n. ''c2'') audit_v2 audit_res2 audit_d4)"
  by code_simp+

lemma audit_rows:
  "map (\<lambda>r. (r_id r, r_internal r, r_status r)) (jobs audit_d5) = [(''j1'', False, StatusCompleted), (''c1'', True, StatusCompleted)]"
  by code_simp

lemma audit_values: "Type audit_v1 = ''dependency_audit''" "Payload audit_v1 = Some audit_json" "RootJobID audit_v1 = ''j1''"
  "Type audit_v2 = ''audit_npm_package''" "RootJobID audit_v2 = ''j1''"
  "Payload audit_v2 = Some (audit_payload_json \<lparr>ap_Name = ''a'', ap_Version = ''1'', ap_ParentName = ''app'', ap_ParentVersion = []\<rparr>)"
  by code_simp+

section \<open>The handlers answer\<close>

lemma audit_answer1: "\<exists>h. worker_handlers audit_worker (Type audit_v1) = Some h \<and> h audit_v1 = Some (Inr audit_res1)"
proof -
  have t: "TrimSpace [] = []" by code_simp
  let ?L = "px_modlib (we_proxy audit_worker)"
  let ?m = "\<lparr>rm_ecosystem = ''npm'', rm_jobType = ''audit_npm_package'', rm_manifest = \<lparr>mf_Name = ''app'', mf_Dependencies = [direct ''a'' ''1'']\<rparr>\<rparr>"
  have p: "ParsePackageJSON (rd_json (we_readers audit_worker) ''manifest'') True = Inr (rm_manifest ?m)"
    by (simp add: audit_worker_def ParsePackageJSON_def package_json_of_def package_member_def field_for_def decode_map_def sort_dependencies_def)
  have "load_manifests (we_github audit_worker) \<lparr>repo_Owner = ''o'', repo_Name = ''r''\<rparr> [] (manifest_specs (we_readers audit_worker) ?L \<lparr>repo_Owner = ''o'', repo_Name = ''r''\<rparr>) []
      = Some (Inr [?m])"
    unfolding manifest_specs_def using p by (simp add: audit_worker_def HasPrefix_def)
  then have "loadRepositoryManifests (we_github audit_worker) (we_readers audit_worker) ?L \<lparr>repo_Owner = ''o'', repo_Name = ''r''\<rparr> [] = Some (Inr [?m])"
    by (simp add: loadRepositoryManifests_def t)
  then have "dependency_audit_Handle (we_hash audit_worker) (we_github audit_worker) (we_readers audit_worker) ?L audit_v1 = Some (Inr audit_res1)"
    using audit_values(1-3) audit_url
    by (simp add: dependency_audit_Handle_def with_manifests_def audit_request_of_def audit_json_def field_for_def audit_seeds_def audit_child_def direct_def
        audit_res1_def audit_seed_def audit_worker_def Let_def)
  then show ?thesis by (simp add: worker_handlers_def audit_values)
qed

lemma audit_answer2: "\<exists>h. worker_handlers audit_worker (Type audit_v2) = Some h \<and> h audit_v2 = Some (Inr audit_res2)"
proof -
  have 1: "npm_FetchPackage (we_npm audit_worker) ''a'' ''1'' = Inr \<lparr>pm_Name = ''a'', pm_Version = ''1'', pm_License = ''MIT'', pm_Dependencies = [(''a'', ''1'')]\<rparr>"
    by (simp add: npm_FetchPackage_def audit_worker_def resolveVersion_def ParseRange_def fetchVersionMeta_def audit_page_def version_meta_of_def
      version_meta_member_def field_for_def decode_map_def)
  have 2: "we_hash audit_worker = (\<lambda>s. s)" "we_order audit_worker = (\<lambda>ds. ds)" by (simp_all add: audit_worker_def)
  have "audit_package_Handle (\<lambda>s. s) (\<lambda>ds. ds) (npm_handler audit_worker) audit_v2 = Some (Inr audit_res2)"
    using 1 audit_values(4-6)
    by (simp add: audit_package_Handle_def npm_handler_def npm_registry_def audit_payload_back audit_res2_def license_check_def auditChild_def audit_self_def allowedLicenses_def)
  then show ?thesis by (simp add: worker_handlers_def audit_values 2)
qed

section \<open>The run\<close>

definition audit_s1 :: sys where "audit_s1 = init_sys\<lparr>sdb := audit_d1\<rparr>"
definition audit_s2 :: sys where "audit_s2 = \<lparr>sdb = audit_d2, issued = [audit_v1]\<rparr>"
definition audit_s3 :: sys where "audit_s3 = \<lparr>sdb = audit_d3, issued = [audit_v1]\<rparr>"
definition audit_s4 :: sys where "audit_s4 = \<lparr>sdb = audit_d4, issued = [audit_v1, audit_v2]\<rparr>"
definition audit_s5 :: sys where "audit_s5 = \<lparr>sdb = audit_d5, issued = [audit_v1, audit_v2]\<rparr>"

lemma audit_steps:
  "Claim 8 ''t1'' ''w'' 30 audit_d1 = Inr (Some audit_v1, audit_d2)"
  "Complete (\<lambda>t n p. t) 9 (\<lambda>n. ''c1'') audit_v1 audit_res1 audit_d2 = Inr ((), audit_d3)"
  "Claim 10 ''t2'' ''w'' 30 audit_d3 = Inr (Some audit_v2, audit_d4)"
  "Complete (\<lambda>t n p. t) 11 (\<lambda>n. ''c2'') audit_v2 audit_res2 audit_d4 = Inr ((), audit_d5)"
  using committed_eq [OF audit_run(1)] committed_eq [OF audit_run(3)] committed_eq [OF audit_run(4)] committed_eq [OF audit_run(6)] audit_run(2,5)
  by (auto simp: audit_d2_def audit_d3_def audit_d4_def audit_d5_def audit_v1_def audit_v2_def)

lemma audit_tokens: "LeaseToken audit_v1 = ''t1''" by code_simp

lemma audit_reachable: "app_reachable (\<lambda>t n p. t) {audit_worker} audit_s5"
proof -
  let ?R = "app_reachable (\<lambda>t n p. t) {audit_worker}"
  have h: "env_hash audit_env = (\<lambda>t n p. t)" by (simp add: audit_env_def)
  have r: "Routes audit_env (PostJob ''k'' audit_body) (sdb init_sys) = (fst (Routes audit_env (PostJob ''k'' audit_body) empty_db), audit_d1)"
    by (simp add: init_sys_def prod_eq_iff flip: audit_posted)
  have 1: "?R audit_s1" unfolding audit_s1_def by (rule app_next [OF app_init app_request [OF r h]])
  have "app_step (\<lambda>t n p. t) {audit_worker} audit_s1 audit_s2"
    using app_claim [of 8 "''t1''" "''w''" 30 audit_s1 audit_v1 audit_d2] by (simp add: audit_s1_def audit_s2_def init_sys_def audit_steps)
  then have 2: "?R audit_s2" using 1 app_next by blast
  have "handled {audit_worker} audit_v1 (HandlerDone 9 (\<lambda>n. ''c1'') (Inr audit_res1))" using audit_answer1 by (simp add: handled_def)
  then have "app_step (\<lambda>t n p. t) {audit_worker} audit_s2 audit_s3"
    using app_signal [of audit_v1 audit_s2 "{audit_worker}" "HandlerDone 9 (\<lambda>n. ''c1'') (Inr audit_res1)" "\<lambda>t n p. t" demo_options 0 "\<lambda>n. 0" False]
    by (simp add: audit_s2_def audit_s3_def finish_handler_def after_def audit_steps)
  then have 3: "?R audit_s3" using 2 app_next by blast
  have "app_step (\<lambda>t n p. t) {audit_worker} audit_s3 audit_s4"
    using app_claim [of 10 "''t2''" "''w''" 30 audit_s3 audit_v2 audit_d4] by (simp add: audit_s3_def audit_s4_def audit_tokens audit_steps)
  then have 4: "?R audit_s4" using 3 app_next by blast
  have "handled {audit_worker} audit_v2 (HandlerDone 11 (\<lambda>n. ''c2'') (Inr audit_res2))" using audit_answer2 by (simp add: handled_def)
  then have "app_step (\<lambda>t n p. t) {audit_worker} audit_s4 audit_s5"
    using app_signal [of audit_v2 audit_s4 "{audit_worker}" "HandlerDone 11 (\<lambda>n. ''c2'') (Inr audit_res2)" "\<lambda>t n p. t" demo_options 0 "\<lambda>n. 0" False]
    by (simp add: audit_s4_def audit_s5_def finish_handler_def after_def audit_steps)
  then show ?thesis using 4 app_next by blast
qed

end
