(* ===== verification/App_Theorems.thy ===== *)
theory App_Theorems
  imports App_Demo
begin

text \<open>
  What an audit amounts to in the deployed system: at most one job for each package under
  its root, and so an amount of work the packages bound.
\<close>

section \<open>Every package once\<close>

text \<open>The jobs handlers asked for under a root, and what each is about.\<close>

definition internal_jobs :: "id \<Rightarrow> db \<Rightarrow> jobs_row set" where
  "internal_jobs i d = {r \<in> set (jobs d). r_internal r \<and> r_root_job_id r = i}"

definition subject_of :: "jobs_row \<Rightarrow> string \<times> (string \<times> string \<times> string) option" where
  "subject_of r = (r_type r, audit_coordinate (r_type r) (r_payload r))"

lemma subjects_distinct:
  assumes "every_row (named_row hash) d" "jobs_inv d"
  shows "inj_on subject_of (internal_jobs i d)"
proof (rule inj_onI)
  fix r q assume r: "r \<in> internal_jobs i d" and q: "q \<in> internal_jobs i d" and eq: "subject_of r = subject_of q"
  obtain x where x: "audit_coordinate (r_type r) (r_payload r) = Some x" "r_idempotency_key r = Some (coordinate_key hash (r_type r) i x)"
    using assms(1) r by (auto simp: every_row_def named_row_def internal_jobs_def)
  obtain y where y: "audit_coordinate (r_type q) (r_payload q) = Some y" "r_idempotency_key q = Some (coordinate_key hash (r_type q) i y)"
    using assms(1) q by (auto simp: every_row_def named_row_def internal_jobs_def)
  have "r_type r = r_type q" "x = y" using eq x(1) y(1) by (auto simp: subject_of_def)
  with x(2) y(2) have k: "r_idempotency_key q = Some (coordinate_key hash (r_type r) i x)" by simp
  show "r = q"
    by (rule unique_keysD [OF _ _ _ x(2) k]) (use assms(2) r q in \<open>auto simp: jobs_inv_def internal_jobs_def\<close>)
qed

lemma attempts_total:
  assumes "limits_ok s" "sys_inv s" "finite (internal_jobs i (sdb s))"
  shows "(\<Sum>r \<in> internal_jobs i (sdb s). r_attempts r) \<le> 20 * int (card (internal_jobs i (sdb s)))"
proof -
  have "r_attempts r \<le> 20" if "r \<in> internal_jobs i (sdb s)" for r
  proof -
    have r: "r \<in> set (jobs (sdb s))" using that by (simp add: internal_jobs_def)
    have "row_ok r" using assms(2) r jobs_invD(2) by (auto simp: sys_inv_def)
    then have "r_attempts r \<le> r_max_attempts r" by (simp add: row_ok_def)
    then show ?thesis using assms(1) r by (auto simp: limits_ok_def every_row_def)
  qed
  then have "(\<Sum>r \<in> internal_jobs i (sdb s). r_attempts r) \<le> of_nat (card (internal_jobs i (sdb s))) * 20"
    by (rule sum_bounded_above)
  then show ?thesis by simp
qed

text \<open>
  C9: In every state of the deployed system, however requests, workers and their handlers
  interleave, a root has at most one job for each package its handlers asked about, whatever
  number of packages depend on it: no two internal jobs of a root have the same type and the
  same ecosystem, name and version. So where the packages come from a finite set, cyclic or
  not, an audit consists of at most that many jobs and is claimed at most twenty times as
  often, which bounds the work of an audit.\<close>

theorem audit_once_per_package:
  assumes "app_reachable H W s" "\<forall>E \<in> W. we_hash E = hash"
  shows "inj_on subject_of (internal_jobs i (sdb s))
    \<and> (\<forall>r \<in> internal_jobs i (sdb s). snd (subject_of r) \<noteq> None)
    \<and> (finite U \<and> subject_of ` internal_jobs i (sdb s) \<subseteq> U \<longrightarrow>
        card (internal_jobs i (sdb s)) \<le> card U \<and> (\<Sum>r \<in> internal_jobs i (sdb s). r_attempts r) \<le> 20 * int (card U))"
proof -
  have named: "every_row (named_row hash) (sdb s)" by (rule app_reachable_named [OF assms(2,1)])
  have inv: "sys_inv s" "limits_ok s" using app_reachable_sys_inv app_reachable_inv assms(1) by blast+
  then have inj: "inj_on subject_of (internal_jobs i (sdb s))" using subjects_distinct [OF named] by (simp add: sys_inv_def)
  have fin: "finite (internal_jobs i (sdb s))" by (simp add: internal_jobs_def)
  have some: "snd (subject_of r) \<noteq> None" if "r \<in> internal_jobs i (sdb s)" for r
    using named that by (auto simp: every_row_def named_row_def internal_jobs_def subject_of_def)
  have "card (internal_jobs i (sdb s)) \<le> card U" if "finite U" "subject_of ` internal_jobs i (sdb s) \<subseteq> U"
    by (rule card_inj_on_le [OF inj that(2,1)])
  then show ?thesis using inj some attempts_total [OF inv(2,1) fin] by fastforce
qed

theorem audit_once_per_package_witness:
  "app_reachable (\<lambda>t n p. t) {audit_worker} audit_s5
   \<and> map (\<lambda>r. (r_id r, r_internal r, r_status r)) (jobs (sdb audit_s5)) = [(''j1'', False, StatusCompleted), (''c1'', True, StatusCompleted)]
   \<and> card (internal_jobs ''j1'' (sdb audit_s5)) \<le> 1"
proof -
  let ?U = "{(''audit_npm_package'', Some (''npm'', ''a'', ''1''))}"
  have "map (\<lambda>r. (r_internal r, r_root_job_id r, r_type r, r_payload r)) (jobs audit_d5)
    = [(False, ''j1'', ''dependency_audit'', Some audit_json), (True, ''j1'', ''audit_npm_package'', Payload audit_v2)]"
    by code_simp
  then have "subject_of ` internal_jobs ''j1'' (sdb audit_s5) \<subseteq> ?U"
    by (auto simp: map_eq_Cons_conv internal_jobs_def subject_of_def audit_s5_def audit_coordinate_def audit_values audit_payload_back)
  then have "card (internal_jobs ''j1'' (sdb audit_s5)) \<le> card ?U"
    using audit_once_per_package [OF audit_reachable, of "\<lambda>s. s" "''j1''" ?U] by (simp add: audit_worker_def)
  then show ?thesis using audit_reachable audit_rows by (simp add: audit_s5_def)
qed

end
