(* ===== verification/Go_Duration.thy ===== *)
theory Go_Duration
  imports Go_Strings
begin

text \<open>
  \<^verbatim>\<open>time.ParseDuration\<close>: a sign and one or more numbers with a unit, in nanoseconds. Sums
  are kept in 64 unsigned bits and may not exceed \<open>2 ^ 63\<close>. The product of a decimal
  fraction with its unit is a floating-point computation, which is the argument
  \<open>frac\<close>.
\<close>

definition digit_nat :: "char \<Rightarrow> nat" where
  "digit_nat c = nat (digit_val c)"

fun leadingInt :: "nat \<Rightarrow> string \<Rightarrow> (nat \<times> string) option" where
  "leadingInt x [] = Some (x, [])"
| "leadingInt x (c # s) =
     (if \<not> is_digit c then Some (x, c # s)
      else if x > 2 ^ 63 div 10 \<or> x * 10 + digit_nat c > 2 ^ 63 then None
      else leadingInt (x * 10 + digit_nat c) s)"

text \<open>The digits after the point, as a number and its scale; digits that do not fit are skipped.\<close>

fun leadingFraction :: "nat \<Rightarrow> nat \<Rightarrow> bool \<Rightarrow> string \<Rightarrow> nat \<times> nat \<times> string" where
  "leadingFraction x scale overflow [] = (x, scale, [])"
| "leadingFraction x scale overflow (c # s) =
     (if \<not> is_digit c then (x, scale, c # s)
      else if overflow \<or> x > (2 ^ 63 - 1) div 10 \<or> x * 10 + digit_nat c > 2 ^ 63 then leadingFraction x scale True s
      else leadingFraction (x * 10 + digit_nat c) (scale * 10) False s)"

definition unit_of :: "string \<Rightarrow> nat option" where
  "unit_of u =
     map_of [(''ns'', 1), (''us'', 1000), ([CHR 0xC2, CHR 0xB5, CHR ''s''], 1000), ([CHR 0xCE, CHR 0xBC, CHR ''s''], 1000),
       (''ms'', 1000000), (''s'', 1000000000), (''m'', 60000000000), (''h'', 3600000000000)] u"

definition number_char :: "char \<Rightarrow> bool" where
  "number_char c \<longleftrightarrow> c = CHR ''.'' \<or> is_digit c"

text \<open>The part behind the integer: whether digits follow a point, the fraction, and the rest.\<close>

definition fraction_part :: "string \<Rightarrow> bool \<times> nat \<times> nat \<times> string" where
  "fraction_part s =
     (case s of
        c # r \<Rightarrow> if c = CHR ''.'' then (case leadingFraction 0 1 False r of (f, scale, r') \<Rightarrow> (length r' \<noteq> length r, f, scale, r'))
                 else (False, 0, 1, s)
      | [] \<Rightarrow> (False, 0, 1, s))"

text \<open>One number with its unit: its value and the rest of the text.\<close>

definition duration_part :: "(nat \<Rightarrow> nat \<Rightarrow> nat \<Rightarrow> nat) \<Rightarrow> string \<Rightarrow> (nat \<times> string) option" where
  "duration_part frac s =
     (if s = [] \<or> \<not> number_char (hd s) then None
      else case leadingInt 0 s of
             None \<Rightarrow> None
           | Some (v, s1) \<Rightarrow>
               (case fraction_part s1 of (post, f, scale, s2) \<Rightarrow>
                  if length s1 = length s \<and> \<not> post then None
                  else let u = takeWhile (\<lambda>c. \<not> number_char c) s2; rest = dropWhile (\<lambda>c. \<not> number_char c) s2
                       in if u = [] then None
                          else case unit_of u of
                                 None \<Rightarrow> None
                               | Some n \<Rightarrow>
                                   if v > 2 ^ 63 div n then None
                                   else let w = v * n + (if f > 0 then frac f n scale else 0)
                                        in if w > 2 ^ 63 then None else Some (w, rest)))"

lemma leadingInt_length: "leadingInt x s = Some (v, r) \<Longrightarrow> length r \<le> length s"
  by (induction x s rule: leadingInt.induct) (auto split: if_splits)

lemma leadingFraction_length: "leadingFraction x scale b s = (f, scale', r) \<Longrightarrow> length r \<le> length s"
  by (induction x scale b s rule: leadingFraction.induct) (auto split: if_splits)

lemma fraction_part_length: "fraction_part s = (post, f, scale, r) \<Longrightarrow> length r \<le> length s"
  by (auto simp: fraction_part_def dest: leadingFraction_length split: list.splits if_splits prod.splits)

lemma duration_part_length:
  assumes "duration_part frac s = Some (w, rest)"
  shows "length rest < length s"
proof -
  obtain v s1 post f scale s2 where 1: "leadingInt 0 s = Some (v, s1)" "fraction_part s1 = (post, f, scale, s2)"
    and 2: "takeWhile (\<lambda>c. \<not> number_char c) s2 \<noteq> []" "rest = dropWhile (\<lambda>c. \<not> number_char c) s2"
    using assms by (auto simp: duration_part_def Let_def split: if_splits option.splits prod.splits)
  have "s2 = takeWhile (\<lambda>c. \<not> number_char c) s2 @ rest" unfolding 2(2) by simp
  then have "length s2 = length (takeWhile (\<lambda>c. \<not> number_char c) s2) + length rest" by (metis length_append)
  then have "length rest < length s2" using 2(1) by simp
  then show ?thesis using leadingInt_length [OF 1(1)] fraction_part_length [OF 1(2)] by simp
qed

function duration_parts :: "(nat \<Rightarrow> nat \<Rightarrow> nat \<Rightarrow> nat) \<Rightarrow> nat \<Rightarrow> string \<Rightarrow> nat option" where
  "duration_parts frac d s =
     (if s = [] then Some d
      else case duration_part frac s of
             None \<Rightarrow> None
           | Some (w, rest) \<Rightarrow> if d + w > 2 ^ 63 then None else duration_parts frac (d + w) rest)"
  by pat_completeness auto
termination
  by (relation "measure (\<lambda>(frac, d, s). length s)") (auto dest: duration_part_length)

declare duration_parts.simps [simp del]

definition ParseDuration :: "(nat \<Rightarrow> nat \<Rightarrow> nat \<Rightarrow> nat) \<Rightarrow> string \<Rightarrow> int option" where
  "ParseDuration frac s =
     (let neg = (s \<noteq> [] \<and> hd s = CHR ''-'');
          body = (if s \<noteq> [] \<and> hd s \<in> {CHR ''-'', CHR ''+''} then tl s else s)
      in if body = ''0'' then Some 0
         else if body = [] then None
         else case duration_parts frac 0 body of
                None \<Rightarrow> None
              | Some d \<Rightarrow> if neg then Some (- int d) else if d > 2 ^ 63 - 1 then None else Some (int d))"

lemma duration_parts_bound: "duration_parts frac d s = Some n \<Longrightarrow> d \<le> 2 ^ 63 \<Longrightarrow> n \<le> 2 ^ 63"
proof (induction frac d s rule: duration_parts.induct)
  case (1 frac d s)
  show ?case
  proof (cases "s = []")
    case True
    then show ?thesis using "1.prems" by (simp add: duration_parts.simps)
  next
    case False
    then obtain w rest where w: "duration_part frac s = Some (w, rest)" "\<not> d + w > 2 ^ 63" "duration_parts frac (d + w) rest = Some n"
      using "1.prems"(1) by (subst (asm) duration_parts.simps) (auto split: option.splits if_splits)
    then show ?thesis using "1.IH" [OF False w(1) refl w(2,3)] by simp
  qed
qed

lemma ParseDuration_range: "ParseDuration frac s = Some n \<Longrightarrow> n \<le> max_int64"
  by (auto simp: ParseDuration_def Let_def max_int64_def split: if_splits option.splits)

end
