(* ===== verification/Commands.thy ===== *)
theory Commands
  imports Worker_Service Go_Duration
begin

text \<open>
  How the two commands come up: \<^verbatim>\<open>cmd/worker/main.go\<close> with the start of
  \<^verbatim>\<open>Service.Run\<close>, and \<^verbatim>\<open>cmd/api/main.go\<close>. The environment is a function; an unset
  variable is empty, as for \<^verbatim>\<open>os.Getenv\<close>. What the operating system, the database driver and
  the generator of UUIDs answer are arguments.
\<close>

type_synonym environment = "string \<Rightarrow> string"
type_synonym float_frac = "nat \<Rightarrow> nat \<Rightarrow> nat \<Rightarrow> nat"

text \<open>A process ends with a message of \<^verbatim>\<open>log.Fatal\<close> (\<open>Inl\<close>) or goes on.\<close>

definition durationEnv :: "float_frac \<Rightarrow> environment \<Rightarrow> string \<Rightarrow> int \<Rightarrow> string + int" where
  "durationEnv frac env name fallback =
     (if env name = [] then Inr fallback
      else case ParseDuration frac (env name) of
             None \<Rightarrow> Inl (name @ '' must be a positive duration'')
           | Some v \<Rightarrow> if v \<le> 0 then Inl (name @ '' must be a positive duration'') else Inr v)"

definition worker_concurrency :: "environment \<Rightarrow> int" where
  "worker_concurrency env =
     (let raw = env ''WORKER_CONCURRENCY'' in
      if raw = [] then 10
      else case Atoi raw of (v, ok) \<Rightarrow> if ok \<and> v > 0 then v else 10)"

definition worker_id :: "environment \<Rightarrow> string \<Rightarrow> string \<Rightarrow> string" where
  "worker_id env hostname uuid = (if env ''WORKER_ID'' = [] then hostname @ ''-'' @ take 8 uuid else env ''WORKER_ID'')"

text \<open>The options are read in the order of the literal; the first bad one ends the process.\<close>

definition worker_options :: "float_frac \<Rightarrow> environment \<Rightarrow> string + service_options" where
  "worker_options frac env =
     (case durationEnv frac env ''WORKER_LEASE_DURATION'' (30 * second) of Inl e \<Rightarrow> Inl e | Inr lease \<Rightarrow>
      (case durationEnv frac env ''WORKER_HEARTBEAT_INTERVAL'' (10 * second) of Inl e \<Rightarrow> Inl e | Inr heartbeat \<Rightarrow>
       (case durationEnv frac env ''WORKER_RECOVERY_INTERVAL'' (5 * second) of Inl e \<Rightarrow> Inl e | Inr recovery \<Rightarrow>
        (case durationEnv frac env ''WORKER_POLL_INTERVAL'' (250 * millisecond) of Inl e \<Rightarrow> Inl e | Inr poll \<Rightarrow>
         (case durationEnv frac env ''SHUTDOWN_TIMEOUT'' (25 * second) of Inl e \<Rightarrow> Inl e | Inr shutdown \<Rightarrow>
            Inr \<lparr>Concurrency = worker_concurrency env, PollInterval = poll, LeaseDuration = lease, HeartbeatEvery = heartbeat,
              RecoveryInterval = recovery, ShutdownTimeout = shutdown\<rparr>)))))"

text \<open>
  The start of \<^verbatim>\<open>Run\<close>: the check of the intervals, the registration, and then as many
  claim loops as the concurrency says beside one maintenance loop.
\<close>

definition service_run :: "service_options \<Rightarrow> ('d \<Rightarrow> string + 'd) \<Rightarrow> 'd \<Rightarrow> string + nat \<times> 'd" where
  "service_run c register d =
     (if \<not> run_allowed c then Inl ''worker heartbeat interval must be less than half the lease duration''
      else case register d of Inl e \<Rightarrow> Inl e | Inr d' \<Rightarrow> Inr (nat (Concurrency c), d'))"

record 'd started =
  st_WorkerID :: string
  st_Options :: service_options
  st_Loops :: nat
  st_Db :: 'd

definition worker_main ::
  "float_frac \<Rightarrow> environment \<Rightarrow> string \<Rightarrow> string \<Rightarrow> string option \<Rightarrow> (string \<Rightarrow> 'd \<Rightarrow> string + 'd) \<Rightarrow> 'd \<Rightarrow> string + 'd started"
where
  "worker_main frac env hostname uuid pool_error register d =
     (if env ''DATABASE_URL'' = [] then Inl ''DATABASE_URL is required''
      else case pool_error of
             Some e \<Rightarrow> Inl e
           | None \<Rightarrow>
               (case worker_options frac env of
                  Inl e \<Rightarrow> Inl e
                | Inr options \<Rightarrow>
                    (let c = NewService options; i = worker_id env hostname uuid
                     in case service_run c (register i) d of
                          Inl e \<Rightarrow> Inl e
                        | Inr (n, d') \<Rightarrow> Inr \<lparr>st_WorkerID = i, st_Options = c, st_Loops = n, st_Db = d'\<rparr>)))"

text \<open>The API reads its address when it starts, and its timeout only when it is told to stop.\<close>

definition api_start :: "environment \<Rightarrow> string option \<Rightarrow> string + string" where
  "api_start env pool_error =
     (if env ''DATABASE_URL'' = [] then Inl ''DATABASE_URL is required''
      else case pool_error of
             Some e \<Rightarrow> Inl e
           | None \<Rightarrow> Inr (if env ''API_ADDR'' = [] then ''0.0.0.0:8080'' else env ''API_ADDR''))"

definition api_stop :: "float_frac \<Rightarrow> environment \<Rightarrow> string + int" where
  "api_stop frac env = durationEnv frac env ''SHUTDOWN_TIMEOUT'' (10 * second)"

section \<open>What a started worker can rely on\<close>

lemma durationEnv_range:
  "durationEnv frac env name fallback = Inr n \<Longrightarrow> 1 \<le> fallback \<Longrightarrow> fallback \<le> max_int64 \<Longrightarrow> 1 \<le> n \<and> n \<le> max_int64"
  by (auto simp: durationEnv_def dest: ParseDuration_range split: if_splits option.splits)

lemma concurrency_positive: "1 \<le> worker_concurrency env"
  by (auto simp: worker_concurrency_def Let_def split: prod.splits)

definition positive_options :: "service_options \<Rightarrow> bool" where
  "positive_options c \<longleftrightarrow> 1 \<le> Concurrency c
     \<and> (\<forall>n \<in> {PollInterval c, LeaseDuration c, HeartbeatEvery c, RecoveryInterval c, ShutdownTimeout c}. 1 \<le> n \<and> n \<le> max_int64)"

lemma options_positive:
  assumes "worker_options frac env = Inr c"
  shows "positive_options c" "NewService c = c"
proof -
  have b: "1 \<le> k * second \<and> k * second \<le> max_int64" "1 \<le> 250 * millisecond \<and> 250 * millisecond \<le> max_int64" if "k \<in> {30, 10, 5, 25}" for k
    using that by (auto simp: second_def millisecond_def max_int64_def)
  obtain lease heartbeat recovery poll shutdown where
    d: "durationEnv frac env ''WORKER_LEASE_DURATION'' (30 * second) = Inr lease"
      "durationEnv frac env ''WORKER_HEARTBEAT_INTERVAL'' (10 * second) = Inr heartbeat"
      "durationEnv frac env ''WORKER_RECOVERY_INTERVAL'' (5 * second) = Inr recovery"
      "durationEnv frac env ''WORKER_POLL_INTERVAL'' (250 * millisecond) = Inr poll"
      "durationEnv frac env ''SHUTDOWN_TIMEOUT'' (25 * second) = Inr shutdown"
    and c: "c = \<lparr>Concurrency = worker_concurrency env, PollInterval = poll, LeaseDuration = lease, HeartbeatEvery = heartbeat,
              RecoveryInterval = recovery, ShutdownTimeout = shutdown\<rparr>"
    using assms by (auto simp: worker_options_def split: sum.splits)
  show p: "positive_options c"
    using d [THEN durationEnv_range] b concurrency_positive [of env] by (auto simp: positive_options_def c)
  show "NewService c = c"
    using p by (simp add: NewService_def or_default_def positive_options_def)
qed

lemma heartbeat_fits:
  assumes "positive_options c" "run_allowed c"
  shows "2 * HeartbeatEvery c < LeaseDuration c \<or> 2 ^ 62 \<le> HeartbeatEvery c"
proof (rule ccontr)
  assume n: "\<not> ?thesis"
  then have "wrap64 (HeartbeatEvery c * 2) = HeartbeatEvery c * 2"
    using assms(1) by (simp add: wrap64_def positive_options_def)
  then show False using assms(2) n by (simp add: run_allowed_def)
qed

text \<open>
  C37: A worker process either ends with a message or runs with options that are positive
  and fit the machine, whatever its environment holds, and the defaults of the service then
  change nothing. At least one claim loop runs. Two heartbeats fit into a lease, unless the
  interval between them is so long that its double exceeds the machine integer.\<close>

theorem worker_starts_sound:
  assumes "worker_main frac env hostname uuid pool_error register d = Inr s"
  shows "positive_options (st_Options s) \<and> worker_options frac env = Inr (st_Options s) \<and> 1 \<le> st_Loops s
    \<and> (2 * HeartbeatEvery (st_Options s) < LeaseDuration (st_Options s) \<or> 2 ^ 62 \<le> HeartbeatEvery (st_Options s))"
proof -
  obtain c n d' where c: "worker_options frac env = Inr c" "service_run (NewService c) (register (worker_id env hostname uuid)) d = Inr (n, d')"
    and s: "s = \<lparr>st_WorkerID = worker_id env hostname uuid, st_Options = NewService c, st_Loops = n, st_Db = d'\<rparr>"
    using assms by (auto simp: worker_main_def Let_def split: if_splits option.splits sum.splits)
  note p = options_positive [OF c(1)]
  have "run_allowed c" "n = nat (Concurrency c)" using c(2) p(2) by (auto simp: service_run_def split: if_splits sum.splits)
  then show ?thesis using p c(1) heartbeat_fits [OF p(1)] by (auto simp: s positive_options_def)
qed

definition demo_environment :: environment where
  "demo_environment name = (case map_of [(''DATABASE_URL'', ''postgres://db''), (''WORKER_LEASE_DURATION'', ''1m''),
     (''WORKER_HEARTBEAT_INTERVAL'', ''20s''), (''WORKER_CONCURRENCY'', ''4'')] name of None \<Rightarrow> [] | Some v \<Rightarrow> v)"

definition exact_frac :: float_frac where
  "exact_frac f n scale = f * n div scale"

lemmas duration_eval = ParseDuration_def Let_def duration_parts.simps duration_part_def number_char_def is_digit_def fraction_part_def unit_of_def
  digit_nat_def digit_val_def less_eq_char_def

lemma demo_durations:
  "ParseDuration exact_frac ''1m'' = Some 60000000000" "ParseDuration exact_frac ''20s'' = Some 20000000000"
  "ParseDuration exact_frac ''1281024h'' = Some 4611686400000000000" "ParseDuration exact_frac ''1.5h'' = Some 5400000000000"
  by (simp_all add: duration_eval exact_frac_def)

theorem worker_starts_sound_witness:
  "\<exists>s. worker_main exact_frac demo_environment ''host'' ''0123456789'' None (\<lambda>i d. Inr (d @ [i])) [] = Inr s
     \<and> st_Db s = [''host-01234567''] \<and> st_Loops s = 4 \<and> 2 * HeartbeatEvery (st_Options s) < LeaseDuration (st_Options s)"
proof -
  let ?c = "\<lparr>Concurrency = 4, PollInterval = 250000000, LeaseDuration = 60000000000, HeartbeatEvery = 20000000000,
    RecoveryInterval = 5000000000, ShutdownTimeout = 25000000000\<rparr>"
  let ?s = "\<lparr>st_WorkerID = ''host-01234567'', st_Options = ?c, st_Loops = 4, st_Db = [''host-01234567'']\<rparr>"
  have "Atoi ''4'' = (4, True)" by (simp add: Atoi_def is_digit_def digits_val_def digit_val_def max_int64_def min_int64_def less_eq_char_def)
  then have "worker_options exact_frac demo_environment = Inr ?c"
    by (simp add: worker_options_def durationEnv_def demo_environment_def demo_durations worker_concurrency_def second_def millisecond_def)
  then have m: "worker_main exact_frac demo_environment ''host'' ''0123456789'' None (\<lambda>i d. Inr (d @ [i])) [] = Inr ?s"
    by (simp add: worker_main_def demo_environment_def NewService_def or_default_def worker_id_def service_run_def run_allowed_def wrap64_def Let_def eval_nat_numeral)
  then show ?thesis using worker_starts_sound [OF m] by (intro exI [of _ ?s]) simp
qed

text \<open>
  The exception is real: with a heartbeat every 1281024 hours the double overflows to a
  negative number, the worker starts, and no lease is ever renewed.
\<close>

lemma overlong_heartbeat_starts:
  "\<exists>c. worker_options exact_frac (\<lambda>n. if n = ''WORKER_HEARTBEAT_INTERVAL'' then ''1281024h'' else []) = Inr c
     \<and> run_allowed c \<and> LeaseDuration c < HeartbeatEvery c"
  by (simp add: worker_options_def durationEnv_def demo_durations worker_concurrency_def second_def millisecond_def run_allowed_def wrap64_def)

end
