(* ===== verification/Http_Metrics.thy ===== *)
theory Http_Metrics
  imports Http_Api Auditor_Graph Registry
begin

text \<open>
  The page of metrics that \<^verbatim>\<open>internal/httpapi/jobs.go\<close> writes, line by line. The format
  \<^verbatim>\<open>%g\<close> of an average and the order in which the map of attempts is iterated are
  arguments.
\<close>

definition metric :: "string \<Rightarrow> string \<Rightarrow> string" where
  "metric name value = ''job_queue_'' @ name @ '' '' @ value @ nl"

definition count_text :: "nat \<Rightarrow> string" where
  "count_text n = Itoa (int n)"

definition status_metric :: "metrics \<Rightarrow> status \<Rightarrow> string" where
  "status_metric m s = metric (''jobs{status='' @ quoted (status_text s) @ ''}'') (count_text (case mt_Counts m s of None \<Rightarrow> 0 | Some n \<Rightarrow> n))"

definition attempt_metric :: "metrics \<Rightarrow> string \<times> string \<Rightarrow> string" where
  "attempt_metric m k = metric (''attempts_total{type='' @ quoted (fst k) @ '',outcome='' @ quoted (snd k) @ ''}'')
     (count_text (case mt_Attempts m k of None \<Rightarrow> 0 | Some n \<Rightarrow> n))"

definition metrics_text :: "(rat \<Rightarrow> string) \<Rightarrow> (string \<times> string) list \<Rightarrow> metrics \<Rightarrow> string" where
  "metrics_text g keys m =
     concat (map (status_metric m) [StatusPending, StatusRunning, StatusWaiting, StatusRetryScheduled, StatusCompleted, StatusFailed,
       StatusDeadLettered, StatusCancelled])
     @ metric ''submissions_total'' (count_text (mt_Submissions m))
     @ concat (map (attempt_metric m) keys)
     @ metric ''wait_seconds_avg'' (g (mt_AverageQueueWaitSeconds m))
     @ metric ''handler_seconds_avg'' (g (mt_AverageHandlerSeconds m))
     @ metric ''retries_total'' (count_text (mt_Retries m))
     @ metric ''lease_expirations_total'' (count_text (mt_LeaseExpirations m))
     @ metric ''dlq_entries_total'' (count_text (mt_DLQEntries m))
     @ metric ''dlq_replays_total'' (count_text (mt_DLQReplays m))
     @ metric ''workers_fresh'' (count_text (mt_WorkersFresh m))"

end
