(* ===== verification/Auditor_Markdown.thy ===== *)
theory Auditor_Markdown
  imports Service_Handlers
begin

text \<open>
  The Markdown report of \<^verbatim>\<open>auditor/markdown.go\<close>: summary, Mermaid graphs, package
  table and violations. The builder writes in order, so the report is the concatenation of
  its parts. The packages of a store and the violations of a report have distinct sort
  keys; only then does the result of the unstable \<^verbatim>\<open>sort.Slice\<close> not depend on the
  algorithm.
\<close>

record markdown_report_input =
  mi_Root :: string
  mi_Packages :: "package list"
  mi_Edges :: "dependency_edge list"
  mi_Report :: "report option"
  mi_Metadata :: "(string \<times> string) list"

record markdown_graph_node =
  gn_name :: string
  gn_version :: string

section \<open>Texts\<close>

text \<open>
  \<^verbatim>\<open>strings.NewReplacer\<close>: both replacers turn a line break into a space, and rewrite some
  single bytes.
\<close>

fun replace_bytes :: "(char \<Rightarrow> string) \<Rightarrow> string \<Rightarrow> string" where
  "replace_bytes f [] = []"
| "replace_bytes f (c # s) =
     (if c = CHR 0x0D then CHR '' '' # (case s of [] \<Rightarrow> [] | d # r \<Rightarrow> if d = CHR 0x0A then replace_bytes f r else replace_bytes f s)
      else if c = CHR 0x0A then CHR '' '' # replace_bytes f s
      else f c @ replace_bytes f s)"

definition escapeMermaidLabel :: "string \<Rightarrow> string" where
  "escapeMermaidLabel = replace_bytes (\<lambda>c. if c \<in> {CHR 0x5C, CHR 0x22} then [CHR 0x5C, c] else [c])"

definition backtick :: char where "backtick = CHR 0x60"

definition markdownInlineCode :: "string \<Rightarrow> string" where
  "markdownInlineCode value =
     [backtick] @ replace_bytes (\<lambda>c. if c = CHR 0x7C then [CHR 0x5C, c] else if c = backtick then ''&#96;'' else [c]) value @ [backtick]"

definition packageCoordinate :: "string \<Rightarrow> string \<Rightarrow> string" where
  "packageCoordinate name version = (if version = [] then name else name @ ''@'' @ version)"

section \<open>Edges and nodes\<close>

definition edge_key :: "dependency_edge \<Rightarrow> string \<times> string \<times> string \<times> string" where
  "edge_key e = (de_FromName e, de_FromVersion e, de_ToName e, de_ToVersion e)"

definition dependencyEdgeLess :: "dependency_edge \<Rightarrow> dependency_edge \<Rightarrow> bool" where
  "dependencyEdgeLess a b =
     (if de_FromName a \<noteq> de_FromName b then de_FromName a < de_FromName b
      else if de_FromVersion a \<noteq> de_FromVersion b then de_FromVersion a < de_FromVersion b
      else if de_ToName a \<noteq> de_ToName b then de_ToName a < de_ToName b
      else de_ToVersion a < de_ToVersion b)"

lemma dependencyEdgeLess_key: "dependencyEdgeLess a b \<longleftrightarrow> edge_key a < edge_key b"
  by (auto simp: dependencyEdgeLess_def edge_key_def)

text \<open>Edges that compare equal are equal, so sorting by the key is the sort of the source.\<close>

definition sort_edges :: "dependency_edge list \<Rightarrow> dependency_edge list" where
  "sort_edges = sort_key edge_key"

definition deduplicateDependencyEdges :: "dependency_edge list \<Rightarrow> dependency_edge list" where
  "deduplicateDependencyEdges = remdups_adj"

definition directDependencyEdges :: "string \<Rightarrow> dependency_edge list \<Rightarrow> dependency_edge list" where
  "directDependencyEdges root es = filter (\<lambda>e. de_FromName e = root \<and> de_FromVersion e = []) es"

definition markdownGraphNodeKey :: "string \<Rightarrow> string \<Rightarrow> string" where
  "markdownGraphNodeKey name version = name @ NUL @ version"

definition add_node :: "string \<times> string \<Rightarrow> (string \<times> markdown_graph_node) list \<Rightarrow> (string \<times> markdown_graph_node) list" where
  "add_node nv = AList.update (markdownGraphNodeKey (fst nv) (snd nv)) \<lparr>gn_name = fst nv, gn_version = snd nv\<rparr>"

definition node_names :: "package list \<Rightarrow> dependency_edge list \<Rightarrow> (string \<times> string) list" where
  "node_names packages es = map (\<lambda>p. (pk_Name p, pk_Version p)) packages
     @ concat (map (\<lambda>e. [(de_FromName e, de_FromVersion e), (de_ToName e, de_ToVersion e)]) es)"

definition graph_nodes :: "package list \<Rightarrow> dependency_edge list \<Rightarrow> markdown_graph_node list" where
  "graph_nodes packages es = sort_key (\<lambda>n. (gn_name n, gn_version n)) (map snd (fold add_node (node_names packages es) []))"

definition node_ids :: "markdown_graph_node list \<Rightarrow> string \<Rightarrow> string" where
  "node_ids nodes k =
     (case map_of (rev (map (\<lambda>(i, n). (markdownGraphNodeKey (gn_name n) (gn_version n), ''n'' @ Itoa (int i))) (enumerate 0 nodes))) k of
        None \<Rightarrow> [] | Some i \<Rightarrow> i)"

definition markdownGraphNodes :: "package list \<Rightarrow> dependency_edge list \<Rightarrow> markdown_graph_node list \<times> (string \<Rightarrow> string)" where
  "markdownGraphNodes packages es = (let nodes = graph_nodes packages es in (nodes, node_ids nodes))"

section \<open>Graphs\<close>

definition fence :: string where "fence = replicate 3 backtick"

definition elk_config :: string where
  "elk_config = ''---'' @ nl @ ''config:'' @ nl @ ''  layout: elk'' @ nl @ ''  flowchart:'' @ nl @ ''    useMaxWidth: false'' @ nl
     @ ''    nodeSpacing: 35'' @ nl @ ''    rankSpacing: 60'' @ nl @ ''---'' @ nl"

definition writeMermaidGraph :: "package list \<Rightarrow> dependency_edge list \<Rightarrow> bool \<Rightarrow> string" where
  "writeMermaidGraph packages es useELK =
     (let (nodes, ids) = markdownGraphNodes packages es
      in fence @ ''mermaid'' @ nl @ (if useELK then elk_config else []) @ ''flowchart TB'' @ nl
         @ concat (map (\<lambda>n. ''    '' @ ids (markdownGraphNodeKey (gn_name n) (gn_version n)) @ ''[''
             @ quoted (escapeMermaidLabel (packageCoordinate (gn_name n) (gn_version n))) @ '']'' @ nl) nodes)
         @ concat (map (\<lambda>e. ''    '' @ ids (markdownGraphNodeKey (de_FromName e) (de_FromVersion e)) @ '' --> ''
             @ ids (markdownGraphNodeKey (de_ToName e) (de_ToVersion e)) @ nl) es)
         @ fence @ nl @ nl)"

definition writeMermaidPath :: "string list \<Rightarrow> string" where
  "writeMermaidPath path =
     fence @ ''mermaid'' @ nl @ ''flowchart LR'' @ nl
     @ concat (map (\<lambda>(i, c). ''    p'' @ Itoa (int i) @ ''['' @ quoted (escapeMermaidLabel c) @ '']'' @ nl) (enumerate 0 path))
     @ concat (map (\<lambda>i. ''    p'' @ Itoa (int i - 1) @ '' --> p'' @ Itoa (int i) @ nl) [1..<length path])
     @ fence @ nl @ nl"

section \<open>The report\<close>

definition sort_packages :: "package list \<Rightarrow> package list" where
  "sort_packages = sort_key (\<lambda>p. (pk_Name p, pk_Version p))"

definition violation_key :: "package_violation \<Rightarrow> string \<times> string \<times> string" where
  "violation_key v = (pk_Name (pv_Package v), pk_Version (pv_Package v), Join (pv_Path v) NUL)"

definition sort_violations :: "package_violation list \<Rightarrow> package_violation list" where
  "sort_violations = sort_key violation_key"

definition metadata_lines :: "(string \<times> string) list \<Rightarrow> string" where
  "metadata_lines md = concat (map (\<lambda>(k, v). ''- '' @ k @ '': '' @ markdownInlineCode v @ nl) (sort_key fst md))"

definition license_cell :: "string \<Rightarrow> string" where
  "license_cell license = (if license \<noteq> [] then markdownInlineCode license else ''Not declared'')"

definition violation_section :: "package_violation \<Rightarrow> string" where
  "violation_section v =
     (let c = packageCoordinate (pk_Name (pv_Package v)) (pk_Version (pv_Package v))
      in ''### '' @ markdownInlineCode c @ nl @ nl @ writeMermaidPath (if pv_Path v = [] then [c] else pv_Path v))"

definition package_row :: "package \<Rightarrow> string" where
  "package_row p = ''| '' @ markdownInlineCode (pk_Name p) @ '' | '' @ markdownInlineCode (pk_Version p) @ '' | ''
     @ license_cell (pk_License p) @ '' | '' @ markdownInlineCode (verdict_text (pk_Verdict p)) @ '' |'' @ nl"

definition violation_row :: "package_violation \<Rightarrow> string" where
  "violation_row v =
     (let p = pv_Package v
      in ''| '' @ markdownInlineCode (packageCoordinate (pk_Name p) (pk_Version p)) @ '' | '' @ license_cell (pk_License p) @ '' | ''
         @ (if pv_Path v \<noteq> [] then markdownInlineCode (Join (pv_Path v) ('' '' @ arrow @ '' '')) else ''Not available'') @ '' |'' @ nl)"

text \<open>The package that stands for the root in the overview.\<close>

definition root_package :: "string \<Rightarrow> package list" where
  "root_package root = (if root = [] then [] else [\<lparr>pk_Name = root, pk_Version = [], pk_License = [], pk_Verdict = VerdictPass\<rparr>])"

definition render_report :: "string \<Rightarrow> (string \<times> string) list \<Rightarrow> nat \<Rightarrow> package list \<Rightarrow> dependency_edge list \<Rightarrow> package_violation list \<Rightarrow> string" where
  "render_report root md scanned packages es violations =
     ''# Dependency Audit Report'' @ nl @ nl @ ''## Summary'' @ nl @ nl
     @ ''- Root: '' @ markdownInlineCode root @ nl
     @ metadata_lines md
     @ ''- Packages scanned: '' @ Itoa (int scanned) @ nl
     @ ''- Policy violations: '' @ Itoa (int (length violations)) @ nl @ nl
     @ ''## Dependency Overview'' @ nl @ nl
     @ writeMermaidGraph (root_package root) (directDependencyEdges root es) False
     @ ''## Violation Paths'' @ nl @ nl
     @ (if violations = [] then ''No policy violation paths.'' @ nl @ nl else [])
     @ concat (map violation_section violations)
     @ ''## Complete Dependency Graph'' @ nl @ nl
     @ ''<details>'' @ nl @ ''<summary>Show all '' @ Itoa (int (length packages)) @ '' packages and '' @ Itoa (int (length es)) @ '' edges</summary>'' @ nl @ nl
     @ writeMermaidGraph packages es True
     @ ''</details>'' @ nl @ nl
     @ ''## Packages'' @ nl @ nl
     @ ''| Package | Version | License | Verdict |'' @ nl @ ''|---|---|---|---|'' @ nl
     @ concat (map package_row packages) @ nl
     @ ''## Policy Violations'' @ nl @ nl
     @ ''| Package | License | Dependency path |'' @ nl @ ''|---|---|---|'' @ nl
     @ concat (map violation_row violations)"

definition GenerateMarkdownReport :: "markdown_report_input \<Rightarrow> string + string" where
  "GenerateMarkdownReport input =
     (case mi_Report input of
        None \<Rightarrow> Inl ''markdown report: report is required''
      | Some r \<Rightarrow> Inr (render_report (mi_Root input) (mi_Metadata input) (rp_TotalPackages r) (sort_packages (mi_Packages input))
          (deduplicateDependencyEdges (sort_edges (mi_Edges input))) (sort_violations (rp_PolicyViolations r))))"

section \<open>The report is deterministic\<close>

lemma sort_key_unique:
  assumes "distinct (map k xs)" "distinct (map k ys)" "set xs = set ys"
  shows "sort_key k xs = sort_key k ys"
proof (rule map_sorted_distinct_set_unique)
  show "inj_on k (set (sort_key k xs) \<union> set (sort_key k ys))" using assms by (simp add: distinct_map)
  show "distinct (map k (sort_key k xs))" "distinct (map k (sort_key k ys))"
    using assms(1,2) by (simp_all add: distinct_map)
qed (simp_all add: assms(3))

lemma edge_key_inj: "edge_key a = edge_key b \<Longrightarrow> a = b"
  by (simp add: edge_key_def)

lemma sorted_dedup: "sorted (map edge_key es) \<Longrightarrow> distinct (remdups_adj es)"
proof (induction es rule: remdups_adj.induct)
  case (3 x y es)
  show ?case
  proof (cases "x = y")
    case False
    have "x \<notin> set (y # es)"
    proof
      assume "x \<in> set (y # es)"
      then have "edge_key y \<le> edge_key x" using 3(3) by auto
      moreover have "edge_key x \<le> edge_key y" using 3(3) by simp
      ultimately have "edge_key x = edge_key y" by (rule antisym [rotated])
      then show False using edge_key_inj False by blast
    qed
    then show ?thesis using 3 False by simp
  qed (use 3 in simp)
qed simp_all

lemma dedup_unique:
  assumes "set xs = set ys"
  shows "remdups_adj (sort_key edge_key xs) = remdups_adj (sort_key edge_key ys)"
proof (rule map_sorted_distinct_set_unique)
  have inj: "inj_on edge_key A" for A by (meson edge_key_inj inj_onI)
  then show "inj_on edge_key (set (remdups_adj (sort_key edge_key xs)) \<union> set (remdups_adj (sort_key edge_key ys)))" .
  have s: "sorted (map edge_key (remdups_adj (sort_key edge_key zs)))" for zs
    using sorted_remdups_adj [of "map edge_key (sort_key edge_key zs)"] remdups_adj_map_injective [of edge_key "sort_key edge_key zs"] inj
    by simp
  have d: "distinct (map edge_key (remdups_adj (sort_key edge_key zs)))" for zs
    using sorted_dedup [of "sort_key edge_key zs"] inj by (simp add: distinct_map)
  show "sorted (map edge_key (remdups_adj (sort_key edge_key xs)))" "sorted (map edge_key (remdups_adj (sort_key edge_key ys)))"
    "distinct (map edge_key (remdups_adj (sort_key edge_key xs)))" "distinct (map edge_key (remdups_adj (sort_key edge_key ys)))"
    by (rule s s d d)+
qed (simp add: assms)

text \<open>
  C38: the Markdown report is deterministic, as its comment promises: it depends on which packages,
  edges, violations and metadata the audit found, not on the order in which concurrent
  workers recorded them, and an edge recorded twice appears once. Packages, violations and
  metadata have distinct keys, as the stores guarantee.\<close>

theorem markdown_deterministic:
  assumes "set (mi_Packages a) = set (mi_Packages b)"
    "distinct (map (\<lambda>p. (pk_Name p, pk_Version p)) (mi_Packages a))" "distinct (map (\<lambda>p. (pk_Name p, pk_Version p)) (mi_Packages b))"
    "set (mi_Edges a) = set (mi_Edges b)"
    "mi_Report a = Some ra" "mi_Report b = Some rb" "rp_TotalPackages ra = rp_TotalPackages rb"
    "set (rp_PolicyViolations ra) = set (rp_PolicyViolations rb)"
    "distinct (map violation_key (rp_PolicyViolations ra))" "distinct (map violation_key (rp_PolicyViolations rb))"
    "set (mi_Metadata a) = set (mi_Metadata b)" "distinct (map fst (mi_Metadata a))" "distinct (map fst (mi_Metadata b))"
    "mi_Root a = mi_Root b"
  shows "GenerateMarkdownReport a = GenerateMarkdownReport b"
proof -
  have "sort_packages (mi_Packages a) = sort_packages (mi_Packages b)"
    unfolding sort_packages_def by (rule sort_key_unique [OF assms(2,3,1)])
  moreover have "sort_violations (rp_PolicyViolations ra) = sort_violations (rp_PolicyViolations rb)"
    unfolding sort_violations_def by (rule sort_key_unique [OF assms(9,10,8)])
  moreover have "metadata_lines (mi_Metadata a) = metadata_lines (mi_Metadata b)"
    unfolding metadata_lines_def by (subst sort_key_unique [OF assms(12,13,11)]) (rule refl)
  moreover have "deduplicateDependencyEdges (sort_edges (mi_Edges a)) = deduplicateDependencyEdges (sort_edges (mi_Edges b))"
    unfolding deduplicateDependencyEdges_def sort_edges_def by (rule dedup_unique [OF assms(4)])
  ultimately show ?thesis by (simp add: GenerateMarkdownReport_def assms(5,6,7,14) render_report_def)
qed

definition markdown_demo :: "package list \<Rightarrow> dependency_edge list \<Rightarrow> markdown_report_input" where
  "markdown_demo ps es = \<lparr>mi_Root = ''app'', mi_Packages = ps, mi_Edges = es,
     mi_Report = Some \<lparr>rp_TotalPackages = 2, rp_PolicyViolations = [], rp_DependencyPaths = (\<lambda>_. None), rp_Summary = []\<rparr>, mi_Metadata = []\<rparr>"

definition demo_pkg :: "string \<Rightarrow> package" where
  "demo_pkg n = \<lparr>pk_Name = n, pk_Version = ''1'', pk_License = ''MIT'', pk_Verdict = VerdictPass\<rparr>"

definition md_edge :: "string \<Rightarrow> dependency_edge" where
  "md_edge n = \<lparr>de_FromName = ''app'', de_FromVersion = [], de_ToName = n, de_ToVersion = ''1''\<rparr>"

theorem markdown_deterministic_witness:
  "GenerateMarkdownReport (markdown_demo [demo_pkg ''a'', demo_pkg ''b''] [md_edge ''a'', md_edge ''b'', md_edge ''a''])
    = GenerateMarkdownReport (markdown_demo [demo_pkg ''b'', demo_pkg ''a''] [md_edge ''b'', md_edge ''a''])"
  by (rule markdown_deterministic) (auto simp: markdown_demo_def demo_pkg_def)

end
