(* ===== verification/Gomod_Queue.thy ===== *)
theory Gomod_Queue
  imports Gomod_Client Pool_Theorems Gomod_Theorems
begin

text \<open>
  The rounds of module metadata that \<^verbatim>\<open>internal/gomod/queue.go\<close> runs through a worker
  pool: payloads, the collector, the handler of a metadata job, one chunk and one round.
  A chunk is a run of the pool of \<^verbatim>\<open>Worker_Pool\<close> in which every call of the
  handler also acts on the collector. The handler is one step: two handlers that run at the
  same time work on different coordinates, hence on different entries of the collector.
\<close>

section \<open>Payloads and jobs\<close>

definition goMetadataJobType :: string where "goMetadataJobType = ''go_module_metadata''"
definition goQueueBufferSize :: nat where "goQueueBufferSize = 100"
definition goWorkerPoolSize :: nat where "goWorkerPoolSize = 10"

record metadata_payload =
  mp_ModulePath :: string
  mp_Version :: string
  mp_Round :: int

definition metadata_payload_json :: "metadata_payload \<Rightarrow> json" where
  "metadata_payload_json p = JObj [(''module_path'', JStr (mp_ModulePath p)), (''version'', JStr (mp_Version p)), (''round'', json_int (mp_Round p))]"

definition metadata_member :: "string \<Rightarrow> json \<Rightarrow> metadata_payload \<Rightarrow> metadata_payload option" where
  "metadata_member k v p =
     (case field_for [''module_path'', ''version'', ''round''] k of
        None \<Rightarrow> Some p
      | Some f \<Rightarrow>
          if v = JNull then Some p
          else if f = ''round'' then map_option (\<lambda>n. p\<lparr>mp_Round := n\<rparr>) (unmarshal_int v)
          else (case v of
                  JStr s \<Rightarrow> Some (if f = ''module_path'' then p\<lparr>mp_ModulePath := s\<rparr> else p\<lparr>mp_Version := s\<rparr>)
                | _ \<Rightarrow> None))"

fun metadata_members :: "(string \<times> json) list \<Rightarrow> metadata_payload \<Rightarrow> metadata_payload option" where
  "metadata_members [] p = Some p"
| "metadata_members ((k, v) # ms) p = (case metadata_member k v p of None \<Rightarrow> None | Some q \<Rightarrow> metadata_members ms q)"

definition metadata_payload_of :: "raw_message \<Rightarrow> metadata_payload option" where
  "metadata_payload_of raw =
     (let zero = \<lparr>mp_ModulePath = [], mp_Version = [], mp_Round = 0\<rparr>
      in case raw of Some JNull \<Rightarrow> Some zero | Some (JObj ms) \<Rightarrow> metadata_members ms zero | _ \<Rightarrow> None)"

definition NewJob :: "id \<Rightarrow> string \<Rightarrow> raw_message \<Rightarrow> job" where
  "NewJob i t p = zero_job\<lparr>ID := i, Type := t, Payload := p, Status := StatusPending, MaxAttempts := DefaultMaxAttempts\<rparr>"

definition metadata_job :: "int \<Rightarrow> id \<times> coordinate \<Rightarrow> job" where
  "metadata_job round ic = NewJob (fst ic) goMetadataJobType
     (Some (metadata_payload_json \<lparr>mp_ModulePath = co_path (snd ic), mp_Version = co_version (snd ic), mp_Round = round\<rparr>))"

section \<open>The collector\<close>

text \<open>Results and failures by coordinate; every method holds the mutex, so it is one step.\<close>

record collector =
  cl_results :: cache
  cl_failures :: "(coordinate \<times> go_error) list"

definition collector_put :: "coordinate \<Rightarrow> metadata \<Rightarrow> collector \<Rightarrow> collector" where
  "collector_put c m col = col\<lparr>cl_results := put c m (cl_results col)\<rparr>"

definition collector_fail :: "coordinate \<Rightarrow> go_error \<Rightarrow> collector \<Rightarrow> collector" where
  "collector_fail c e col = col\<lparr>cl_failures := put c e (cl_failures col)\<rparr>"

definition failure_of :: "coordinate \<Rightarrow> collector \<Rightarrow> go_error option" where
  "failure_of c col = map_of (cl_failures col) c"

definition snapshot :: "collector \<Rightarrow> cache" where
  "snapshot col = cl_results col"

definition firstFailure :: "modlib \<Rightarrow> coordinate list \<Rightarrow> collector \<Rightarrow> (coordinate \<times> go_error) option" where
  "firstFailure L cs col =
     (case find (\<lambda>c. failure_of c col \<noteq> None) (sortCoordinates L cs) of
        None \<Rightarrow> None
      | Some c \<Rightarrow> Some (c, the (failure_of c col)))"

text \<open>\<^verbatim>\<open>errors.As\<close> for an error that classifies itself; every error of the client does or is plain.\<close>

fun self_classified :: "go_error \<Rightarrow> bool option" where
  "self_classified (RetryableError r m) = Some r"
| "self_classified (WrapError m e) = self_classified e"
| "self_classified (ClassifiedError k e) = self_classified e"
| "self_classified _ = None"

type_synonym metadata_client = "string \<Rightarrow> string \<Rightarrow> go_error + metadata"

definition metadata_fetch :: "metadata_client \<Rightarrow> coordinate \<Rightarrow> collector \<Rightarrow> (go_error + job list) \<times> collector" where
  "metadata_fetch fetch c col =
     (case failure_of c col of
        Some e \<Rightarrow> (Inl e, col)
      | None \<Rightarrow>
          (case fetch (co_path c) (co_version c) of
             Inl e \<Rightarrow> (Inl e, if self_classified e = Some False then collector_fail c e col else col)
           | Inr m \<Rightarrow> (Inr [], collector_put c m col)))"

definition metadata_Handle :: "modlib \<Rightarrow> metadata_client \<Rightarrow> int \<Rightarrow> job \<Rightarrow> collector \<Rightarrow> (go_error + job list) \<times> collector" where
  "metadata_Handle L fetch round j col =
     (let what = ''Go metadata handler: ''
      in if Type j \<noteq> goMetadataJobType then (Inl (PlainError (what @ ''unsupported job type '' @ quoted (Type j))), col)
         else case metadata_payload_of (Payload j) of
                None \<Rightarrow> (Inl (WrapError (what @ ''decode payload'') (PlainError ''json'')), col)
              | Some p \<Rightarrow>
                  if mp_Round p \<noteq> round
                  then (Inl (PlainError (what @ ''job round '' @ Itoa (mp_Round p) @ '' does not match active round '' @ Itoa round)), col)
                  else if \<not> ValidateCoordinate L (mp_ModulePath p) (mp_Version p)
                  then (Inl (WrapError (what @ ''invalid coordinate'') (PlainError ''coordinate'')), col)
                  else metadata_fetch fetch \<lparr>co_path = mp_ModulePath p, co_version = mp_Version p\<rparr> col)"

section \<open>One chunk\<close>

text \<open>The pool of a chunk: ten workers over a queue of one hundred, with an optional store.\<close>

definition chunk_config :: "'d job_store option \<Rightarrow> 'd job_store option \<Rightarrow> (int \<Rightarrow> int) \<Rightarrow> 'd pool_config" where
  "chunk_config store letters backoff =
     \<lparr>cf_size = goWorkerPoolSize, cf_store = store, cf_queue_store = store, cf_dlq = Some letters, cf_backoff = backoff\<rparr>"

text \<open>The goroutine of \<^verbatim>\<open>runChunk\<close> submits the jobs and only then starts the workers.\<close>

definition chunk_caller :: "job list \<Rightarrow> statement list" where
  "chunk_caller js = map (\<lambda>j. PoolSubmit j []) js @ [Start]"

definition chunk_pool :: "job list \<Rightarrow> nat \<Rightarrow> 'd \<Rightarrow> job list \<Rightarrow> 'd pool" where
  "chunk_pool ch cap d js = (NewWithOptions ch cap d)\<lparr>p_threads := [(Caller, chunk_caller js)]\<rparr>"

definition next_statement :: "nat \<Rightarrow> 'd pool \<Rightarrow> statement option" where
  "next_statement k p = (if k < length (p_threads p) then (case snd (p_threads p ! k) of [] \<Rightarrow> None | i # _ \<Rightarrow> Some i) else None)"

text \<open>A step of the pool; a handler call answers as the client does at that moment and acts on the collector.\<close>

inductive chunk_step ::
  "'d pool_config \<Rightarrow> modlib \<Rightarrow> metadata_client set \<Rightarrow> int \<Rightarrow> 'd pool \<times> collector \<Rightarrow> 'd pool \<times> collector \<Rightarrow> bool"
  for c L F round
where
  chunk_handle: "next_statement k p = Some (Handle j) \<Longrightarrow> fetch \<in> F \<Longrightarrow> metadata_Handle L fetch round j col = (out, col') \<Longrightarrow>
     run c now (Handled out) k p = Some p' \<Longrightarrow> chunk_step c L F round (p, col) (p', col')"
| chunk_other: "\<forall>j. next_statement k p \<noteq> Some (Handle j) \<Longrightarrow> \<forall>out. e \<noteq> Handled out \<Longrightarrow> run c now e k p = Some p' \<Longrightarrow> chunk_step c L F round (p, col) (p', col)"

text \<open>
  How \<^verbatim>\<open>runChunk\<close> ends: a job could not be stored; the pool was done and shut down in
  time; or the context or the timeout of the shutdown ended first, in any state of the pool.
\<close>

inductive runChunk ::
  "'d pool_config \<Rightarrow> modlib \<Rightarrow> metadata_client set \<Rightarrow> int \<Rightarrow> job list \<times> nat \<times> 'd \<Rightarrow> job list \<Rightarrow> collector \<Rightarrow> go_error option \<Rightarrow> collector \<Rightarrow> bool"
  for c L F round q js col
where
  chunk_submit_failed: "cf_queue_store c = Some S \<Longrightarrow> j \<in> set js \<Longrightarrow> js_create S now j d = Inl e \<Longrightarrow>
     runChunk c L F round q js col (Some (WrapError ''submit job'' (PlainError ''create''))) col"
| chunk_drained: "q = (ch, cap, d) \<Longrightarrow> (chunk_step c L F round)\<^sup>*\<^sup>* (chunk_pool ch cap d js, col) (p1, col1) \<Longrightarrow>
     p_threads p1 ! 0 = (Caller, []) \<Longrightarrow> p_done p1 \<Longrightarrow>
     (chunk_step c L F round)\<^sup>*\<^sup>* (spawn [(Caller, [Shutdown])] p1, col1) (p2, col2) \<Longrightarrow> p_shutdownDone p2 \<Longrightarrow>
     runChunk c L F round q js col None col2"
| chunk_interrupted: "q = (ch, cap, d) \<Longrightarrow> (chunk_step c L F round)\<^sup>*\<^sup>* (chunk_pool ch cap d js, col) (p1, col1) \<Longrightarrow>
     p_threads p1 ! 0 = (Caller, []) \<Longrightarrow>
     (chunk_step c L F round)\<^sup>*\<^sup>* (spawn [(Caller, [Shutdown])] p1, col1) (p2, col2) \<Longrightarrow>
     runChunk c L F round q js col (Some e) col2"

section \<open>One round\<close>

text \<open>\<open>run\<close> is what \<^verbatim>\<open>runChunk\<close> made of a chunk: its error and the collector.\<close>

type_synonym chunk_runner = "int \<Rightarrow> coordinate list \<Rightarrow> collector \<Rightarrow> go_error option \<times> collector"

definition round_text :: "int \<Rightarrow> string" where
  "round_text round = ''Go metadata round '' @ Itoa round"

function fetch_chunks :: "modlib \<Rightarrow> chunk_runner \<Rightarrow> int \<Rightarrow> coordinate list \<Rightarrow> collector \<Rightarrow> go_error + collector" where
  "fetch_chunks L runner round cs col =
     (if cs = [] then Inr col
      else let chunk = take goQueueBufferSize cs
           in case runner round chunk col of
                (Some e, _) \<Rightarrow> Inl (WrapError (round_text round) e)
              | (None, col1) \<Rightarrow>
                  (case firstFailure L chunk col1 of
                     Some (c, e) \<Rightarrow> Inl (WrapError (round_text round @ '' failed for '' @ co_path c @ ''@'' @ co_version c) e)
                   | None \<Rightarrow> fetch_chunks L runner round (drop goQueueBufferSize cs) col1))"
  by pat_completeness auto
termination
  by (relation "measure (\<lambda>(L, runner, round, cs, col). length cs)") (simp_all add: goQueueBufferSize_def)

declare fetch_chunks.simps [simp del]

text \<open>The result and the round counter of the fetcher.\<close>

definition FetchRound :: "modlib \<Rightarrow> chunk_runner option \<Rightarrow> coordinate list \<Rightarrow> int \<Rightarrow> (go_error + cache) \<times> int" where
  "FetchRound L client cs counter =
     (case client of
        None \<Rightarrow> (Inl (PlainError ''Go metadata client is required''), counter)
      | Some runner \<Rightarrow>
          if cs = [] then (Inr [], counter)
          else let round = counter + 1
               in (case fetch_chunks L runner round cs \<lparr>cl_results = [], cl_failures = []\<rparr> of
                     Inl e \<Rightarrow> Inl e
                   | Inr col \<Rightarrow>
                       (case find (\<lambda>c. map_of (snapshot col) c = None) cs of
                          Some c \<Rightarrow> Inl (PlainError (round_text round @ '' incomplete: no metadata for '' @ co_path c @ ''@'' @ co_version c))
                        | None \<Rightarrow> Inr (snapshot col)), round))"

end
