(* ===== verification/Gomod_Queue_Theorems.thy ===== *)
theory Gomod_Queue_Theorems
  imports Gomod_Queue Pool_Restart
begin

text \<open>
  What a round of metadata guarantees to the version selection, and when a chunk can start
  at all: the jobs of a chunk are submitted before the workers run, so they have to fit into
  the channel beside what the queue reloaded from its store.
\<close>

section \<open>Submitting a chunk\<close>

text \<open>A pool whose only goroutine is the caller, with nothing closed or started.\<close>

definition filling :: "'d pool \<Rightarrow> statement list \<Rightarrow> nat \<Rightarrow> nat \<Rightarrow> 'd \<Rightarrow> bool" where
  "filling p rest n cap d \<longleftrightarrow> p_threads p = [(Caller, rest)] \<and> length (q_ch p) = n \<and> q_cap p = cap \<and> \<not> p_stopping p
     \<and> \<not> q_closed p \<and> \<not> q_closing p \<and> \<not> p_started p \<and> p_db p = d"

text \<open>The store, if there is one, accepts the jobs one after the other.\<close>

fun accepts :: "'d job_store option \<Rightarrow> job list \<Rightarrow> 'd \<Rightarrow> bool" where
  "accepts None js d = True"
| "accepts (Some S) [] d = True"
| "accepts (Some S) (j # js) d = (case js_create S 0 j d of Inl _ \<Rightarrow> False | Inr d' \<Rightarrow> accepts (Some S) js d')"

definition created :: "'d job_store option \<Rightarrow> job \<Rightarrow> 'd \<Rightarrow> 'd" where
  "created store j d = (case store of None \<Rightarrow> d | Some S \<Rightarrow> (case js_create S 0 j d of Inl _ \<Rightarrow> d | Inr d' \<Rightarrow> d'))"

lemma accepts_Cons: "accepts store (j # js) d \<Longrightarrow> accepts store js (created store j d)"
  by (cases store) (auto simp: created_def split: sum.splits)

lemma run_all_append: "run_all c (es @ fs) p = (case run_all c es p of None \<Rightarrow> None | Some q \<Rightarrow> run_all c fs q)"
  by (induction c es p rule: run_all.induct) (auto split: option.splits)

text \<open>Four statements bring a submission to the channel.\<close>

lemma to_channel:
  assumes "accepts (cf_queue_store c) (j # js) d" "filling p (PoolSubmit j [] # rest) n cap d"
  shows "\<exists>q j' shut. run_all c (replicate 4 (0, Go)) p = Some q
    \<and> filling q (Send j' [SubmitWGDone] shut # rest) n cap (created (cf_queue_store c) j d)"
proof (cases "cf_queue_store c")
  case None
  with assms show ?thesis
    by (auto simp: filling_def eval_nat_numeral run_def exec_def pool_Submit_def queue_Submit_def created_def)
next
  case (Some S)
  then obtain d' where "js_create S 0 j d = Inr d'" using assms(1) by (auto split: sum.splits)
  with Some assms(2) show ?thesis
    by (auto simp: filling_def eval_nat_numeral run_def exec_def pool_Submit_def queue_Submit_def created_def)
qed

lemma send_room:
  assumes "filling q (Send j' [SubmitWGDone] shut # rest) n cap d" "n < cap"
  shows "\<exists>p. run_all c [(0, Go), (0, Go)] q = Some p \<and> filling p rest (Suc n) cap d"
  using assms by (auto simp: filling_def run_def exec_def queue_send_def is_room_def)

lemma send_stuck:
  assumes "filling q (Send j' ok shut # rest) n cap d" "cap \<le> n"
  shows "run c now e k q = None"
  using assms by (auto simp: filling_def run_def exec_def queue_send_def is_room_def nth_Cons')

lemma submit_fits:
  assumes "filling p (map (\<lambda>j. PoolSubmit j []) js @ rest) n cap d" "n + length js \<le> cap" "accepts (cf_queue_store c) (js @ ks) d"
  shows "\<exists>es q d'. set es \<subseteq> {(0, Go)} \<and> run_all c es p = Some q \<and> filling q rest (n + length js) cap d' \<and> accepts (cf_queue_store c) ks d'"
  using assms
proof (induction js arbitrary: p n d)
  case Nil
  then show ?case by (intro exI [of _ "[]"] exI [of _ p] exI [of _ d]) simp
next
  case (Cons j js)
  have acc: "accepts (cf_queue_store c) (j # js @ ks) d" using Cons.prems(3) by simp
  let ?d = "created (cf_queue_store c) j d"
  obtain q j' shut where q: "run_all c (replicate 4 (0, Go)) p = Some q"
    "filling q (Send j' [SubmitWGDone] shut # map (\<lambda>j. PoolSubmit j []) js @ rest) n cap ?d"
    using to_channel [OF acc] Cons.prems(1) by fastforce
  obtain p1 where p1: "run_all c [(0, Go), (0, Go)] q = Some p1" "filling p1 (map (\<lambda>j. PoolSubmit j []) js @ rest) (Suc n) cap ?d"
    using send_room [OF q(2)] Cons.prems(2) by auto
  obtain es r d' where e: "set es \<subseteq> {(0, Go)}" and r: "run_all c es p1 = Some r" "filling r rest (Suc n + length js) cap d'" "accepts (cf_queue_store c) ks d'"
    using Cons.IH [OF p1(2) _ accepts_Cons [OF acc]] Cons.prems(2) by auto
  have "run_all c (replicate 4 (0, Go) @ [(0, Go), (0, Go)] @ es) p = Some r"
    by (simp only: run_all_append q(1) p1(1) r(1) option.case)
  moreover have "set (replicate 4 (0, Go) @ [(0, Go), (0, Go)] @ es) \<subseteq> {(0, Go)}" using e by auto
  moreover have "filling r rest (n + length (j # js)) cap d'" using r(2) by simp
  ultimately show ?case using r(3) by blast
qed

lemma submit_stuck:
  assumes "filling p (map (\<lambda>j. PoolSubmit j []) js @ rest) n cap d" "cap < n + length js" "n \<le> cap" "accepts (cf_queue_store c) js d"
  shows "\<exists>es q. run_all c es p = Some q \<and> \<not> p_started q \<and> (\<forall>now e k. run c now e k q = None)"
proof -
  define m where "m = cap - n"
  have "m < length js" using assms(2,3) by (simp add: m_def)
  then have js: "js = take m js @ js ! m # drop (Suc m) js" by (rule id_take_nth_drop)
  let ?rest = "PoolSubmit (js ! m) [] # map (\<lambda>j. PoolSubmit j []) (drop (Suc m) js) @ rest"
  have "map (\<lambda>j. PoolSubmit j []) js @ rest = map (\<lambda>j. PoolSubmit j []) (take m js) @ ?rest"
    by (subst js) simp
  then have f: "filling p (map (\<lambda>j. PoolSubmit j []) (take m js) @ ?rest) n cap d" using assms(1) by simp
  have a: "accepts (cf_queue_store c) (take m js @ js ! m # drop (Suc m) js) d" using assms(4) js by simp
  have "n + length (take m js) \<le> cap" "n + length (take m js) = cap" using \<open>m < length js\<close> assms(3) by (simp_all add: m_def)
  from submit_fits [OF f this(1) a] this(2) obtain es q d' where q: "run_all c es p = Some q" "filling q ?rest cap cap d'"
    "accepts (cf_queue_store c) (js ! m # drop (Suc m) js) d'" by auto
  obtain r j' shut where r: "run_all c (replicate 4 (0, Go)) q = Some r"
    "filling r (Send j' [SubmitWGDone] shut # map (\<lambda>j. PoolSubmit j []) (drop (Suc m) js) @ rest) cap cap (created (cf_queue_store c) (js ! m) d')"
    using to_channel [OF q(3,2)] by blast
  have "run_all c (es @ replicate 4 (0, Go)) p = Some r" by (simp only: run_all_append q(1) r(1) option.case)
  moreover have "\<not> p_started r" using r(2) by (simp add: filling_def)
  ultimately show ?thesis using send_stuck [OF r(2)] by blast
qed

lemma chunk_pool_filling: "filling (chunk_pool ch cap d js) (map (\<lambda>j. PoolSubmit j []) js @ [Start]) (length ch) cap d"
  by (simp add: filling_def chunk_pool_def NewWithOptions_def chunk_caller_def)

lemma start_runs:
  assumes "filling p [Start] n cap d"
  shows "\<exists>q. run_all c [(0, Go)] p = Some q \<and> p_started q \<and> p_threads q ! 0 = (Caller, [])"
  using assms by (auto simp: filling_def run_def exec_def pool_Start_def spawn_def nth_append)

lemma chunk_starts:
  assumes "accepts (cf_queue_store c) js d" "length ch + length js \<le> cap"
  shows "\<exists>es p. set es \<subseteq> {(0, Go)} \<and> run_all c es (chunk_pool ch cap d js) = Some p \<and> p_started p \<and> p_threads p ! 0 = (Caller, [])"
proof -
  obtain es q d' where e: "set es \<subseteq> {(0, Go)}" and q: "run_all c es (chunk_pool ch cap d js) = Some q" "filling q [Start] (length ch + length js) cap d'"
    using submit_fits [OF chunk_pool_filling assms(2), of c "[]" d] assms(1) unfolding append_Nil2 by blast
  obtain p where p: "run_all c [(0, Go)] q = Some p" "p_started p" "p_threads p ! 0 = (Caller, [])"
    using start_runs [OF q(2)] by blast
  have "run_all c (es @ [(0, Go)]) (chunk_pool ch cap d js) = Some p" by (simp only: run_all_append q(1) p(1) option.case)
  moreover have "set (es @ [(0, Go)]) \<subseteq> {(0, Go)}" using e by simp
  ultimately show ?thesis using p(2,3) by blast
qed


text \<open>The PostgreSQL store with one job left over from a run that was stopped.\<close>

lemma accepts_pg:
  "distinct (map ID js) \<Longrightarrow> \<forall>j \<in> set js. \<not> job_exists (ID j) d \<Longrightarrow> accepts (Some pg_jobs) js d"
proof (induction js arbitrary: d)
  case (Cons j js)
  have "\<forall>k \<in> set js. \<not> job_exists (ID k) (d\<lparr>jobs := jobs d @ [create_row 0 0 j]\<rparr>)"
    using Cons.prems by (auto simp: job_exists_def create_row_def new_row_def)
  with Cons show ?case by (simp add: pg_jobs_def CreateJob_def)
qed simp

lemma reloaded:
  assumes "distinct (map r_id (jobs d))"
  shows "\<exists>ch cap d'. New_queue buffer (Some pg_jobs) now d = Some (ch, cap, d')
    \<and> length ch = card (ID ` set ch) \<and> ID ` set ch = r_id ` {r \<in> set (jobs (snd (ReclaimStuckJobs d))). acquirable now r}
    \<and> r_id ` set (jobs d') = r_id ` set (jobs d)"
proof -
  let ?d1 = "update_jobs (\<lambda>r. r_status r = StatusRunning) set_pending d"
  have r: "snd (ReclaimStuckJobs d) = ?d1" by (simp add: ReclaimStuckJobs_def set_pending_def [abs_def])
  have "distinct (map r_id (jobs ?d1))" using assms by (simp add: update_jobs_def)
  from reload_pg [OF this, of now "[]"] obtain ch where
    ch: "reload pg_jobs now ?d1 [] = Some (ch, update_jobs (acquirable now) set_running ?d1)" "distinct (map ID ch)"
    "set ch = (scanJob \<circ> set_running) ` {r \<in> set (jobs ?d1). acquirable now r}"
    by auto
  have "\<exists>cap. New_queue buffer (Some pg_jobs) now d = Some (ch, cap, update_jobs (acquirable now) set_running ?d1)"
    using ch(1) r by (simp add: New_queue_def pg_jobs_def split: prod.splits) (auto simp: pg_jobs_def)
  moreover have "length ch = card (ID ` set ch)" using ch(2) by (metis distinct_card length_map set_map)
  moreover have "ID ` set ch = r_id ` {r \<in> set (jobs ?d1). acquirable now r}"
    unfolding ch(3) by (simp only: image_image comp_def ID_scanJob set_running_simps(1))
  moreover have "r_id ` set (jobs (update_jobs (acquirable now) set_running ?d1)) = r_id ` set (jobs d)"
    (is "r_id ` set (jobs ?e) = _")
  proof -
    have "map r_id (jobs ?e) = map r_id (jobs d)" by (simp add: set_running_def set_pending_def)
    then show ?thesis by (metis list.set_map)
  qed
  ultimately show ?thesis unfolding r by blast
qed

definition demo_round :: "job list" where
  "demo_round = map (\<lambda>k. metadata_job 1 (CHR ''m'' # nat_text k, \<lparr>co_path = ''example.com/m'' @ nat_text k, co_version = ''v1.0.0''\<rparr>)) [0..<goQueueBufferSize]"

lemma nat_text_inj: "nat_text m = nat_text n \<Longrightarrow> m = n"
  by (metis digits_val_nat_text of_nat_eq_iff)

lemma demo_round_ids: "distinct (map ID demo_round)" "j \<in> set demo_round \<Longrightarrow> \<exists>s. ID j = CHR ''m'' # s"
proof -
  have "map ID demo_round = map (\<lambda>k. CHR ''m'' # nat_text k) [0..<goQueueBufferSize]"
    by (simp add: demo_round_def metadata_job_def NewJob_def)
  moreover have "inj_on (\<lambda>k. CHR ''m'' # nat_text k) A" for A by (auto intro: inj_onI nat_text_inj)
  ultimately show "distinct (map ID demo_round)" by (simp add: distinct_map)
  show "j \<in> set demo_round \<Longrightarrow> \<exists>s. ID j = CHR ''m'' # s" by (auto simp: demo_round_def metadata_job_def NewJob_def)
qed


section \<open>The jobs of an in-memory chunk\<close>

text \<open>The jobs a statement may still act on.\<close>

fun stmt_jobs :: "statement \<Rightarrow> job list" where
  "stmt_jobs (PoolSubmit j ws) = j # concat (map stmt_jobs ws)"
| "stmt_jobs (QueueSubmit j ws vs us) = j # concat (map stmt_jobs ws) @ concat (map stmt_jobs vs) @ concat (map stmt_jobs us)"
| "stmt_jobs (Send j ws vs) = j # concat (map stmt_jobs ws) @ concat (map stmt_jobs vs)"
| "stmt_jobs (Persist j ws vs) = j # concat (map stmt_jobs ws) @ concat (map stmt_jobs vs)"
| "stmt_jobs (Running j) = [j]"
| "stmt_jobs (Handle j) = [j]"
| "stmt_jobs (RetryStored j) = [j]"
| "stmt_jobs (DeadLetter j e) = [j]"
| "stmt_jobs (CompleteStored j) = [j]"
| "stmt_jobs (SubmitChild j) = [j]"
| "stmt_jobs (PersistChildForDispatch j) = [j]"
| "stmt_jobs (DispatchAcquired j) = [j]"
| "stmt_jobs _ = []"

definition jobs_of :: "statement list \<Rightarrow> job set" where
  "jobs_of ws = set (concat (map stmt_jobs ws))"

lemma jobs_of_simps [simp]: "jobs_of [] = {}" "jobs_of (w # ws) = set (stmt_jobs w) \<union> jobs_of ws" "jobs_of (ws @ vs) = jobs_of ws \<union> jobs_of vs"
  by (simp_all add: jobs_of_def)

text \<open>What the handler reads of a job.\<close>

definition content :: "job \<Rightarrow> string \<times> raw_message" where
  "content j = (Type j, Payload j)"

definition pool_jobs :: "'d pool \<Rightarrow> job set" where
  "pool_jobs p = set (q_ch p) \<union> (\<Union>g \<in> set (p_threads p). jobs_of (snd g))"

definition in_memory_config :: "'d pool_config \<Rightarrow> bool" where
  "in_memory_config c \<longleftrightarrow> cf_store c = None \<and> cf_queue_store c = None"

lemma content_simps [simp]:
  "content (j\<lparr>Attempts := n\<rparr>) = content j" "content (j\<lparr>Status := t\<rparr>) = content j" "content (j\<lparr>ScheduledAt := u\<rparr>) = content j"
  by (simp_all add: content_def)

definition contents_within :: "(string \<times> raw_message) set \<Rightarrow> job set \<Rightarrow> bool" where
  "contents_within C js \<longleftrightarrow> (\<forall>j \<in> js. content j \<in> C)"

lemma within_simps [simp]:
  "contents_within C {}" "contents_within C (insert j js) \<longleftrightarrow> content j \<in> C \<and> contents_within C js" "contents_within C (A \<union> B) \<longleftrightarrow> contents_within C A \<and> contents_within C B"
  by (auto simp: contents_within_def)

text \<open>A statement without a store makes no jobs but those it is given, up to their status and attempts.\<close>

lemma exec_within:
  assumes "exec c now e i p = Some (new, p1)" "in_memory_config c" "\<forall>js. e = Handled (Inr js) \<longrightarrow> js = []"
    "contents_within C (set (stmt_jobs i))" "contents_within C (set (q_ch p))"
  shows "contents_within C (jobs_of new) \<and> contents_within C (set (q_ch p1))"
proof -
  have True: "e = Handled (Inr []) \<or> (\<exists>err. e = Handled (Inl err)) \<or> (\<forall>x. e \<noteq> Handled x)"
  proof (cases e)
    case (Handled x)
    then show ?thesis using assms(3) by (cases x) auto
  qed auto
  note st = assms(2) [unfolded in_memory_config_def]
  show ?thesis
  proof (cases i)
    case (Handle j)
    then show ?thesis using assms(1,4,5) True
      by (auto simp: exec_def handler_answer_def handled_ok_def handled_error_def release_job_def Let_def split: event.splits sum.splits)
  next
    case Dequeue
    then show ?thesis using assms(1,5) st by (auto simp: exec_def queue_Dequeue_def Let_def split: list.splits if_splits)
  next
    case (Send j ok closed)
    then show ?thesis using assms(1,4,5) by (auto simp: exec_def queue_send_def jobs_of_def split: if_splits)
  next
    case (PoolSubmit j shut)
    then show ?thesis using assms(1,4,5) by (auto simp: exec_def pool_Submit_def undo_count_def jobs_of_def split: if_splits)
  next
    case (QueueSubmit j ok closed err)
    then show ?thesis using assms(1,4,5) st by (auto simp: exec_def queue_Submit_def jobs_of_def split: if_splits)
  next
    case (Persist j ok err)
    then show ?thesis using assms(1,4,5) st by (auto simp: exec_def queue_Persist_def jobs_of_def)
  next
    case (SubmitChild j)
    then show ?thesis using assms(1,4,5) by (auto simp: exec_def submitChild_def split: if_splits)
  next
    case (PersistChildForDispatch j)
    then show ?thesis using assms(1,4,5) by (auto simp: exec_def persistChildForDispatch_def undo_count_def split: if_splits)
  next
    case (DispatchAcquired j)
    then show ?thesis using assms(1,4,5) by (auto simp: exec_def queue_DispatchAcquired_def split: if_splits)
  next
    case (LoadOrStore j)
    then show ?thesis using assms(1,4,5) by (auto simp: exec_def load_or_store_def split: if_splits)
  next
    case PollLoop
    then show ?thesis using assms(1,5) by (auto simp: exec_def pollLoop_def wait_for_def split: event.splits if_splits)
  next
    case PollAcquire
    then show ?thesis using assms(1) st by (simp add: exec_def poll_acquire_def)
  next
    case DequeueAcquire
    then show ?thesis using assms(1) st by (simp add: exec_def dequeue_acquire_def)
  next
    case (RetryStored j)
    then show ?thesis using assms(1,5) st by (auto simp: exec_def retry_stored_def)
  next
    case (DeadLetter j err)
    then show ?thesis using assms(1,5) st by (auto simp: exec_def dead_letter_def split: option.splits prod.splits)
  next
    case (CompleteStored j)
    then show ?thesis using assms(1,5) st by (auto simp: exec_def complete_stored_def)
  qed (use assms(1,4,5) in \<open>auto simp: exec_def pool_Start_def pool_Shutdown_def wait_for_def close_locked_def checkDone_def spawn_def split: if_splits\<close>)
qed

lemma exec_threads:
  assumes "exec c now e i p = Some (new, p1)"
  shows "\<exists>gs. p_threads p1 = p_threads p @ gs \<and> (\<forall>g \<in> set gs. jobs_of (snd g) = {})"
  using assms
  by (cases i)
    (auto simp: exec_simps closer_def Let_def split: if_splits option.splits list.splits event.splits sum.splits prod.splits)

definition pool_within :: "(string \<times> raw_message) set \<Rightarrow> 'd pool \<Rightarrow> bool" where
  "pool_within C p \<longleftrightarrow> contents_within C (set (q_ch p)) \<and> (\<forall>g \<in> set (p_threads p). contents_within C (jobs_of (snd g)))"

lemma run_within:
  assumes "run c now e k p = Some p'" "in_memory_config c" "\<forall>js. e = Handled (Inr js) \<longrightarrow> js = []" "pool_within C p"
  shows "pool_within C p'"
proof -
  obtain r i rest new p1 where k: "k < length (p_threads p)" "p_threads p ! k = (r, i # rest)"
    and e: "exec c now e i p = Some (new, p1)" and p': "p' = p1\<lparr>p_threads := (p_threads p1)[k := (r, new @ rest)]\<rparr>"
    using assms(1) by (auto simp: run_def split: if_splits prod.splits list.splits option.splits)
  have g: "(r, i # rest) \<in> set (p_threads p)" using k nth_mem by metis
  then have "contents_within C (jobs_of (i # rest))" using assms(4) by (auto simp: pool_within_def)
  then have ir: "contents_within C (set (stmt_jobs i))" "contents_within C (jobs_of rest)" by simp_all
  have q: "contents_within C (set (q_ch p))" using assms(4) by (simp add: pool_within_def)
  have n: "contents_within C (jobs_of new)" "contents_within C (set (q_ch p1))" using exec_within [OF e assms(2,3) ir(1) q] by blast+
  obtain gs where gs: "p_threads p1 = p_threads p @ gs" "\<forall>g \<in> set gs. jobs_of (snd g) = {}" using exec_threads [OF e] by blast
  have "contents_within C (jobs_of (snd h))" if "h \<in> set (p_threads p')" for h
  proof -
    have "h = (r, new @ rest) \<or> h \<in> set (p_threads p) \<or> h \<in> set gs"
      using that unfolding p' gs(1) by (auto dest!: set_update_subset_insert [THEN subsetD])
    then show ?thesis using n(1) ir(2) assms(4) gs(2) by (auto simp: pool_within_def)
  qed
  moreover have "q_ch p' = q_ch p1" unfolding p' by simp
  ultimately show ?thesis using n(2) by (simp add: pool_within_def)
qed

lemma next_within:
  assumes "next_statement k p = Some (Handle j)" "pool_within C p"
  shows "content j \<in> C"
proof -
  obtain r rest where "p_threads p ! k = (r, Handle j # rest)" "k < length (p_threads p)"
    using assms(1) by (cases "p_threads p ! k") (auto simp: next_statement_def split: if_splits list.splits)
  then have "contents_within C (jobs_of (snd (r, Handle j # rest)))" using assms(2) nth_mem by (metis pool_within_def)
  then show ?thesis by simp
qed

section \<open>What the collector holds\<close>

definition sourced :: "metadata_client set \<Rightarrow> coordinate set \<Rightarrow> collector \<Rightarrow> bool" where
  "sourced F A col \<longleftrightarrow> (\<forall>c m. map_of (cl_results col) c = Some m \<longrightarrow> c \<in> A \<and> (\<exists>fetch \<in> F. fetch (co_path c) (co_version c) = Inr m))"

definition round_contents :: "int \<Rightarrow> coordinate set \<Rightarrow> (string \<times> raw_message) set" where
  "round_contents round A = (\<lambda>c. content (metadata_job round ([], c))) ` A"

lemma payload_roundtrip:
  assumes "min_int64 \<le> mp_Round p" "mp_Round p \<le> max_int64"
  shows "metadata_payload_of (Some (metadata_payload_json p)) = Some p"
  using unmarshal_json_int [OF assms]
  by (cases p) (simp add: metadata_payload_of_def metadata_payload_json_def metadata_member_def field_for_def json_int_def)

lemma metadata_fetch_sourced:
  assumes "metadata_fetch fetch c col = (out, col')" "fetch \<in> F" "c \<in> A" "sourced F A col"
  shows "sourced F A col' \<and> (\<forall>js. out = Inr js \<longrightarrow> js = [])"
  using assms
  by (auto simp: metadata_fetch_def sourced_def collector_put_def collector_fail_def split: option.splits sum.splits if_splits)

lemma metadata_Handle_sourced:
  assumes "metadata_Handle L fetch round j col = (out, col')" "fetch \<in> F" "content j \<in> round_contents round A" "sourced F A col"
    "min_int64 \<le> round" "round \<le> max_int64"
  shows "sourced F A col' \<and> (\<forall>js. out = Inr js \<longrightarrow> js = [])"
proof -
  obtain c where c: "c \<in> A" "Type j = goMetadataJobType"
    "Payload j = Some (metadata_payload_json \<lparr>mp_ModulePath = co_path c, mp_Version = co_version c, mp_Round = round\<rparr>)"
    using assms(3) by (auto simp: round_contents_def content_def metadata_job_def NewJob_def)
  have "metadata_payload_of (Payload j) = Some \<lparr>mp_ModulePath = co_path c, mp_Version = co_version c, mp_Round = round\<rparr>"
    unfolding c(3) by (rule payload_roundtrip) (simp_all add: assms(5,6))
  then have h: "metadata_Handle L fetch round j col = (if ValidateCoordinate L (co_path c) (co_version c) then metadata_fetch fetch c col
      else (Inl (WrapError ''Go metadata handler: invalid coordinate'' (PlainError ''coordinate'')), col))"
    using c(2) by (cases c) (simp add: metadata_Handle_def Let_def)
  then show ?thesis
  proof (cases "ValidateCoordinate L (co_path c) (co_version c)")
    case True
    then have "metadata_fetch fetch c col = (out, col')" using assms(1) h by simp
    then show ?thesis by (rule metadata_fetch_sourced [OF _ assms(2) c(1) assms(4)])
  next
    case False
    then show ?thesis using assms(1,4) h by auto
  qed
qed

lemma chunk_step_sourced:
  assumes "chunk_step c L F round (p, col) (p', col')" "in_memory_config c" "pool_within (round_contents round A) p" "sourced F A col"
    "min_int64 \<le> round" "round \<le> max_int64"
  shows "pool_within (round_contents round A) p' \<and> sourced F A col'"
  using assms(1)
proof cases
  case (chunk_handle k j fetch out now)
  note h = metadata_Handle_sourced [OF chunk_handle(3,2) next_within [OF chunk_handle(1) assms(3)] assms(4-6)]
  have "\<forall>js. Handled out = Handled (Inr js) \<longrightarrow> js = []" using h by simp
  then show ?thesis using run_within [OF chunk_handle(4) assms(2) _ assms(3)] h by blast
next
  case (chunk_other k e now)
  have "\<forall>js. e = Handled (Inr js) \<longrightarrow> js = []" using chunk_other(3) by simp
  then show ?thesis using run_within [OF chunk_other(4) assms(2) _ assms(3)] chunk_other(1) assms(4) by blast
qed

lemma chunk_steps_sourced:
  assumes "(chunk_step c L F round)\<^sup>*\<^sup>* x y" "in_memory_config c" "min_int64 \<le> round" "round \<le> max_int64"
    "pool_within (round_contents round A) (fst x)" "sourced F A (snd x)"
  shows "pool_within (round_contents round A) (fst y) \<and> sourced F A (snd y)"
  using assms(1)
proof (induction rule: rtranclp_induct)
  case (step y z)
  then show ?case using chunk_step_sourced [OF _ assms(2) _ _ assms(3,4), of L F "fst y" "snd y" "fst z" "snd z"] by simp
qed (use assms(5,6) in simp)

text \<open>The jobs \<^verbatim>\<open>runChunk\<close> makes for the coordinates of a chunk.\<close>

definition chunk_jobs :: "int \<Rightarrow> id list \<Rightarrow> coordinate list \<Rightarrow> job list" where
  "chunk_jobs round ids cs = map (metadata_job round) (zip ids cs)"

lemma chunk_jobs_within: "contents_within (round_contents round (set cs)) (set (chunk_jobs round ids cs))"
  by (auto simp: contents_within_def chunk_jobs_def round_contents_def metadata_job_def NewJob_def content_def dest!: set_zip_rightD)

lemma runChunk_sourced:
  assumes "runChunk c L F round ([], cap, d) (chunk_jobs round ids cs) col err col'" "in_memory_config c"
    "min_int64 \<le> round" "round \<le> max_int64" "set cs \<subseteq> A" "sourced F A col"
  shows "sourced F A col'"
proof -
  let ?C = "round_contents round A"
  have mono: "round_contents round (set cs) \<subseteq> ?C" using assms(5) by (auto simp: round_contents_def)
  have js: "contents_within ?C (set (chunk_jobs round ids cs))" using chunk_jobs_within mono by (auto simp: contents_within_def)
  have "contents_within ?C (jobs_of (chunk_caller js))" if "contents_within ?C (set js)" for js
    using that by (induction js) (auto simp: chunk_caller_def)
  then have start: "pool_within ?C (chunk_pool [] cap d (chunk_jobs round ids cs))"
    using js by (simp add: pool_within_def chunk_pool_def NewWithOptions_def)
  have stop: "pool_within ?C (spawn [(Caller, [Shutdown])] p)" if "pool_within ?C p" for p :: "'a pool"
    using that by (simp add: pool_within_def spawn_def)
  note steps = chunk_steps_sourced [OF _ assms(2-4)]
  from assms(1) show ?thesis
  proof cases
    case chunk_submit_failed
    then show ?thesis using assms(6) by simp
  next
    case (chunk_drained ch cap' d' p1 col1 p2)
    have "pool_within ?C p1 \<and> sourced F A col1" using steps [OF chunk_drained(3)] start assms(6) chunk_drained(2) by simp
    then show ?thesis using steps [OF chunk_drained(6)] stop by simp
  next
    case (chunk_interrupted ch cap' d' p1 col1 p2 e)
    have "pool_within ?C p1 \<and> sourced F A col1" using steps [OF chunk_interrupted(3)] start assms(6) chunk_interrupted(2) by simp
    then show ?thesis using steps [OF chunk_interrupted(5)] stop by simp
  qed
qed

section \<open>A round\<close>

text \<open>\<open>runner\<close> does what \<^verbatim>\<open>runChunk\<close> may do, over a queue made for each chunk.\<close>

definition runs_chunks :: "'d pool_config \<Rightarrow> modlib \<Rightarrow> metadata_client set \<Rightarrow> chunk_runner \<Rightarrow> bool" where
  "runs_chunks c L F runner \<longleftrightarrow> (\<forall>round cs col. length cs \<le> goQueueBufferSize \<longrightarrow>
     (\<exists>now d0 q ids. New_queue goQueueBufferSize (cf_queue_store c) now d0 = Some q \<and> length ids = length cs
        \<and> runChunk c L F round q (chunk_jobs round ids cs) col (fst (runner round cs col)) (snd (runner round cs col))))"

lemma memory_queue: "cf_queue_store c = None \<Longrightarrow> New_queue n (cf_queue_store c) now d = Some q \<Longrightarrow> q = ([], n, d)"
  by (simp add: New_queue_def)

lemma runner_sourced:
  assumes "runs_chunks c L F runner" "in_memory_config c" "min_int64 \<le> round" "round \<le> max_int64"
    "length cs \<le> goQueueBufferSize" "set cs \<subseteq> A" "sourced F A col"
  shows "sourced F A (snd (runner round cs col))"
proof -
  obtain now d0 q ids where q: "New_queue goQueueBufferSize (cf_queue_store c) now d0 = Some q"
    and r: "runChunk c L F round q (chunk_jobs round ids cs) col (fst (runner round cs col)) (snd (runner round cs col))"
    using assms(1,5) unfolding runs_chunks_def by blast
  have "q = ([], goQueueBufferSize, d0)" using memory_queue [OF _ q] assms(2) by (simp add: in_memory_config_def)
  then show ?thesis using runChunk_sourced [OF _ assms(2-4,6,7)] r by blast
qed

lemma fetch_chunks_sourced:
  assumes "runs_chunks c L F runner" "in_memory_config c" "min_int64 \<le> round" "round \<le> max_int64"
  shows "fetch_chunks L runner round cs col = Inr col' \<Longrightarrow> set cs \<subseteq> A \<Longrightarrow> sourced F A col \<Longrightarrow> sourced F A col'"
proof (induction "length cs" arbitrary: cs col rule: less_induct)
  case less
  show ?case
  proof (cases "cs = []")
    case True
    with less show ?thesis by (simp add: fetch_chunks.simps)
  next
    case False
    let ?chunk = "take goQueueBufferSize cs"
    obtain col1 where r: "runner round ?chunk col = (None, col1)"
      and rest: "fetch_chunks L runner round (drop goQueueBufferSize cs) col1 = Inr col'"
      using less.prems(1) False
      by (subst (asm) fetch_chunks.simps) (auto simp: Let_def split: prod.splits option.splits)
    have "set ?chunk \<subseteq> A" "set (drop goQueueBufferSize cs) \<subseteq> A"
      using less.prems(2) set_take_subset [of goQueueBufferSize cs] set_drop_subset [of goQueueBufferSize cs] by blast+
    moreover have "length ?chunk \<le> goQueueBufferSize" by simp
    ultimately have "sourced F A col1" using runner_sourced [OF assms, of ?chunk A col] less.prems(3) r by simp
    moreover have "length (drop goQueueBufferSize cs) < length cs" using False by (simp add: goQueueBufferSize_def)
    ultimately show ?thesis using less.hyps rest \<open>set (drop goQueueBufferSize cs) \<subseteq> A\<close> by blast
  qed
qed

text \<open>A client that answers has checked what the selection checks again.\<close>

lemma Fetch_requirements:
  assumes "Fetch C path version = Inr m"
  shows "validateRequirements (px_modlib C) (md_requirements m)"
proof -
  obtain doc where "ParseMetadata (px_modlib C) doc = Inr m"
    using assms unfolding Fetch_def proxy_get_def by (auto split: if_splits sum.splits option.splits prod.splits)
  then show ?thesis
    unfolding ParseMetadata_def
    by (auto simp: validateRequirements_def list_all_iff find_None_iff' split: option.splits if_splits; fastforce)
qed

lemma round_check_ok:
  assumes "\<And>c. c \<in> set cs \<Longrightarrow> c \<in> set requested"
    "\<And>c md. c \<in> set cs \<Longrightarrow> map_of fetched c = Some md \<Longrightarrow> md_path md = co_path c \<and> validateRequirements L (md_requirements md)"
  shows "check_fetched L requested fetched cs = None"
  using assms by (induction cs) (auto split: option.splits)

lemma round_store_ok: "\<forall>c \<in> set cs. map_of fetched c \<noteq> None \<Longrightarrow> \<exists>cache'. store_fetched cs fetched cache = Inr cache'"
  by (induction cs arbitrary: cache) auto


text \<open>A schedule of a chunk executed step by step; a handler call ignores the event of the schedule.\<close>

definition handled_job :: "nat \<Rightarrow> 'd pool \<Rightarrow> job option" where
  "handled_job k p = (case next_statement k p of Some (Handle j) \<Rightarrow> Some j | _ \<Rightarrow> None)"

definition answered :: "event \<Rightarrow> bool" where
  "answered e = (case e of Handled r \<Rightarrow> True | _ \<Rightarrow> False)"

definition chunk_move ::
  "'d pool_config \<Rightarrow> modlib \<Rightarrow> metadata_client \<Rightarrow> int \<Rightarrow> nat \<Rightarrow> event \<Rightarrow> 'd pool \<times> collector \<Rightarrow> ('d pool \<times> collector) option"
where
  "chunk_move c L fetch round k e x =
     (case handled_job k (fst x) of
        Some j \<Rightarrow>
          (let r = metadata_Handle L fetch round j (snd x)
           in map_option (\<lambda>p. (p, snd r)) (run c 0 (Handled (fst r)) k (fst x)))
      | None \<Rightarrow> if answered e then None else map_option (\<lambda>p. (p, snd x)) (run c 0 e k (fst x)))"

fun chunk_run ::
  "'d pool_config \<Rightarrow> modlib \<Rightarrow> metadata_client \<Rightarrow> int \<Rightarrow> (nat \<times> event) list \<Rightarrow> 'd pool \<times> collector \<Rightarrow> ('d pool \<times> collector) option"
where
  "chunk_run c L fetch round [] x = Some x"
| "chunk_run c L fetch round (ke # es) x =
     (case chunk_move c L fetch round (fst ke) (snd ke) x of None \<Rightarrow> None | Some y \<Rightarrow> chunk_run c L fetch round es y)"

lemma handled_job_iff: "handled_job k p = Some j \<longleftrightarrow> next_statement k p = Some (Handle j)"
  by (auto simp: handled_job_def split: option.splits statement.splits)

lemma chunk_move_step:
  assumes "chunk_move c L fetch round k e x = Some y" "fetch \<in> F"
  shows "chunk_step c L F round x y"
proof -
  obtain p col where x: "x = (p, col)" by force
  show ?thesis
  proof (cases "handled_job k p")
    case (Some j)
    obtain out col' where h: "metadata_Handle L fetch round j col = (out, col')" by force
    then obtain p' where "run c 0 (Handled out) k p = Some p'" "y = (p', col')"
      using assms(1) Some by (auto simp: chunk_move_def x)
    then show ?thesis using chunk_handle [OF _ assms(2) h] Some by (simp add: x handled_job_iff)
  next
    case None
    then obtain p' where "\<not> answered e" "run c 0 e k p = Some p'" "y = (p', col)"
      using assms(1) by (auto simp: chunk_move_def x split: if_splits)
    moreover from this(1) have "e \<noteq> Handled out" for out by (auto simp: answered_def)
    moreover have "next_statement k p \<noteq> Some (Handle j)" for j using None handled_job_iff [of k p j] by simp
    ultimately show ?thesis unfolding x by (metis chunk_other)
  qed
qed

lemma chunk_run_steps:
  "chunk_run c L fetch round es x = Some y \<Longrightarrow> fetch \<in> F \<Longrightarrow> (chunk_step c L F round)\<^sup>*\<^sup>* x y"
proof (induction es arbitrary: x)
  case (Cons ke es)
  then obtain z where z: "chunk_move c L fetch round (fst ke) (snd ke) x = Some z" "chunk_run c L fetch round es z = Some y"
    by (auto split: option.splits)
  from chunk_move_step [OF z(1) Cons.prems(2)] Cons.IH [OF z(2) Cons.prems(2)] show ?case
    by (rule converse_rtranclp_into_rtranclp)
qed simp

lemma run_all_chunk:
  "run_all c es p = Some q \<Longrightarrow> set es \<subseteq> {(0, Go)} \<Longrightarrow> (chunk_step c L F round)\<^sup>*\<^sup>* (p, col) (q, col)"
proof (induction es arbitrary: p)
  case (Cons ke es)
  have ke: "ke = (0, Go)" using Cons.prems(2) by simp
  obtain p' where r: "run c 0 Go 0 p = Some p'" "run_all c es p' = Some q"
    using Cons.prems(1) by (auto simp: ke split: option.splits)
  have "next_statement 0 p \<noteq> Some (Handle j)" for j
    using r(1) by (auto simp: next_statement_def run_def exec_def handler_answer_def split: if_splits prod.splits list.splits)
  then have "chunk_step c L F round (p, col) (p', col)" by (intro chunk_other [OF _ _ r(1)]) auto
  then show ?case using Cons.IH [OF r(2)] Cons.prems(2) by (auto intro: converse_rtranclp_into_rtranclp)
qed simp

text \<open>A chunk of an in-memory round can always be interrupted after its start.\<close>

lemma chunk_can_fail:
  assumes "length js \<le> cap"
  shows "runChunk (chunk_config None letters backoff) L F round ([], cap, d) js col (Some e) col"
proof -
  let ?c = "chunk_config None letters backoff"
  have "accepts (cf_queue_store ?c) js d" by (simp add: chunk_config_def)
  from chunk_starts [OF this, of "[]" cap] assms obtain es p where "set es \<subseteq> {(0, Go)}"
    "run_all ?c es (chunk_pool [] cap d js) = Some p" "p_threads p ! 0 = (Caller, [])" by auto
  then show ?thesis using run_all_chunk by (intro chunk_interrupted [OF refl _ _ rtranclp.rtrancl_refl]) auto
qed

text \<open>A round of one module: the client, the chunk, and the schedule of its pool until the shutdown is over.\<close>

definition demo_proxy :: proxy_client where
  "demo_proxy = \<lparr>px_modlib = demo_lib, px_EscapePath = Some, px_EscapeVersion = Some,
     px_Parse = (\<lambda>_. Some \<lparr>u_Scheme = ''https'', u_User = False, u_Host = ''proxy.golang.org'', u_Hostname = ''proxy.golang.org'', u_Port = [],
       u_Path = [], u_RawQuery = [], u_Fragment = []\<rparr>),
     px_BaseURL = [],
     px_mod = (\<lambda>_. Inr (200, Inr (9, Some \<lparr>fi_Module = Some ''a'', fi_Go = Some ''1.20'', fi_Require = [], fi_Replace = 0, fi_Exclude = 0\<rparr>))),
     px_json = (\<lambda>_. Inr (404, Inr (0, None)))\<rparr>"

definition demo_coordinate :: coordinate where
  "demo_coordinate = \<lparr>co_path = ''a'', co_version = ''v1''\<rparr>"

definition demo_md :: metadata where
  "demo_md = \<lparr>md_path = ''a'', md_go = ''1.20'', md_requirements = []\<rparr>"

lemma demo_answer: "Fetch demo_proxy ''a'' ''v1'' = Inr demo_md"
proof -
  have "TrimSpace ''a'' = ''a''" by (rule TrimSpace_id) (simp add: trimmed_def is_space_def)
  then show ?thesis
    by (simp add: Fetch_def demo_proxy_def ValidateCoordinate_def ValidateVersion_def demo_lib_def endpoint_of_def validateBaseURL_def
        proxy_get_def maxMetadataBytes_def ParseMetadata_def demo_md_def sort_cmp_def)
qed

definition no_results :: collector where "no_results = \<lparr>cl_results = [], cl_failures = []\<rparr>"
definition one_result :: collector where "one_result = \<lparr>cl_results = [(demo_coordinate, demo_md)], cl_failures = []\<rparr>"

lemma demo_handled: "metadata_Handle demo_lib (Fetch demo_proxy) 1 (metadata_job 1 (i, demo_coordinate)\<lparr>Status := StatusRunning\<rparr>) no_results
    = (Inr [], one_result)"
proof -
  let ?p = "\<lparr>mp_ModulePath = ''a'', mp_Version = ''v1'', mp_Round = 1\<rparr>"
  have "metadata_payload_of (Some (metadata_payload_json ?p)) = Some ?p"
    by (rule payload_roundtrip) (simp_all add: min_int64_def max_int64_def)
  then show ?thesis
    by (simp add: metadata_Handle_def metadata_job_def NewJob_def demo_coordinate_def Let_def ValidateCoordinate_def ValidateVersion_def
        demo_lib_def metadata_fetch_def failure_of_def no_results_def one_result_def demo_answer [unfolded demo_md_def] collector_put_def demo_md_def)
qed

definition memory_chunk :: "unit pool_config" where
  "memory_chunk = chunk_config None None (\<lambda>_. 0)"

definition demo_jobs :: "job list" where
  "demo_jobs = chunk_jobs 1 [''i''] [demo_coordinate]"

definition work_schedule :: "(nat \<times> event) list" where
  "work_schedule = replicate 7 (0, Go) @ replicate 7 (1, Go)"

definition stop_schedule :: "(nat \<times> event) list" where
  "stop_schedule = replicate 4 (11, Go) @ replicate 4 (12, Go) @ map (\<lambda>k. (k, Go)) [1, 2, 3, 4, 5, 6, 7, 8, 9, 10] @ replicate 2 (12, Go)"

lemma demo_job: "demo_jobs = [metadata_job 1 (''i'', demo_coordinate)]"
  by (simp add: demo_jobs_def chunk_jobs_def)

lemma demo_works:
  "\<exists>p. chunk_run memory_chunk demo_lib (Fetch demo_proxy) 1 work_schedule (chunk_pool [] 100 () demo_jobs, no_results) = Some (p, one_result)
    \<and> p_threads p ! 0 = (Caller, []) \<and> p_done p
    \<and> (\<exists>q. chunk_run memory_chunk demo_lib (Fetch demo_proxy) 1 stop_schedule (spawn [(Caller, [Shutdown])] p, one_result) = Some (q, one_result)
         \<and> p_shutdownDone q)"
  by (simp add: demo_job work_schedule_def stop_schedule_def memory_chunk_def chunk_config_def goWorkerPoolSize_def chunk_pool_def chunk_caller_def
      chunk_move_def handled_job_def answered_def pool_eval next_statement_def demo_handled all_ended_def sending_def closer_def handled_ok_def release_job_def eval_nat_numeral is_room_def)


text \<open>Every chunk but the one of the module is interrupted.\<close>

definition demo_runner :: chunk_runner where
  "demo_runner round cs col =
     (if round = 1 \<and> cs = [demo_coordinate] \<and> col = no_results then (None, one_result) else (Some (PlainError ''interrupted''), col))"

lemma demo_drained: "runChunk memory_chunk demo_lib {Fetch demo_proxy} 1 ([], 100, ()) demo_jobs no_results None one_result"
proof -
  obtain p q where p: "chunk_run memory_chunk demo_lib (Fetch demo_proxy) 1 work_schedule (chunk_pool [] 100 () demo_jobs, no_results) = Some (p, one_result)"
      "p_threads p ! 0 = (Caller, [])" "p_done p"
    and q: "chunk_run memory_chunk demo_lib (Fetch demo_proxy) 1 stop_schedule (spawn [(Caller, [Shutdown])] p, one_result) = Some (q, one_result)"
      "p_shutdownDone q"
    using demo_works by (elim exE conjE) (rule that)
  show ?thesis
    by (rule chunk_drained [OF refl chunk_run_steps [OF p(1)] p(2,3) chunk_run_steps [OF q(1)] q(2)]) simp_all
qed

lemma demo_runs: "runs_chunks memory_chunk demo_lib {f. \<exists>C \<in> {demo_proxy}. f = Fetch C} demo_runner"
proof -
  have F: "{f. \<exists>C \<in> {demo_proxy}. f = Fetch C} = {Fetch demo_proxy}" by auto
  have q: "New_queue goQueueBufferSize (cf_queue_store memory_chunk) 0 () = Some ([], 100, ())"
    by (simp add: New_queue_def goQueueBufferSize_def memory_chunk_def chunk_config_def)
  have "\<exists>now d0 q ids. New_queue goQueueBufferSize (cf_queue_store memory_chunk) now d0 = Some q \<and> length ids = length cs
        \<and> runChunk memory_chunk demo_lib {Fetch demo_proxy} round q (chunk_jobs round ids cs) col (fst (demo_runner round cs col)) (snd (demo_runner round cs col))"
    if n: "length cs \<le> goQueueBufferSize" for round cs col
  proof (cases "round = 1 \<and> cs = [demo_coordinate] \<and> col = no_results")
    case True
    then have "runChunk memory_chunk demo_lib {Fetch demo_proxy} round ([], 100, ()) (chunk_jobs round [''i''] cs) col
        (fst (demo_runner round cs col)) (snd (demo_runner round cs col))"
      using demo_drained by (simp add: demo_runner_def demo_jobs_def)
    then show ?thesis using q True by (intro exI [of _ 0] exI [of _ "()"] exI [of _ "([], 100, ())"] exI [of _ "[''i'']"]) auto
  next
    case False
    let ?ids = "map (\<lambda>_. ''i'') cs"
    have "length (chunk_jobs round ?ids cs) \<le> 100" using n by (simp add: chunk_jobs_def goQueueBufferSize_def)
    then have "runChunk memory_chunk demo_lib {Fetch demo_proxy} round ([], 100, ()) (chunk_jobs round ?ids cs) col
        (Some (PlainError ''interrupted'')) col"
      unfolding memory_chunk_def by (rule chunk_can_fail)
    moreover have "demo_runner round cs col = (Some (PlainError ''interrupted''), col)"
      unfolding demo_runner_def by (rule if_not_P [OF False])
    ultimately have "runChunk memory_chunk demo_lib {Fetch demo_proxy} round ([], 100, ()) (chunk_jobs round ?ids cs) col
        (fst (demo_runner round cs col)) (snd (demo_runner round cs col))"
      by (simp only: fst_conv snd_conv)
    then show ?thesis using q by (intro exI [of _ 0] exI [of _ "()"] exI [of _ "([], 100, ())"] exI [of _ ?ids]) auto
  qed
  then show ?thesis unfolding F runs_chunks_def by blast
qed

lemma demo_round: "FetchRound demo_lib (Some demo_runner) [demo_coordinate] 0 = (Inr [(demo_coordinate, demo_md)], 1)"
proof -
  have "sortCoordinates demo_lib [demo_coordinate] = [demo_coordinate]" by (simp add: sortCoordinates_def sort_cmp_def)
  then have "firstFailure demo_lib [demo_coordinate] one_result = None" by (simp add: firstFailure_def one_result_def failure_of_def)
  then have "fetch_chunks demo_lib demo_runner 1 [demo_coordinate] no_results = Inr one_result"
    by (simp add: fetch_chunks.simps goQueueBufferSize_def demo_runner_def)
  moreover have "snapshot one_result = [(demo_coordinate, demo_md)]" by (simp add: snapshot_def one_result_def)
  ultimately show ?thesis by (simp add: FetchRound_def no_results_def [symmetric])
qed

lemma demo_lib_of: "\<forall>C \<in> {demo_proxy}. px_modlib C = demo_lib"
  by (simp add: demo_proxy_def)


end
