(* ===== verification/Spec2Isabelle.thy ===== *)
theory Spec2Isabelle
  imports Store_Theorems Store_Guarantees Store_Recovery Store_Trees Worker_Theorems Pypi_Markers Gomod_Theorems Auditor_Theorems
    Pool_Theorems Pool_Restart Api_Theorems Query_Theorems Depfile_Theorems App_Theorems Commands Http_Metrics Auditor_Markdown
    Gomod_Queue_Theorems
begin

text \<open>
  A verification development for the distributed job service and dependency auditor.

  \<^bold>\<open>The program.\<close> An HTTP API (\<^verbatim>\<open>cmd/api\<close>, \<^verbatim>\<open>internal/httpapi\<close>) submits, lists,
  cancels, retries and replays jobs that a PostgreSQL store keeps
  (\<^verbatim>\<open>internal/store/postgres/service.go\<close>). Worker processes (\<^verbatim>\<open>cmd/worker\<close>,
  \<^verbatim>\<open>internal/worker/service.go\<close>) claim due jobs under a lease, run a handler, extend the
  lease while it runs, and report the result; leases that expire are reclaimed. The handlers
  (\<^verbatim>\<open>internal/handlers\<close>, \<^verbatim>\<open>internal/auditor\<close>) audit a repository: they read its
  manifests (\<^verbatim>\<open>internal/github\<close>, \<^verbatim>\<open>internal/depfile\<close>), ask the registries of npm, PyPI
  and Go (\<^verbatim>\<open>auditor/registry.go\<close>, \<^verbatim>\<open>internal/pypi\<close>, \<^verbatim>\<open>internal/gomod\<close>) about every
  dependency, and ask for a child job for each. Beside it stands the first generation of the
  program: an in-process pool over a bounded queue (\<^verbatim>\<open>worker/pool.go\<close>,
  \<^verbatim>\<open>internal/queue\<close>, \<^verbatim>\<open>internal/dlq\<close>, \<^verbatim>\<open>store/postgres/postgres.go\<close>), through
  which minimal version selection (\<^verbatim>\<open>gomod/selection.go\<close>) fetches its metadata.

  \<^bold>\<open>The library of Go.\<close> \<^verbatim>\<open>Prelude\<close> holds the type names, the table primitives every SQL
  statement is written with, and two locales: tables whose rows have a key, and three-way
  comparisons. \<^verbatim>\<open>Go_Strings\<close>, \<^verbatim>\<open>Go_Json\<close>, \<^verbatim>\<open>Go_Regex\<close>, \<^verbatim>\<open>Go_Encoding\<close> and
  \<^verbatim>\<open>Go_Duration\<close> model what the sources use of \<^verbatim>\<open>strings\<close>, \<^verbatim>\<open>strconv\<close>,
  \<^verbatim>\<open>encoding/json\<close> (on decoded values), \<^verbatim>\<open>regexp\<close> (captures and priorities),
  \<^verbatim>\<open>base64\<close> and \<^verbatim>\<open>time\<close>. A string is a list of bytes.

  \<^bold>\<open>The job service.\<close> \<^verbatim>\<open>Job\<close> has the data of \<^verbatim>\<open>internal/job\<close>. \<^verbatim>\<open>Store_Db\<close> has
  the tables of \<^verbatim>\<open>db/migrations\<close> as lists of records and the insertions with their unique
  indexes; \<^verbatim>\<open>Store_Ops\<close> one definition per method of \<^verbatim>\<open>service.go\<close>, with the names of
  the source, a transaction being a function from a database to an error or a value and the
  next database; \<^verbatim>\<open>Store_Queries\<close> the pages with their cursors and the metrics.
  \<^verbatim>\<open>Store_Steps\<close> has the abstract lifecycle of a job, the row invariant and the table
  invariant, and reads every operation as a sequence of legal statements
  (\<^verbatim>\<open>Store_Invariant\<close>); \<^verbatim>\<open>Store_System\<close> is the step relation of clients and workers
  with the values claims have handed out. \<^verbatim>\<open>Store_Theorems\<close> shows the refinement of the
  lifecycle, the invariants, fencing and exclusive leases; \<^verbatim>\<open>Store_Dlq\<close> and
  \<^verbatim>\<open>Store_Guarantees\<close> the order of claims, idempotent submission, the history of attempts,
  and that the dead-letter queue is exact; \<^verbatim>\<open>Store_Recovery\<close> what reclaiming achieves;
  \<^verbatim>\<open>Store_Trees\<close> when a waiting root is settled, and the case in which it never is;
  \<^verbatim>\<open>Query_Theorems\<close> that following the cursors loses and repeats nothing (a locale of
  paged lists, interpreted for jobs and for dead letters). \<^verbatim>\<open>Store_Demo\<close> is a run evaluated
  step by step, which the witnesses use.

  \<^bold>\<open>Workers, API and the deployed system.\<close> \<^verbatim>\<open>Worker_Service\<close> has the claim loop, the
  maintenance loop, the processing of a job and the retry delays, each as a function of the
  list of cases its \<^verbatim>\<open>select\<close> takes, so that a theorem over all lists covers all
  interleavings; \<^verbatim>\<open>Worker_Theorems\<close> states the contract of a leased store as a locale,
  interprets it on the PostgreSQL service, and shows that a run of a worker is a run of the
  service. \<^verbatim>\<open>Http_Api\<close> and \<^verbatim>\<open>Http_Metrics\<close> have the routes, with body decoding,
  validation and status codes; \<^verbatim>\<open>Api_Theorems\<close> shows that a request is at most one step of
  the service. \<^verbatim>\<open>Demo_Handler\<close> and \<^verbatim>\<open>Service_Handlers\<close> have the handlers and the table
  in \<^verbatim>\<open>cmd/worker/main.go\<close>; \<^verbatim>\<open>Commands\<close> how the processes read their environment and
  start. \<^verbatim>\<open>App_System\<close> composes requests, claims, handlers and maintenance into one
  transition system. \<^verbatim>\<open>App_Rows\<close> and \<^verbatim>\<open>App_System\<close> state as locales what a law on the
  unchanging part of a job row needs: it has to hold where a row is created. The law is
  interpreted for the limit of attempts, and used in \<^verbatim>\<open>App_Audit\<close> for the coordinate each
  internal job is about; \<^verbatim>\<open>App_Theorems\<close> concludes that an audit looks at each package
  once, on the run of \<^verbatim>\<open>App_Demo\<close>, whose only package depends on itself.

  \<^bold>\<open>The auditor and the registries.\<close> \<^verbatim>\<open>Auditor_Graph\<close> has the stores of packages and
  edges, the audit handler of the pool, the policy, the breadth-first search for a path and
  the report, \<^verbatim>\<open>Auditor_Theorems\<close> that a path is a shortest one; \<^verbatim>\<open>Auditor_Markdown\<close> the
  Markdown report and that it does not depend on the order of the findings. \<^verbatim>\<open>Pypi_Version\<close>
  and \<^verbatim>\<open>Pypi_Requirement\<close> have PEP 440 and PEP 508 as the code reads them,
  \<^verbatim>\<open>Pypi_Theorems\<close> and \<^verbatim>\<open>Pypi_Markers\<close> that versions are totally preordered, that a
  resolved version is a highest match, and that the marker evaluator computes a grammar;
  \<^verbatim>\<open>Depfile\<close> and \<^verbatim>\<open>Depfile_Theorems\<close> the manifests; \<^verbatim>\<open>Registry\<close>, \<^verbatim>\<open>Pypi_Client\<close>,
  \<^verbatim>\<open>Gomod_Client\<close> and \<^verbatim>\<open>Github_Url\<close> the clients. \<^verbatim>\<open>Gomod_Selection\<close> has minimal
  version selection with graph pruning, \<^verbatim>\<open>Gomod_Theorems\<close> its termination and the
  properties of the build list.

  \<^bold>\<open>The pool.\<close> \<^verbatim>\<open>Worker_Pool\<close> models each goroutine as a list of statements at the grain
  of channel and mutex operations; a step of the pool runs the next statement of any goroutine
  that is not blocked. \<^verbatim>\<open>Legacy_Store\<close> is its store. \<^verbatim>\<open>Pool_Theorems\<close> and
  \<^verbatim>\<open>Pool_Restart\<close> show when the pool is done, what a finished shutdown means, how it can
  deadlock, and what a restart reloads; \<^verbatim>\<open>Gomod_Queue\<close> and \<^verbatim>\<open>Gomod_Queue_Theorems\<close> run
  the rounds of metadata over it.

  \<^bold>\<open>Bounds and fuel.\<close> Go's \<^verbatim>\<open>int\<close> is \<^verbatim>\<open>int\<close> with the 64-bit range where a value can
  leave it (delays, cursors, durations, the doubled heartbeat, rounds). Times are nanoseconds.
  Four loops have fuel: the search for a path (the number of edges plus one, shown enough), the
  propagation of load modes (twice the number of modules plus one, shown enough), the selection loop
  (more than the number of mentioned modules, shown enough), and the paging client (the number of rows
  plus one, shown enough). The marker and pattern matchers recurse on the input that is left.

  \<^bold>\<open>Arguments of the model.\<close> Code that is not in the repository is an argument: SHA-256 (a
  function), \<^verbatim>\<open>Masterminds/semver\<close> and \<^verbatim>\<open>golang.org/x/mod\<close> (records of functions, with
  the order laws of the latter as hypotheses), \<^verbatim>\<open>sort.Slice\<close> where it is not stable, the
  iteration order of maps, the answers of HTTP exchanges, the parsers of JSON, TOML and
  \<^verbatim>\<open>go.mod\<close> texts, the random draw of a delay, the UUIDs, and the clock. Where a theorem
  needs a law of an argument, its witness instantiates it.

  \<^bold>\<open>Not modelled.\<close> Row locks and isolation levels: a transaction is one step, which is what
  the locks of the service aim at; finalizing a root from two transactions at once is outside
  the model. Errors of the database itself, except where a worker or the pool reacts to
  them. Logging. The \<^verbatim>\<open>net/http\<close> server, signals and the loops that only wait
  (\<^verbatim>\<open>cmd/api/main.go\<close>). The texts of errors of libraries. UTF-8: a string is its bytes, and
  the store is assumed to take any. The web client.
\<close>

end
